theory Spec2Isabelle
  imports Complex_Main "HOL-Library.Multiset" "HOL-Library.Log_Nat"
begin

section \<open>The data model of SplitLayout.ts\<close>

text \<open>
  DOM elements are compared by reference in the source. A reference to a caller-supplied
  element is a natural number. A tab widget is created by the layout itself and receives the
  id \<open>"tabwidget_" + tabWidgetIdCounter\<close>; the embedding names the widget by that number.
  A tab is either supplied by the caller or is the placeholder tab that \<open>update()\<close> creates
  with the id \<open>"tab_" + tabIdCounter\<close>.
\<close>

type_synonym Element = nat
type_synonym TabWidget = nat

datatype Tab = CallerTab nat | CreatedTab nat

datatype SplitOrientation = VERTICAL | HORIZONTAL

text \<open>
  \<open>TabInfo\<close> objects are compared by reference (\<open>info !== tabInfo\<close>). The field \<open>ref\<close> is the
  address of the object; it is allocated from \<open>objCounter\<close> where the source evaluates the
  object literal. The \<open>container\<close> field and the other lazily created widgets
  (\<open>emptyContainer\<close>, the space elements, the splitter widget) are written by \<open>update()\<close>
  only and never read by a tree operation; they are left out.
\<close>

record TabInfo =
  ref :: nat
  tab :: Tab
  content :: Element

record TabWidgetInfoNode =
  children :: "TabInfo list"
  tabWidget :: TabWidget
  emptyTab :: "Tab option"
  emptyTabContent :: "Element option"

datatype InfoNode =
    TabWidgetInfo TabWidgetInfoNode
  | SplitterInfo SplitOrientation "InfoNode list"

text \<open>
  How a call ends when it does not return a layout of the data model. It throws a
  \<open>TypeError\<close>; or it returns after writing null into a child array, which only
  \<open>moveTabToTabWidget\<close> does, for the placeholder tab of an empty group. The declared type
  \<open>TabInfo[]\<close> of a child array admits no null, and the tree operations dereference every
  entry; \<open>NullStored w kids\<close> carries the tab widget of the group and the array it now holds.
\<close>

datatype ending = TypeError | NullStored TabWidget "TabInfo option list"

record SplitLayout =
  rootInfoNode :: InfoNode
  tabWidgetIdCounter :: nat
  tabIdCounter :: nat
  objCounter :: nat
  rootContainer :: "Element option"
  emptySplitFactory :: "(nat \<Rightarrow> Element option \<Rightarrow> Element) option"
  factoryCalls :: nat
  severeLog :: "string list"

text \<open>
  An operation returns a value and the layout it leaves behind (\<open>Inr\<close>). Otherwise (\<open>Inl\<close>)
  it throws, and the layout is the one at the point of the throw, or it has stored null, and
  the layout gives every child array of the tree but the one that holds the null.
\<close>

type_synonym 'a outcome = "(ending \<times> SplitLayout) + ('a \<times> SplitLayout)"

subsection \<open>Array primitives of JavaScript\<close>

definition relIndex :: "int \<Rightarrow> nat \<Rightarrow> nat" where
  "relIndex i len = nat (if i < 0 then max (int len + i) 0 else min i (int len))"

definition slice :: "int \<Rightarrow> int \<Rightarrow> 'a list \<Rightarrow> 'a list" where
  "slice start end xs =
     (let k = relIndex start (length xs); final = relIndex end (length xs)
      in drop k (take final xs))"

definition sliceFrom :: "int \<Rightarrow> 'a list \<Rightarrow> 'a list" where
  "sliceFrom start xs = drop (relIndex start (length xs)) xs"

text \<open>\<open>Array.prototype.splice\<close> (named \<open>arraySplice\<close>: \<open>splice\<close> is a list function of HOL).\<close>

definition arraySplice :: "int \<Rightarrow> nat \<Rightarrow> 'a list \<Rightarrow> 'a list \<Rightarrow> 'a list" where
  "arraySplice start deleteCount items xs =
     (let k = relIndex start (length xs)
      in take k xs @ items @ drop (k + deleteCount) xs)"

fun indexWhere :: "('a \<Rightarrow> bool) \<Rightarrow> 'a list \<Rightarrow> int" where
  "indexWhere P [] = -1"
| "indexWhere P (x # xs) =
     (if P x then 0 else (let i = indexWhere P xs in if i < 0 then -1 else i + 1))"

definition elemAt :: "'a list \<Rightarrow> int \<Rightarrow> 'a option" where
  "elemAt xs i = (if 0 \<le> i \<and> i < int (length xs) then Some (xs ! nat i) else None)"

text \<open>The first child for which a search succeeds, with its position.\<close>

fun firstSome :: "'b option list \<Rightarrow> (nat \<times> 'b) option" where
  "firstSome [] = None"
| "firstSome (r # rs) =
     (case r of
        Some y \<Rightarrow> Some (0, y)
      | None \<Rightarrow> (case firstSome rs of None \<Rightarrow> None | Some (i, y) \<Rightarrow> Some (Suc i, y)))"

subsection \<open>Positions in the tree\<close>

text \<open>
  The source holds references to the nodes on a search path and mutates them in place. Every
  node object sits at exactly one position of the tree, so the embedding addresses a node by
  the child indices that lead to it from the root: the source path \<open>[n0, ..., nk]\<close> is the
  index path \<open>[i1, ..., ik]\<close> with \<open>n(j+1) = nj.children[i(j+1)]\<close>, and
  \<open>path.length = k + 1\<close>.
\<close>

fun nodeAt :: "nat list \<Rightarrow> InfoNode \<Rightarrow> InfoNode option" where
  "nodeAt [] t = Some t"
| "nodeAt (i # p) (SplitterInfo ori ks) = (if i < length ks then nodeAt p (ks ! i) else None)"
| "nodeAt (i # p) (TabWidgetInfo n) = None"

fun updAt :: "nat list \<Rightarrow> (InfoNode \<Rightarrow> InfoNode) \<Rightarrow> InfoNode \<Rightarrow> InfoNode" where
  "updAt [] f t = f t"
| "updAt (i # p) f (SplitterInfo ori ks) =
     (if i < length ks then SplitterInfo ori (ks[i := updAt p f (ks ! i)]) else SplitterInfo ori ks)"
| "updAt (i # p) f (TabWidgetInfo n) = TabWidgetInfo n"

text \<open>\<open>kid === node\<close> for a tab widget node: object identity is identity of the widget.\<close>

fun isTabWidgetNode :: "TabWidget \<Rightarrow> InfoNode \<Rightarrow> bool" where
  "isTabWidgetNode w (TabWidgetInfo n) = (tabWidget n = w)"
| "isTabWidgetNode w (SplitterInfo ori ks) = False"

definition indexOfNode :: "InfoNode list \<Rightarrow> TabWidget \<Rightarrow> int" where
  "indexOfNode ks w = indexWhere (isTabWidgetNode w) ks"

subsection \<open>Searches\<close>

fun findTabWidgetInfoByTabWidget :: "InfoNode \<Rightarrow> TabWidget \<Rightarrow> (nat list \<times> TabWidgetInfoNode) option" where
  "findTabWidgetInfoByTabWidget (SplitterInfo ori ks) w =
     (case firstSome (map (\<lambda>kid. findTabWidgetInfoByTabWidget kid w) ks) of
        Some (i, (p, n)) \<Rightarrow> Some (i # p, n)
      | None \<Rightarrow> None)"
| "findTabWidgetInfoByTabWidget (TabWidgetInfo n) w =
     (if tabWidget n = w then Some ([], n) else None)"

fun findPathToTabWidget :: "InfoNode \<Rightarrow> TabWidget \<Rightarrow> nat list option" where
  "findPathToTabWidget (SplitterInfo ori ks) w =
     (case firstSome (map (\<lambda>kid. findPathToTabWidget kid w) ks) of
        Some (i, p) \<Rightarrow> Some (i # p)
      | None \<Rightarrow> None)"
| "findPathToTabWidget (TabWidgetInfo n) w = (if tabWidget n = w then Some [] else None)"

fun firstTabWidgetInfo :: "InfoNode \<Rightarrow> (nat list \<times> TabWidgetInfoNode) option" where
  "firstTabWidgetInfo (TabWidgetInfo n) = Some ([], n)"
| "firstTabWidgetInfo (SplitterInfo ori ks) =
     (case firstSome (map firstTabWidgetInfo ks) of
        Some (i, (p, n)) \<Rightarrow> Some (i # p, n)
      | None \<Rightarrow> None)"

definition firstTabWidget :: "InfoNode \<Rightarrow> TabWidget option" where
  "firstTabWidget infoNode = map_option (\<lambda>(p, n). tabWidget n) (firstTabWidgetInfo infoNode)"

fun findTabWidgetInfoByTabContent ::
  "InfoNode \<Rightarrow> Element \<Rightarrow> (nat list \<times> TabWidgetInfoNode \<times> TabInfo option) option" where
  "findTabWidgetInfoByTabContent (SplitterInfo ori ks) c =
     (case firstSome (map (\<lambda>kid. findTabWidgetInfoByTabContent kid c) ks) of
        Some (i, (p, r)) \<Rightarrow> Some (i # p, r)
      | None \<Rightarrow> None)"
| "findTabWidgetInfoByTabContent (TabWidgetInfo n) c =
     (if emptyTabContent n = Some c then Some ([], n, None)
      else (case find (\<lambda>tabInfo. content tabInfo = c) (children n) of
              Some tabInfo \<Rightarrow> Some ([], n, Some tabInfo)
            | None \<Rightarrow> None))"

fun findTabWidgetInfoByTab ::
  "InfoNode \<Rightarrow> Tab \<Rightarrow> (nat list \<times> TabWidgetInfoNode \<times> TabInfo option) option" where
  "findTabWidgetInfoByTab (SplitterInfo ori ks) t =
     (case firstSome (map (\<lambda>kid. findTabWidgetInfoByTab kid t) ks) of
        Some (i, (p, r)) \<Rightarrow> Some (i # p, r)
      | None \<Rightarrow> None)"
| "findTabWidgetInfoByTab (TabWidgetInfo n) t =
     (if children n = [] then
        (if emptyTab n = Some t then Some ([], n, None) else None)
      else (case find (\<lambda>tabInfo. tab tabInfo = t) (children n) of
              Some tabInfo \<Rightarrow> Some ([], n, Some tabInfo)
            | None \<Rightarrow> None))"

text \<open>
  \<open>findPathToTabContent\<close> returns \<open>[..., tabWidgetInfo]\<close> when the content is the
  placeholder of the group and \<open>[..., tabWidgetInfo, tabInfo]\<close> when it is the content of a
  slot: the index path to the group, the group, and the slot if there is one.
\<close>

fun findPathToTabContent ::
  "InfoNode \<Rightarrow> Element \<Rightarrow> (nat list \<times> TabWidgetInfoNode \<times> TabInfo option) option" where
  "findPathToTabContent (SplitterInfo ori ks) c =
     (case firstSome (map (\<lambda>kid. findPathToTabContent kid c) ks) of
        Some (i, (p, r)) \<Rightarrow> Some (i # p, r)
      | None \<Rightarrow> None)"
| "findPathToTabContent (TabWidgetInfo n) c =
     (if emptyTabContent n = Some c then Some ([], n, None)
      else (case find (\<lambda>kid. content kid = c) (children n) of
              Some kid \<Rightarrow> Some ([], n, Some kid)
            | None \<Rightarrow> None))"

fun getAllTabContents :: "InfoNode \<Rightarrow> Element list" where
  "getAllTabContents (SplitterInfo ori ks) = concat (map getAllTabContents ks)"
| "getAllTabContents (TabWidgetInfo n) = map content (children n)"

fun getAllTabWidgets :: "InfoNode \<Rightarrow> TabWidget list" where
  "getAllTabWidgets (SplitterInfo ori ks) = concat (map getAllTabWidgets ks)"
| "getAllTabWidgets (TabWidgetInfo n) = [tabWidget n]"


section \<open>The operations of the class SplitLayout\<close>

definition severe :: "string \<Rightarrow> SplitLayout \<Rightarrow> SplitLayout" where
  "severe msg s = s\<lparr>severeLog := severeLog s @ [msg]\<rparr>"

text \<open>
  The constructor. The two id counters are module-level variables of the source, shared by
  all layouts; their current values are the parameters.
\<close>

definition newSplitLayout :: "nat \<Rightarrow> nat \<Rightarrow> SplitLayout" where
  "newSplitLayout widgetIds tabIds =
     \<lparr>rootInfoNode = TabWidgetInfo \<lparr>children = [], tabWidget = widgetIds + 1,
                                      emptyTab = None, emptyTabContent = None\<rparr>,
      tabWidgetIdCounter = widgetIds + 1,
      tabIdCounter = tabIds,
      objCounter = 0,
      rootContainer = None,
      emptySplitFactory = None,
      factoryCalls = 0,
      severeLog = []\<rparr>"

definition setRootContainer :: "SplitLayout \<Rightarrow> Element \<Rightarrow> SplitLayout" where
  "setRootContainer s el = s\<lparr>rootContainer := Some el\<rparr>"

definition getRootContainer :: "SplitLayout \<Rightarrow> Element option" where
  "getRootContainer s = rootContainer s"

definition setEmptySplitElementFactory ::
  "SplitLayout \<Rightarrow> (nat \<Rightarrow> Element option \<Rightarrow> Element) option \<Rightarrow> SplitLayout" where
  "setEmptySplitElementFactory s factory = s\<lparr>emptySplitFactory := factory\<rparr>"

definition createTabWidgetInfo :: "SplitLayout \<Rightarrow> TabInfo list \<Rightarrow> TabWidgetInfoNode \<times> SplitLayout" where
  "createTabWidgetInfo s kids =
     (let newId = tabWidgetIdCounter s + 1
      in (\<lparr>children = kids, tabWidget = newId, emptyTab = None, emptyTabContent = None\<rparr>,
          s\<lparr>tabWidgetIdCounter := newId\<rparr>))"

definition setChildren :: "TabWidgetInfoNode \<Rightarrow> TabInfo list \<Rightarrow> InfoNode \<Rightarrow> InfoNode" where
  "setChildren n kids = (\<lambda>_. TabWidgetInfo (n\<lparr>children := kids\<rparr>))"

definition appendTab :: "SplitLayout \<Rightarrow> TabWidget \<Rightarrow> Tab \<Rightarrow> Element \<Rightarrow> SplitLayout" where
  "appendTab s w t tabContent =
     (case findTabWidgetInfoByTabWidget (rootInfoNode s) w of
        None \<Rightarrow> severe ''Unable to find the info for TabWidget '' s
      | Some (p, info) \<Rightarrow>
          s\<lparr>rootInfoNode :=
               updAt p (setChildren info
                  (children info @ [\<lparr>ref = objCounter s, tab = t, content = tabContent\<rparr>]))
                 (rootInfoNode s),
            objCounter := objCounter s + 1\<rparr>)"

definition isSplit :: "SplitLayout \<Rightarrow> bool" where
  "isSplit s = (case rootInfoNode s of SplitterInfo ori ks \<Rightarrow> True | TabWidgetInfo n \<Rightarrow> False)"

text \<open>\<open>info !== tabInfo\<close>, where \<open>tabInfo\<close> may be null.\<close>

fun notSameTabInfo :: "TabInfo option \<Rightarrow> TabInfo \<Rightarrow> bool" where
  "notSameTabInfo None info = True"
| "notSameTabInfo (Some tabInfo) info = (ref info \<noteq> ref tabInfo)"

definition removeTabContent :: "SplitLayout \<Rightarrow> Element \<Rightarrow> SplitLayout" where
  "removeTabContent s tabContent =
     (case findTabWidgetInfoByTabContent (rootInfoNode s) tabContent of
        None \<Rightarrow> severe ''Unable to find the info for TabWidget '' s
      | Some (p, tabWidgetInfo, tabInfo) \<Rightarrow>
          s\<lparr>rootInfoNode :=
               updAt p (setChildren tabWidgetInfo
                  (filter (notSameTabInfo tabInfo) (children tabWidgetInfo)))
                 (rootInfoNode s)\<rparr>)"

definition getTabContentsByTabWidget :: "SplitLayout \<Rightarrow> TabWidget \<Rightarrow> Element list option \<times> SplitLayout" where
  "getTabContentsByTabWidget s w =
     (case findTabWidgetInfoByTabWidget (rootInfoNode s) w of
        None \<Rightarrow> (None, severe ''Unable to find the info for TabWidget '' s)
      | Some (p, info) \<Rightarrow>
          if length (children info) = 0 then
            ((case emptyTabContent info of Some e \<Rightarrow> Some [e] | None \<Rightarrow> Some []), s)
          else (Some (map content (children info)), s))"

definition getTabByTabContent :: "SplitLayout \<Rightarrow> Element \<Rightarrow> Tab option outcome" where
  "getTabByTabContent s tabContent =
     (case findTabWidgetInfoByTabContent (rootInfoNode s) tabContent of
        None \<Rightarrow> Inr (None, severe ''Unable to find the info for tab content '' s)
      | Some (p, tabWidgetInfo, tabInfo) \<Rightarrow>
          (case tabInfo of
             None \<Rightarrow> Inl (TypeError, s)
           | Some info \<Rightarrow> Inr (Some (tab info), s)))"

definition getTabWidgetByTabContent :: "SplitLayout \<Rightarrow> Element \<Rightarrow> TabWidget option \<times> SplitLayout" where
  "getTabWidgetByTabContent s tabContent =
     (case findTabWidgetInfoByTabContent (rootInfoNode s) tabContent of
        None \<Rightarrow> (None, severe ''Unable to find the info for tab content '' s)
      | Some (p, tabWidgetInfo, tabInfo) \<Rightarrow> (Some (tabWidget tabWidgetInfo), s))"

definition getTabContentByTab :: "SplitLayout \<Rightarrow> Tab \<Rightarrow> Element option \<times> SplitLayout" where
  "getTabContentByTab s t =
     (case findTabWidgetInfoByTab (rootInfoNode s) t of
        None \<Rightarrow> (None, severe ''Unable to find the info for Tab '' s)
      | Some (p, tabWidgetInfo, tabInfo) \<Rightarrow>
          (case tabInfo of
             Some info \<Rightarrow> (Some (content info), s)
           | None \<Rightarrow> (emptyTabContent tabWidgetInfo, s)))"

definition getEmptyContentByTabWidget :: "SplitLayout \<Rightarrow> TabWidget \<Rightarrow> Element option \<times> SplitLayout" where
  "getEmptyContentByTabWidget s w =
     (case findTabWidgetInfoByTabWidget (rootInfoNode s) w of
        None \<Rightarrow> (None, severe ''Unable to find the info for TabWidget '' s)
      | Some (p, info) \<Rightarrow>
          (if length (children info) = 0 then emptyTabContent info else None, s))"

subsection \<open>Splitting\<close>

definition splitAfterTabWidgetIntoSplitter ::
  "SplitLayout \<Rightarrow> TabWidgetInfoNode \<Rightarrow> SplitOrientation \<Rightarrow> InfoNode \<times> SplitLayout" where
  "splitAfterTabWidgetIntoSplitter s tabWidgetInfo orientation =
     (let (newTabWidgetInfo, s1) = createTabWidgetInfo s []
      in (SplitterInfo orientation [TabWidgetInfo tabWidgetInfo, TabWidgetInfo newTabWidgetInfo], s1))"

text \<open>\<open>(<TabWidgetInfoNode> node.children[1]).tabWidget\<close>\<close>

fun secondChildTabWidget :: "InfoNode \<Rightarrow> TabWidget option" where
  "secondChildTabWidget (SplitterInfo ori (a # TabWidgetInfo n # ks)) = Some (tabWidget n)"
| "secondChildTabWidget t = None"

definition setKids :: "SplitOrientation \<Rightarrow> InfoNode list \<Rightarrow> InfoNode \<Rightarrow> InfoNode" where
  "setKids ori ks = (\<lambda>_. SplitterInfo ori ks)"

definition splitAfterTabWidget ::
  "SplitLayout \<Rightarrow> TabWidget \<Rightarrow> SplitOrientation \<Rightarrow> TabWidget option \<times> SplitLayout" where
  "splitAfterTabWidget s w orientation =
     (case findPathToTabWidget (rootInfoNode s) w of
        None \<Rightarrow> (None, severe ''Unable to find the info for tab widget '' s)
      | Some path \<Rightarrow>
          if path = [] then
            (case rootInfoNode s of
               TabWidgetInfo tabWidgetInfo \<Rightarrow>
                 (let (newRoot, s1) = splitAfterTabWidgetIntoSplitter s tabWidgetInfo orientation
                  in (secondChildTabWidget newRoot, s1\<lparr>rootInfoNode := newRoot\<rparr>))
             | SplitterInfo ori ks \<Rightarrow> (None, s))
          else
            (case (nodeAt (butlast path) (rootInfoNode s), nodeAt path (rootInfoNode s)) of
               (Some (SplitterInfo ori ks), Some (TabWidgetInfo tabWidgetInfo)) \<Rightarrow>
                 if ori = orientation then
                   (let (newTabWidgetInfo, s1) = createTabWidgetInfo s [];
                        ks' = arraySplice (indexOfNode ks (tabWidget tabWidgetInfo) + 1) 0
                                [TabWidgetInfo newTabWidgetInfo] ks
                    in (Some (tabWidget newTabWidgetInfo),
                        s1\<lparr>rootInfoNode := updAt (butlast path) (setKids ori ks') (rootInfoNode s)\<rparr>))
                 else
                   (let (newSplitter, s1) = splitAfterTabWidgetIntoSplitter s tabWidgetInfo orientation;
                        tabWidgetInfoIndex = indexOfNode ks (tabWidget tabWidgetInfo);
                        ks' = arraySplice tabWidgetInfoIndex 1 [newSplitter] ks
                    in (secondChildTabWidget newSplitter,
                        s1\<lparr>rootInfoNode := updAt (butlast path) (setKids ori ks') (rootInfoNode s)\<rparr>))
             | _ \<Rightarrow> (None, s)))"

text \<open>\<open>swapArrayItems\<close>, for two tab widget nodes compared by reference.\<close>

definition swapArrayItems :: "InfoNode list \<Rightarrow> TabWidgetInfoNode \<Rightarrow> TabWidgetInfoNode \<Rightarrow> InfoNode list" where
  "swapArrayItems array item1 item2 =
     map (\<lambda>item. if isTabWidgetNode (tabWidget item1) item then TabWidgetInfo item2
                 else if isTabWidgetNode (tabWidget item2) item then TabWidgetInfo item1
                 else item) array"

text \<open>
  \<open>splitBeforeTabWidget\<close> does not test the result of \<open>splitAfterTabWidget\<close>: when that is
  null, \<open>findPathToTabWidget\<close> returns null (no node has a null widget) and reading
  \<open>.length\<close> of it throws.
\<close>

definition splitBeforeTabWidget ::
  "SplitLayout \<Rightarrow> TabWidget \<Rightarrow> SplitOrientation \<Rightarrow> TabWidget option outcome" where
  "splitBeforeTabWidget s w orientation =
     (let (newTabWidget, s1) = splitAfterTabWidget s w orientation
      in case newTabWidget of
           None \<Rightarrow> Inl (TypeError, s1)
         | Some nw \<Rightarrow>
            (case findPathToTabWidget (rootInfoNode s1) nw of
               None \<Rightarrow> Inl (TypeError, s1)
             | Some newTabWidgetPath \<Rightarrow>
                 if newTabWidgetPath = [] then Inl (TypeError, s1)
                 else
                  (case (nodeAt (butlast newTabWidgetPath) (rootInfoNode s1),
                         nodeAt newTabWidgetPath (rootInfoNode s1)) of
                     (Some (SplitterInfo ori ks), Some (TabWidgetInfo newTabWidgetInfo)) \<Rightarrow>
                       (case findPathToTabWidget (SplitterInfo ori ks) w of
                          None \<Rightarrow> Inl (TypeError, s1)
                        | Some tabWidgetPath \<Rightarrow>
                           (case nodeAt tabWidgetPath (SplitterInfo ori ks) of
                              Some (TabWidgetInfo tabWidgetInfo) \<Rightarrow>
                                Inr (Some nw,
                                     s1\<lparr>rootInfoNode :=
                                          updAt (butlast newTabWidgetPath)
                                            (setKids ori (swapArrayItems ks newTabWidgetInfo tabWidgetInfo))
                                            (rootInfoNode s1)\<rparr>)
                            | _ \<Rightarrow> Inr (Some nw, s1)))
                   | _ \<Rightarrow> Inr (Some nw, s1))))"

definition splitTabWidgetAtTabContent ::
  "SplitLayout \<Rightarrow> TabWidgetInfoNode \<Rightarrow> Element \<Rightarrow> (TabWidgetInfoNode \<times> TabWidgetInfoNode) \<times> SplitLayout" where
  "splitTabWidgetAtTabContent s tabWidgetInfo tabContent =
     (let splitIndex = indexWhere (\<lambda>c. c = tabContent) (map content (children tabWidgetInfo)) + 1;
          (newTabWidgetInfo, s1) = createTabWidgetInfo s (sliceFrom splitIndex (children tabWidgetInfo))
      in ((tabWidgetInfo\<lparr>children := slice 0 splitIndex (children tabWidgetInfo)\<rparr>, newTabWidgetInfo), s1))"

definition splitTabWidgetAtTabContentIntoSplitter ::
  "SplitLayout \<Rightarrow> TabWidgetInfoNode \<Rightarrow> Element \<Rightarrow> SplitOrientation \<Rightarrow> InfoNode \<times> SplitLayout" where
  "splitTabWidgetAtTabContentIntoSplitter s tabWidgetInfo tabContent orientation =
     (let ((a, b), s1) = splitTabWidgetAtTabContent s tabWidgetInfo tabContent
      in (SplitterInfo orientation [TabWidgetInfo a, TabWidgetInfo b], s1))"

text \<open>
  In \<open>splitAfterTabContent\<close> the length of the source path is the length of the index path
  plus one for the group, plus one more when the content belongs to a slot.
\<close>

definition splitAfterTabContent ::
  "SplitLayout \<Rightarrow> Element \<Rightarrow> SplitOrientation \<Rightarrow> TabWidget option \<times> SplitLayout" where
  "splitAfterTabContent s tabContent orientation =
     (case findPathToTabContent (rootInfoNode s) tabContent of
        None \<Rightarrow> (None, severe ''Unable to find the info for tab contents '' s)
      | Some (p, tabWidgetInfo, tabInfo) \<Rightarrow>
         (case tabInfo of
            None \<Rightarrow> splitAfterTabWidget s (tabWidget tabWidgetInfo) orientation
          | Some info \<Rightarrow>
              if p = [] then
                (let (newSplitterNode, s1) =
                       splitTabWidgetAtTabContentIntoSplitter s tabWidgetInfo tabContent orientation
                 in (secondChildTabWidget newSplitterNode, s1\<lparr>rootInfoNode := newSplitterNode\<rparr>))
              else
                (case nodeAt (butlast p) (rootInfoNode s) of
                   Some (SplitterInfo ori ks) \<Rightarrow>
                     if ori = orientation then
                       (let ((a, newTabWidgetInfo), s1) =
                              splitTabWidgetAtTabContent s tabWidgetInfo tabContent;
                            ks1 = ks[last p := TabWidgetInfo a];
                            tabWidgetIndex = indexOfNode ks1 (tabWidget tabWidgetInfo);
                            ks' = arraySplice (tabWidgetIndex + 1) 0 [TabWidgetInfo newTabWidgetInfo] ks1
                        in (Some (tabWidget newTabWidgetInfo),
                            s1\<lparr>rootInfoNode := updAt (butlast p) (setKids ori ks') (rootInfoNode s)\<rparr>))
                     else
                       (let (newSplitterNode, s1) =
                              splitTabWidgetAtTabContentIntoSplitter s tabWidgetInfo tabContent orientation;
                            ks' = arraySplice (indexOfNode ks (tabWidget tabWidgetInfo)) 1 [newSplitterNode] ks
                        in (secondChildTabWidget newSplitterNode,
                            s1\<lparr>rootInfoNode := updAt (butlast p) (setKids ori ks') (rootInfoNode s)\<rparr>))
                 | _ \<Rightarrow> (None, s))))"


subsection \<open>Moving a tab\<close>

text \<open>
  \<open>moveTabToTabWidget\<close> has no test for a failed search: destructuring the null result of
  \<open>findTabWidgetInfoByTab\<close> throws, and so does reading \<open>.children\<close> of a null target.
  When the tab is the placeholder tab of an empty group the search succeeds with a null
  \<open>tabInfo\<close>; the call then runs like any other and returns, and the entry it writes
  between the front and the tail list of the target is that null.
\<close>

definition moveTabToTabWidget :: "SplitLayout \<Rightarrow> Tab \<Rightarrow> TabWidget \<Rightarrow> int \<Rightarrow> unit outcome" where
  "moveTabToTabWidget s tabElement targetTabWidget tabIndex0 =
     (case findTabWidgetInfoByTab (rootInfoNode s) tabElement of
        None \<Rightarrow> Inl (TypeError, s)
      | Some (sp, sourceTabWidgetInfo, tabInfoOpt) \<Rightarrow>
         (case findTabWidgetInfoByTabWidget (rootInfoNode s) targetTabWidget of
            None \<Rightarrow> Inl (TypeError, s)
          | Some (tp, targetTabWidgetInfo) \<Rightarrow>
             (let tabIndex = min tabIndex0 (int (length (children targetTabWidgetInfo)))
              in if sp = tp then
                   (let frontList = filter (notSameTabInfo tabInfoOpt)
                                      (slice 0 tabIndex (children sourceTabWidgetInfo));
                        tailList = filter (notSameTabInfo tabInfoOpt)
                                      (sliceFrom tabIndex (children sourceTabWidgetInfo))
                    in case tabInfoOpt of
                         Some tabInfo \<Rightarrow>
                           Inr ((), s\<lparr>rootInfoNode :=
                                  updAt sp (setChildren sourceTabWidgetInfo (frontList @ [tabInfo] @ tailList))
                                    (rootInfoNode s)\<rparr>)
                       | None \<Rightarrow>
                           Inl (NullStored (tabWidget sourceTabWidgetInfo)
                                  (map Some frontList @ [None] @ map Some tailList), s))
                 else
                   (let root1 = updAt sp (setChildren sourceTabWidgetInfo
                                   (filter (notSameTabInfo tabInfoOpt) (children sourceTabWidgetInfo)))
                                 (rootInfoNode s);
                        frontList = slice 0 tabIndex (children targetTabWidgetInfo);
                        tailList = sliceFrom tabIndex (children targetTabWidgetInfo)
                    in case tabInfoOpt of
                         Some tabInfo \<Rightarrow>
                           Inr ((), s\<lparr>rootInfoNode :=
                                  updAt tp (setChildren targetTabWidgetInfo (frontList @ [tabInfo] @ tailList))
                                    root1\<rparr>)
                       | None \<Rightarrow>
                           Inl (NullStored (tabWidget targetTabWidgetInfo)
                                  (map Some frontList @ [None] @ map Some tailList),
                                s\<lparr>rootInfoNode := root1\<rparr>)))))"

subsection \<open>Closing a split\<close>

text \<open>
  \<open>_removeRedundantSplittersFromParent(nodeInfo)\<close> walks the child array by index. For a
  splitter child \<open>kid\<close> with one child \<open>g\<close> it first stores \<open>g\<close> in the slot of \<open>kid\<close> and
  then recurses into \<open>kid\<close>, which is no longer part of the tree: that call may replace
  \<open>kid.children[0]\<close>, which nobody sees, and then recurses into the object \<open>g\<close> itself,
  which is in the tree. So the slot ends up holding \<open>g\<close> after the procedure has run on
  \<open>g\<close>. For any other splitter child the slot holds the child after the procedure has run on
  it. \<open>removeRedundantSplittersFromParent t\<close> is the node \<open>t\<close> after the call.
\<close>

function removeRedundantSplittersFromParent :: "InfoNode \<Rightarrow> InfoNode" where
  "removeRedundantSplittersFromParent (TabWidgetInfo n) = TabWidgetInfo n"
| "removeRedundantSplittersFromParent (SplitterInfo ori ks) =
     SplitterInfo ori
       (map (\<lambda>kid. case kid of
                      TabWidgetInfo n \<Rightarrow> kid
                    | SplitterInfo kori kks \<Rightarrow>
                        if length kks = 1 then removeRedundantSplittersFromParent (hd kks)
                        else removeRedundantSplittersFromParent kid) ks)"
  by pat_completeness auto
termination
proof (relation "measure size")
  show "wf (measure (size :: InfoNode \<Rightarrow> nat))" by simp
next
  fix ori :: SplitOrientation and ks :: "InfoNode list" and kid kori kks
  assume mem: "kid \<in> set ks" and kid: "kid = SplitterInfo kori kks" and one: "length kks = 1"
  from one obtain g where kks: "kks = [g]" by (cases kks) auto
  have "size g < size kid" using kid kks by simp
  also have "size kid \<le> size_list size ks" using mem by (simp add: size_list_estimation')
  finally show "(hd kks, SplitterInfo ori ks) \<in> measure size" using kks by simp
next
  fix ori :: SplitOrientation and ks :: "InfoNode list" and kid kori kks
  assume mem: "kid \<in> set ks" and kid: "kid = SplitterInfo kori kks" and "length kks \<noteq> 1"
  have "size kid \<le> size_list size ks" using mem by (simp add: size_list_estimation')
  then show "(kid, SplitterInfo ori ks) \<in> measure size" by simp
qed

definition removeRedundantSplitters :: "SplitLayout \<Rightarrow> SplitLayout" where
  "removeRedundantSplitters s =
     (case rootInfoNode s of
        SplitterInfo ori ks \<Rightarrow>
          if length ks = 1 then s\<lparr>rootInfoNode := hd ks\<rparr>
          else s\<lparr>rootInfoNode := removeRedundantSplittersFromParent (rootInfoNode s)\<rparr>
      | TabWidgetInfo n \<Rightarrow> s)"

definition notSameNode :: "TabWidgetInfoNode \<Rightarrow> InfoNode \<Rightarrow> bool" where
  "notSameNode n kid = (\<not> isTabWidgetNode (tabWidget n) kid)"

text \<open>
  \<open>_closeTabWidgetSplitterSplit\<close>: \<open>q\<close> is the position of the parent splitter, \<open>j\<close> the
  position of the sibling splitter \<open>splitterInfo\<close> in the parent's child array.
\<close>

definition closeTabWidgetSplitterSplit ::
  "SplitLayout \<Rightarrow> nat list \<Rightarrow> SplitOrientation \<Rightarrow> InfoNode list \<Rightarrow> TabWidgetInfoNode \<Rightarrow> nat \<Rightarrow> InfoNode
     \<Rightarrow> unit outcome" where
  "closeTabWidgetSplitterSplit s q ori ks tabWidgetInfo j splitterInfo =
     (case firstTabWidgetInfo splitterInfo of
        None \<Rightarrow> Inl (TypeError, s)
      | Some (dp, destinationTabWidgetInfo) \<Rightarrow>
          (let splitterInfo' =
                 updAt dp (setChildren destinationTabWidgetInfo
                             (children destinationTabWidgetInfo @ children tabWidgetInfo)) splitterInfo;
               ks' = filter (notSameNode tabWidgetInfo) (ks[j := splitterInfo'])
           in Inr ((), removeRedundantSplitters
                         (s\<lparr>rootInfoNode := updAt q (setKids ori ks') (rootInfoNode s)\<rparr>))))"

text \<open>
  In \<open>closeSplitAtTabContent\<close>, when the content belongs to a slot of a root tab group the
  path is \<open>[tabWidgetInfo, tabInfo]\<close> and \<open>splitterInfo = path[-1]\<close> is undefined; reading
  \<open>splitterInfo.children\<close> throws.
\<close>

text \<open>
  \<open>let index = children.indexOf(tabWidgetInfo); if (index === children.length-1) index =
  children.length-2\<close>: the position of the left partner of the pair to merge.
\<close>

definition mergeIndex :: "InfoNode list \<Rightarrow> TabWidget \<Rightarrow> int" where
  "mergeIndex ks w =
     (let index = indexOfNode ks w
      in if index = int (length ks) - 1 then int (length ks) - 2 else index)"

definition closeSplitAtTabContent :: "SplitLayout \<Rightarrow> Element \<Rightarrow> unit outcome" where
  "closeSplitAtTabContent s tabContent =
     (case findPathToTabContent (rootInfoNode s) tabContent of
        None \<Rightarrow> Inr ((), severe ''Unable to find the info for tab contents '' s)
      | Some (p, tabWidgetInfo, tabInfo) \<Rightarrow>
          if p = [] \<and> tabInfo = None then Inr ((), s)
          else if p = [] then Inl (TypeError, s)
          else
            (case nodeAt (butlast p) (rootInfoNode s) of
               Some (SplitterInfo ori ks) \<Rightarrow>
                 (let index = mergeIndex ks (tabWidget tabWidgetInfo)
                  in case elemAt ks index of
                       None \<Rightarrow> Inl (TypeError, s)
                     | Some (TabWidgetInfo leftInfo) \<Rightarrow>
                        (case elemAt ks (index + 1) of
                           None \<Rightarrow> Inl (TypeError, s)
                         | Some (TabWidgetInfo rightInfo) \<Rightarrow>
                            (let ks1 = ks[nat index :=
                                          TabWidgetInfo (leftInfo\<lparr>children := children leftInfo @ children rightInfo\<rparr>)];
                                 ks' = filter (notSameNode rightInfo) ks1
                             in Inr ((), removeRedundantSplitters
                                          (s\<lparr>rootInfoNode := updAt (butlast p) (setKids ori ks') (rootInfoNode s)\<rparr>)))
                         | Some (SplitterInfo rori rks) \<Rightarrow>
                            closeTabWidgetSplitterSplit s (butlast p) ori ks leftInfo
                              (nat (index + 1)) (SplitterInfo rori rks))
                     | Some (SplitterInfo lori lks) \<Rightarrow>
                        (case elemAt ks (index + 1) of
                           None \<Rightarrow> Inl (TypeError, s)
                         | Some (TabWidgetInfo rightInfo) \<Rightarrow>
                            closeTabWidgetSplitterSplit s (butlast p) ori ks rightInfo
                              (nat index) (SplitterInfo lori lks)
                         | Some (SplitterInfo rori rks) \<Rightarrow> Inr ((), s)))
             | _ \<Rightarrow> Inl (TypeError, s)))"

subsection \<open>Reconciliation: what \<open>update()\<close> writes into the tree\<close>

text \<open>
  \<open>_updateTabWidget\<close> materialises the placeholder of a group without slots when a factory
  is configured: the placeholder tab is created once with the next tab id, and the factory is
  called with the previous placeholder content (null the first time); its result becomes the
  placeholder content. The factory is a callback of the caller; its result may depend on how
  often it has been called, which is its first argument here. The traversal visits the
  children of a splitter in order.
\<close>

definition updateTabWidget :: "SplitLayout \<Rightarrow> TabWidgetInfoNode \<Rightarrow> TabWidgetInfoNode \<times> SplitLayout" where
  "updateTabWidget s infoNode =
     (if length (children infoNode) \<noteq> 0 then (infoNode, s)
      else case emptySplitFactory s of
             None \<Rightarrow> (infoNode, s)
           | Some factory \<Rightarrow>
              (let (n1, s1) = (if emptyTab infoNode = None
                               then (infoNode\<lparr>emptyTab := Some (CreatedTab (tabIdCounter s + 1))\<rparr>,
                                     s\<lparr>tabIdCounter := tabIdCounter s + 1\<rparr>)
                               else (infoNode, s))
               in (n1\<lparr>emptyTabContent := Some (factory (factoryCalls s1) (emptyTabContent n1))\<rparr>,
                   s1\<lparr>factoryCalls := factoryCalls s1 + 1\<rparr>)))"

fun updateNode :: "SplitLayout \<Rightarrow> InfoNode \<Rightarrow> InfoNode \<times> SplitLayout"
  and updateKids :: "SplitLayout \<Rightarrow> InfoNode list \<Rightarrow> InfoNode list \<times> SplitLayout" where
  "updateNode s (TabWidgetInfo n) = (let (n', s') = updateTabWidget s n in (TabWidgetInfo n', s'))"
| "updateNode s (SplitterInfo ori ks) = (let (ks', s') = updateKids s ks in (SplitterInfo ori ks', s'))"
| "updateKids s [] = ([], s)"
| "updateKids s (k # ks) =
     (let (k', s1) = updateNode s k; (ks', s2) = updateKids s1 ks in (k' # ks', s2))"

definition updateInfoNodes :: "SplitLayout \<Rightarrow> SplitLayout" where
  "updateInfoNodes s = (let (root', s') = updateNode s (rootInfoNode s) in s'\<lparr>rootInfoNode := root'\<rparr>)"

text \<open>
  \<open>update()\<close> passes the root container to \<open>_update\<close>, which first updates the info nodes
  and then reads \<open>container.children\<close>. The constructor leaves the root container null; until
  \<open>setRootContainer\<close> has been called, \<open>update()\<close> throws after the tree has been written.
\<close>

definition update :: "SplitLayout \<Rightarrow> unit outcome" where
  "update s =
     (let s' = updateInfoNodes s
      in case rootContainer s of
           None \<Rightarrow> Inl (TypeError, s')
         | Some container \<Rightarrow> Inr ((), s'))"


subsection \<open>Numbers\<close>

text \<open>
  A number of the source is an IEEE 754 double: a finite value, an infinity or NaN. A finite
  value is the rational number it stands for; the two zeros are one value, since the
  operations used here (\<open>+\<close>, \<open>-\<close>, \<open>*\<close>, \<open>/ 2\<close>, \<open>Math.min\<close>, \<open>Math.max\<close> and the
  comparisons) do not tell them apart. The result of an arithmetic operation on finite values
  is the exact result rounded to the nearest double, ties to the even significand
  (\<open>roundNumber\<close>): the significand has 53 bits, the least quantum is \<open>2^-1074\<close>, and a
  rounded magnitude of \<open>2^1024\<close> or more is an infinity.
\<close>

datatype number = Fin rat | PosInf | NegInf | NaN

definition pow2 :: "int \<Rightarrow> rat" where
  "pow2 k = (if 0 \<le> k then 2 ^ nat k else 1 / 2 ^ nat (- k))"

text \<open>The exponent \<open>e\<close> of a value other than zero: \<open>2^e \<le> |x| < 2^(e+1)\<close>.\<close>

definition exponent :: "rat \<Rightarrow> int" where
  "exponent x = (if 1 \<le> \<bar>x\<bar> then bitlen \<lfloor>\<bar>x\<bar>\<rfloor> - 1 else - bitlen (\<lceil>1 / \<bar>x\<bar>\<rceil> - 1))"

definition roundEven :: "rat \<Rightarrow> int" where
  "roundEven x =
     (let f = \<lfloor>x\<rfloor>; d = x - of_int f
      in if d < 1 / 2 then f else if 1 / 2 < d then f + 1 else if even f then f else f + 1)"

definition roundNumber :: "rat \<Rightarrow> number" where
  "roundNumber x =
     (if x = 0 then Fin 0
      else let quantum = pow2 (max (exponent x - 52) (- 1074));
               r = of_int (roundEven (x / quantum)) * quantum
           in if pow2 1024 \<le> \<bar>r\<bar> then (if 0 < x then PosInf else NegInf) else Fin r)"

fun nneg :: "number \<Rightarrow> number" where
  "nneg (Fin a) = Fin (- a)"
| "nneg PosInf = NegInf"
| "nneg NegInf = PosInf"
| "nneg NaN = NaN"

fun nadd :: "number \<Rightarrow> number \<Rightarrow> number" where
  "nadd (Fin a) (Fin b) = roundNumber (a + b)"
| "nadd (Fin a) PosInf = PosInf"
| "nadd (Fin a) NegInf = NegInf"
| "nadd PosInf (Fin b) = PosInf"
| "nadd PosInf PosInf = PosInf"
| "nadd NegInf (Fin b) = NegInf"
| "nadd NegInf NegInf = NegInf"
| "nadd x y = NaN"

definition nsub :: "number \<Rightarrow> number \<Rightarrow> number" where
  "nsub x y = nadd x (nneg y)"

text \<open>The sign of a nonzero finite value, or of an infinity, as the infinity of that sign.\<close>

fun signInf :: "number \<Rightarrow> number" where
  "signInf (Fin a) = (if a = 0 then NaN else if 0 < a then PosInf else NegInf)"
| "signInf x = x"

fun nmul :: "number \<Rightarrow> number \<Rightarrow> number" where
  "nmul (Fin a) (Fin b) = roundNumber (a * b)"
| "nmul NaN y = NaN"
| "nmul x NaN = NaN"
| "nmul x PosInf = signInf x"
| "nmul x NegInf = nneg (signInf x)"
| "nmul PosInf y = signInf y"
| "nmul NegInf y = nneg (signInf y)"

text \<open>\<open>x / 2\<close>.\<close>

fun nhalf :: "number \<Rightarrow> number" where
  "nhalf (Fin a) = roundNumber (a / 2)"
| "nhalf x = x"

text \<open>\<open>x < y\<close>, \<open>x === y\<close> and \<open>x <= y\<close>; every comparison with NaN is false.\<close>

fun nless :: "number \<Rightarrow> number \<Rightarrow> bool" where
  "nless (Fin a) (Fin b) = (a < b)"
| "nless (Fin a) PosInf = True"
| "nless NegInf (Fin b) = True"
| "nless NegInf PosInf = True"
| "nless x y = False"

fun neq :: "number \<Rightarrow> number \<Rightarrow> bool" where
  "neq (Fin a) (Fin b) = (a = b)"
| "neq PosInf PosInf = True"
| "neq NegInf NegInf = True"
| "neq x y = False"

definition nle :: "number \<Rightarrow> number \<Rightarrow> bool" where
  "nle x y = (nless x y \<or> neq x y)"

text \<open>\<open>Math.min\<close> and \<open>Math.max\<close> of two arguments.\<close>

definition nmin :: "number \<Rightarrow> number \<Rightarrow> number" where
  "nmin x y = (if x = NaN \<or> y = NaN then NaN else if nless y x then y else x)"

definition nmax :: "number \<Rightarrow> number \<Rightarrow> number" where
  "nmax x y = (if x = NaN \<or> y = NaN then NaN else if nless x y then y else x)"

subsection \<open>Directional navigation\<close>

text \<open>
  \<open>getPanePositions\<close> reads the bounding boxes, the divider size and the pane sizes from the
  live widgets; the list it returns, one box for every tab widget in traversal order, is the
  parameter \<open>rawPositions\<close>. A box refers to its group by the tab widget.
\<close>

record TabWidgetPosition =
  left :: number
  right :: number
  top' :: number
  bottom :: number
  width :: number
  height :: number
  tabWidgetInfo :: TabWidget

type_synonym Point2D = "number \<times> number"
type_synonym Matrix2D = "number \<times> number \<times> number \<times> number"

fun transform2dPoint :: "Point2D \<Rightarrow> Matrix2D \<Rightarrow> Point2D" where
  "transform2dPoint (p0, p1) (m0, m1, m2, m3) =
     (nadd (nmul p0 m0) (nmul p1 m2), nadd (nmul p0 m1) (nmul p1 m3))"

definition transformTabWidgetPosition :: "TabWidgetPosition \<Rightarrow> Matrix2D \<Rightarrow> TabWidgetPosition" where
  "transformTabWidgetPosition position matrix =
     (let topLeft = transform2dPoint (left position, top' position) matrix;
          bottomRight = transform2dPoint (right position, bottom position) matrix;
          l = nmin (fst topLeft) (fst bottomRight);
          t = nmin (snd topLeft) (snd bottomRight);
          b = nmax (snd topLeft) (snd bottomRight);
          r = nmax (fst topLeft) (fst bottomRight)
      in \<lparr>left = l, right = r, top' = t, bottom = b, width = nsub r l, height = nsub b t,
          tabWidgetInfo = tabWidgetInfo position\<rparr>)"

definition isHit :: "number \<Rightarrow> number \<Rightarrow> TabWidgetPosition \<Rightarrow> bool" where
  "isHit startCenterX startCenterY pos =
     (nless startCenterX (left pos) \<and> nless startCenterY (bottom pos) \<and> nle (top' pos) startCenterY)"

text \<open>
  The comparator of \<open>hitPositions.sort\<close>. \<open>Array.prototype.sort\<close> is stable, and the
  comparator is consistent on boxes whose left edge is not NaN; no other box passes the
  filter. The stable sort is computed by insertion from the right.
\<close>

definition compareLeft :: "TabWidgetPosition \<Rightarrow> TabWidgetPosition \<Rightarrow> int" where
  "compareLeft a b = (if nless (left a) (left b) then - 1 else if neq (left a) (left b) then 0 else 1)"

fun insertSorted :: "('a \<Rightarrow> 'a \<Rightarrow> int) \<Rightarrow> 'a \<Rightarrow> 'a list \<Rightarrow> 'a list" where
  "insertSorted cmp x [] = [x]"
| "insertSorted cmp x (y # ys) = (if cmp x y \<le> 0 then x # y # ys else y # insertSorted cmp x ys)"

definition arraySort :: "('a \<Rightarrow> 'a \<Rightarrow> int) \<Rightarrow> 'a list \<Rightarrow> 'a list" where
  "arraySort cmp xs = foldr (insertSorted cmp) xs []"

definition getTabWidgetInDirection ::
  "TabWidgetPosition list \<Rightarrow> TabWidget \<Rightarrow> Matrix2D \<Rightarrow> ending + TabWidget option" where
  "getTabWidgetInDirection rawPositions w transformMatrix =
     (let positions = map (\<lambda>pos. transformTabWidgetPosition pos transformMatrix) rawPositions
      in case filter (\<lambda>pos. tabWidgetInfo pos = w) positions of
           [] \<Rightarrow> Inl TypeError
         | startPosition # rest \<Rightarrow>
            (let startCenterX = nhalf (nadd (left startPosition) (right startPosition));
                 startCenterY = nhalf (nadd (top' startPosition) (bottom startPosition));
                 hitPositions = arraySort compareLeft (filter (isHit startCenterX startCenterY) positions)
             in if length hitPositions \<noteq> 0 then Inr (Some (tabWidgetInfo (hd hitPositions)))
                else Inr None))"

definition getTabWidgetToLeft :: "TabWidgetPosition list \<Rightarrow> TabWidget \<Rightarrow> ending + TabWidget option" where
  "getTabWidgetToLeft rawPositions w = getTabWidgetInDirection rawPositions w (Fin (- 1), Fin 0, Fin 0, Fin 1)"

definition getTabWidgetToRight :: "TabWidgetPosition list \<Rightarrow> TabWidget \<Rightarrow> ending + TabWidget option" where
  "getTabWidgetToRight rawPositions w = getTabWidgetInDirection rawPositions w (Fin 1, Fin 0, Fin 0, Fin 1)"

definition getTabWidgetAbove :: "TabWidgetPosition list \<Rightarrow> TabWidget \<Rightarrow> ending + TabWidget option" where
  "getTabWidgetAbove rawPositions w = getTabWidgetInDirection rawPositions w (Fin 0, Fin 1, Fin (- 1), Fin 0)"

definition getTabWidgetBelow :: "TabWidgetPosition list \<Rightarrow> TabWidget \<Rightarrow> ending + TabWidget option" where
  "getTabWidgetBelow rawPositions w = getTabWidgetInDirection rawPositions w (Fin 0, Fin (- 1), Fin 1, Fin 0)"

section \<open>Sequences of calls\<close>

datatype op =
    AppendTab TabWidget Tab Element
  | RemoveTabContent Element
  | SplitAfterTabWidget TabWidget SplitOrientation
  | SplitBeforeTabWidget TabWidget SplitOrientation
  | SplitAfterTabContent Element SplitOrientation
  | MoveTabToTabWidget Tab TabWidget int
  | CloseSplitAtTabContent Element
  | SetEmptySplitElementFactory "(nat \<Rightarrow> Element option \<Rightarrow> Element) option"
  | SetRootContainer Element
  | Update

text \<open>The layout after one call, or how the call ended otherwise and the layout it left.\<close>

fun perform :: "SplitLayout \<Rightarrow> op \<Rightarrow> (ending \<times> SplitLayout) + SplitLayout" where
  "perform s (AppendTab w t c) = Inr (appendTab s w t c)"
| "perform s (RemoveTabContent c) = Inr (removeTabContent s c)"
| "perform s (SplitAfterTabWidget w ori) = Inr (snd (splitAfterTabWidget s w ori))"
| "perform s (SplitBeforeTabWidget w ori) = map_sum id snd (splitBeforeTabWidget s w ori)"
| "perform s (SplitAfterTabContent c ori) = Inr (snd (splitAfterTabContent s c ori))"
| "perform s (MoveTabToTabWidget t w i) = map_sum id snd (moveTabToTabWidget s t w i)"
| "perform s (CloseSplitAtTabContent c) = map_sum id snd (closeSplitAtTabContent s c)"
| "perform s (SetEmptySplitElementFactory f) = Inr (setEmptySplitElementFactory s f)"
| "perform s (SetRootContainer el) = Inr (setRootContainer s el)"
| "perform s Update = map_sum id snd (update s)"

text \<open>
  A caller that catches a \<open>TypeError\<close> goes on with the layout as the throw left it. A
  sequence is followed up to the call that stores a null; after it the tree is no tree of
  the data model, and the sequence has no resulting layout (\<open>None\<close>).
\<close>

fun runOps :: "SplitLayout \<Rightarrow> op list \<Rightarrow> SplitLayout option" where
  "runOps s [] = Some s"
| "runOps s (x # xs) =
     (case perform s x of
        Inr s' \<Rightarrow> runOps s' xs
      | Inl (TypeError, s') \<Rightarrow> runOps s' xs
      | Inl (NullStored w kids, s') \<Rightarrow> None)"

text \<open>Every \<open>appendTab\<close> of the sequence passes a content element that no slot holds yet.\<close>

fun appendsFresh :: "SplitLayout \<Rightarrow> op list \<Rightarrow> bool" where
  "appendsFresh s [] = True"
| "appendsFresh s (x # xs) =
     ((case x of AppendTab w t c \<Rightarrow> c \<notin> set (getAllTabContents (rootInfoNode s)) | _ \<Rightarrow> True)
      \<and> (case perform s x of
            Inr s' \<Rightarrow> appendsFresh s' xs
          | Inl (e, s') \<Rightarrow> appendsFresh s' xs))"

section \<open>Properties of trees\<close>

text \<open>The groups of a tree in traversal order, and their slots.\<close>

fun leaves :: "InfoNode \<Rightarrow> TabWidgetInfoNode list" where
  "leaves (TabWidgetInfo n) = [n]"
| "leaves (SplitterInfo ori ks) = concat (map leaves ks)"

definition allTabInfos :: "InfoNode \<Rightarrow> TabInfo list" where
  "allTabInfos t = concat (map children (leaves t))"

text \<open>Every splitter has at least two children; in particular none has exactly one.\<close>

fun wellSplit :: "InfoNode \<Rightarrow> bool" where
  "wellSplit (TabWidgetInfo n) = True"
| "wellSplit (SplitterInfo ori ks) = (2 \<le> length ks \<and> list_all wellSplit ks)"

text \<open>
  References are faithful names: no two groups share a tab widget, no two slots are the same
  object, and the counters are beyond every name in use.
\<close>

definition namesOk :: "SplitLayout \<Rightarrow> bool" where
  "namesOk s =
     (distinct (getAllTabWidgets (rootInfoNode s))
      \<and> list_all (\<lambda>w. w \<le> tabWidgetIdCounter s) (getAllTabWidgets (rootInfoNode s))
      \<and> distinct (map ref (allTabInfos (rootInfoNode s)))
      \<and> list_all (\<lambda>i. ref i < objCounter s) (allTabInfos (rootInfoNode s)))"

definition layoutInv :: "SplitLayout \<Rightarrow> bool" where
  "layoutInv s = (wellSplit (rootInfoNode s) \<and> namesOk s)"

text \<open>
  What \<open>update()\<close> renders from a tree: the arrangement of splitters with their axes, and for
  every group its tab widget and its slots in order.
\<close>

datatype 'w Layout = Group 'w "TabInfo list" | Split SplitOrientation "'w Layout list"

fun layoutOf :: "InfoNode \<Rightarrow> TabWidget Layout" where
  "layoutOf (TabWidgetInfo n) = Group (tabWidget n) (children n)"
| "layoutOf (SplitterInfo ori ks) = Split ori (map layoutOf ks)"

definition arrangementOf :: "InfoNode \<Rightarrow> unit Layout" where
  "arrangementOf t = map_Layout (\<lambda>w. ()) (layoutOf t)"

section \<open>Notions used in the statements\<close>

text \<open>
  The position at which \<open>moveTabToTabWidget\<close> cuts a child array of length \<open>n\<close> for the
  index \<open>i\<close>: \<open>Math.min(i, n)\<close>, read by \<open>slice\<close>, which counts a negative index from
  the end.
\<close>

definition moveIndex :: "int \<Rightarrow> nat \<Rightarrow> nat" where
  "moveIndex i n = nat (if i < 0 then max (int n + i) 0 else min i (int n))"


text \<open>The index clamped to \<open>[0, n]\<close>, and insertion at a position.\<close>

definition clampedIndex :: "int \<Rightarrow> nat \<Rightarrow> nat" where
  "clampedIndex i n = nat (max 0 (min i (int n)))"

definition insertAt :: "nat \<Rightarrow> 'a \<Rightarrow> 'a list \<Rightarrow> 'a list" where
  "insertAt k x xs = take k xs @ [x] @ drop k xs"

text \<open>The contents of a group after a sequence of calls.\<close>

definition contentsAfter :: "SplitLayout \<Rightarrow> op list \<Rightarrow> TabWidget \<Rightarrow> Element list option" where
  "contentsAfter s ops w =
     (case runOps s ops of None \<Rightarrow> None | Some s' \<Rightarrow> fst (getTabContentsByTabWidget s' w))"

text \<open>
  What \<open>_removeRedundantSplittersFromParent\<close> leaves in the slot of a child, and what a
  splitter collapses to.
\<close>

definition slotAfter :: "InfoNode \<Rightarrow> InfoNode" where
  "slotAfter kid =
     (case kid of
        TabWidgetInfo n \<Rightarrow> kid
      | SplitterInfo kori kks \<Rightarrow>
          if length kks = 1 then removeRedundantSplittersFromParent (hd kks)
          else removeRedundantSplittersFromParent kid)"

definition collapsed :: "SplitOrientation \<Rightarrow> InfoNode list \<Rightarrow> InfoNode" where
  "collapsed ori ks = (if length ks = 1 then hd ks else SplitterInfo ori ks)"

fun splitterCount :: "InfoNode \<Rightarrow> nat" where
  "splitterCount (TabWidgetInfo n) = 0"
| "splitterCount (SplitterInfo ori ks) = Suc (sum_list (map splitterCount ks))"

text \<open>
  The node that stands for a merged pair of neighbours: two groups become the left group
  with the slots of the right group appended; a group and a splitter become the splitter
  with the slots of the group appended to its first group.
\<close>

definition absorb :: "InfoNode \<Rightarrow> TabInfo list \<Rightarrow> InfoNode option" where
  "absorb sub slots =
     (case firstTabWidgetInfo sub of
        None \<Rightarrow> None
      | Some (dp, d) \<Rightarrow> Some (updAt dp (setChildren d (children d @ slots)) sub))"

fun mergePair :: "InfoNode \<Rightarrow> InfoNode \<Rightarrow> InfoNode option" where
  "mergePair (TabWidgetInfo l) (TabWidgetInfo r) =
     Some (TabWidgetInfo (l\<lparr>children := children l @ children r\<rparr>))"
| "mergePair (TabWidgetInfo l) (SplitterInfo ori ks) = absorb (SplitterInfo ori ks) (children l)"
| "mergePair (SplitterInfo ori ks) (TabWidgetInfo r) = absorb (SplitterInfo ori ks) (children r)"
| "mergePair (SplitterInfo ori ks) (SplitterInfo ori' ks') = None"

text \<open>The group that \<open>_createTabWidgetInfo\<close> builds for a widget id, and the layout after a call.\<close>

definition newGroup :: "TabWidget \<Rightarrow> TabInfo list \<Rightarrow> TabWidgetInfoNode" where
  "newGroup w kids = \<lparr>children = kids, tabWidget = w, emptyTab = None, emptyTabContent = None\<rparr>"

fun after :: "(ending \<times> SplitLayout) + SplitLayout \<Rightarrow> SplitLayout" where
  "after (Inr s') = s'"
| "after (Inl (e, s')) = s'"

text \<open>No slot is created or lost between two layouts.\<close>

definition slotsKept :: "SplitLayout \<Rightarrow> SplitLayout \<Rightarrow> bool" where
  "slotsKept s s' = (mset (allTabInfos (rootInfoNode s')) = mset (allTabInfos (rootInfoNode s)))"

text \<open>The widgets, the slots and the branching condition, read from a layout.\<close>

fun layoutWidgets :: "'w Layout \<Rightarrow> 'w list" where
  "layoutWidgets (Group w slots) = [w]"
| "layoutWidgets (Split ori ls) = concat (map layoutWidgets ls)"

fun layoutSlots :: "'w Layout \<Rightarrow> TabInfo list" where
  "layoutSlots (Group w slots) = slots"
| "layoutSlots (Split ori ls) = concat (map layoutSlots ls)"

fun layoutWell :: "'w Layout \<Rightarrow> bool" where
  "layoutWell (Group w slots) = True"
| "layoutWell (Split ori ls) = (2 \<le> length ls \<and> list_all layoutWell ls)"

text \<open>Calls other than \<open>moveTabToTabWidget\<close>.\<close>

fun notMove :: "op \<Rightarrow> bool" where
  "notMove (MoveTabToTabWidget t w i) = False"
| "notMove x = True"


text \<open>
  The number of entries of all child arrays after a call of \<open>moveTabToTabWidget\<close>. When the
  call has stored a null, the array of that group is the one carried by \<open>NullStored\<close>.
\<close>

definition entriesAfter :: "unit outcome \<Rightarrow> nat" where
  "entriesAfter r =
     (case r of
        Inr (u, s) \<Rightarrow> length (allTabInfos (rootInfoNode s))
      | Inl (TypeError, s) \<Rightarrow> length (allTabInfos (rootInfoNode s))
      | Inl (NullStored w kids, s) \<Rightarrow>
          length (allTabInfos (rootInfoNode s))
          - (case findTabWidgetInfoByTabWidget (rootInfoNode s) w of
               Some (p, n) \<Rightarrow> length (children n) | None \<Rightarrow> 0)
          + length kids)"

text \<open>
  No \<open>moveTabToTabWidget\<close> of the sequence names, at its moment, the placeholder tab of an
  empty group.
\<close>

fun noPlaceholderMove :: "SplitLayout \<Rightarrow> op list \<Rightarrow> bool" where
  "noPlaceholderMove s [] = True"
| "noPlaceholderMove s (x # xs) =
     ((case x of
         MoveTabToTabWidget t w i \<Rightarrow>
           (case findTabWidgetInfoByTab (rootInfoNode s) t of
              Some (p, n, None) \<Rightarrow> False
            | _ \<Rightarrow> True)
       | _ \<Rightarrow> True)
      \<and> noPlaceholderMove (after (perform s x)) xs)"

text \<open>
  Appending slots to the first group of a subtree, reached by descending into the first
  child at every splitter, and the node that stands for a merged pair of neighbours, one of
  which is a group: two groups become the left group with the slots of the right group
  appended after its own; a group next to a splitter gives its slots to the first group of
  that subtree.
\<close>

fun appendToFirst :: "InfoNode \<Rightarrow> TabInfo list \<Rightarrow> InfoNode" where
  "appendToFirst (TabWidgetInfo n) slots = TabWidgetInfo (n\<lparr>children := children n @ slots\<rparr>)"
| "appendToFirst (SplitterInfo ori []) slots = SplitterInfo ori []"
| "appendToFirst (SplitterInfo ori (k # ks)) slots = SplitterInfo ori (appendToFirst k slots # ks)"

fun merged :: "InfoNode \<Rightarrow> InfoNode \<Rightarrow> InfoNode" where
  "merged (TabWidgetInfo l) (TabWidgetInfo r) = TabWidgetInfo (l\<lparr>children := children l @ children r\<rparr>)"
| "merged (TabWidgetInfo l) (SplitterInfo ori ks) = appendToFirst (SplitterInfo ori ks) (children l)"
| "merged (SplitterInfo ori ks) (TabWidgetInfo r) = appendToFirst (SplitterInfo ori ks) (children r)"
| "merged (SplitterInfo ori ks) (SplitterInfo ori' ks') = SplitterInfo ori ks"


text \<open>
  A group under another tab widget, and the tab widget of the group that follows the node at
  \<open>p\<close> in a splitter of the given axis, if there is such a group.
\<close>

definition retag :: "TabWidget \<Rightarrow> InfoNode \<Rightarrow> InfoNode" where
  "retag c x = (case x of TabWidgetInfo r \<Rightarrow> TabWidgetInfo (r\<lparr>tabWidget := c\<rparr>)
                         | SplitterInfo ori ks \<Rightarrow> x)"

definition rightGroup :: "InfoNode \<Rightarrow> nat list \<Rightarrow> SplitOrientation \<Rightarrow> TabWidget option" where
  "rightGroup t p axis =
     (if p = [] then None
      else case nodeAt (butlast p) t of
             Some (SplitterInfo ori ks) \<Rightarrow>
               if ori = axis \<and> Suc (last p) < length ks
               then (case ks ! Suc (last p) of
                       TabWidgetInfo r \<Rightarrow> Some (tabWidget r)
                     | SplitterInfo ori' ks' \<Rightarrow> None)
               else None
           | _ \<Rightarrow> None)"

text \<open>
  The directional queries, as the specification has them. A finite box has four edges that
  are finite doubles. A direction turns the plane so that the direction points to the right:
  to the left is the mirror image, above and below are quarter turns. The turned box has the
  least and greatest coordinates of its two turned corners as edges. The centre of the
  requesting group's turned box is \<open>(left + right) / 2\<close> and \<open>(top + bottom) / 2\<close> in the
  arithmetic of the source; a box is kept when its left edge is strictly greater than the
  centre's \<open>x\<close> and \<open>top \<le> centre y < bottom\<close>; the answer is the group of the first kept
  box, in traversal order, whose left edge is the least of the kept boxes.
\<close>

datatype direction = ToLeft | ToRight | Above | Below

definition finiteNumber :: "number \<Rightarrow> bool" where
  "finiteNumber x = (case x of Fin q \<Rightarrow> roundNumber q = Fin q | _ \<Rightarrow> False)"

definition finiteBox :: "TabWidgetPosition \<Rightarrow> bool" where
  "finiteBox pos = (finiteNumber (left pos) \<and> finiteNumber (right pos)
                    \<and> finiteNumber (top' pos) \<and> finiteNumber (bottom pos))"

fun valueOf :: "number \<Rightarrow> rat" where
  "valueOf (Fin q) = q"
| "valueOf x = 0"

fun turn :: "direction \<Rightarrow> rat \<times> rat \<Rightarrow> rat \<times> rat" where
  "turn ToRight (x, y) = (x, y)"
| "turn ToLeft (x, y) = (- x, y)"
| "turn Above (x, y) = (- y, x)"
| "turn Below (x, y) = (y, - x)"

definition turnedBox :: "direction \<Rightarrow> TabWidgetPosition \<Rightarrow> TabWidgetPosition" where
  "turnedBox d pos =
     (let (x1, y1) = turn d (valueOf (left pos), valueOf (top' pos));
          (x2, y2) = turn d (valueOf (right pos), valueOf (bottom pos))
      in \<lparr>left = Fin (min x1 x2), right = Fin (max x1 x2),
          top' = Fin (min y1 y2), bottom = Fin (max y1 y2),
          width = nsub (Fin (max x1 x2)) (Fin (min x1 x2)),
          height = nsub (Fin (max y1 y2)) (Fin (min y1 y2)),
          tabWidgetInfo = tabWidgetInfo pos\<rparr>)"

definition nearestInDirection :: "direction \<Rightarrow> TabWidgetPosition list \<Rightarrow> TabWidget \<Rightarrow> TabWidget option" where
  "nearestInDirection d rawPositions w =
     (let boxes = map (turnedBox d) rawPositions;
          start = hd (filter (\<lambda>b. tabWidgetInfo b = w) boxes);
          centerX = nhalf (nadd (left start) (right start));
          centerY = nhalf (nadd (top' start) (bottom start));
          hits = filter (\<lambda>b. nless centerX (left b) \<and> nle (top' b) centerY \<and> nless centerY (bottom b)) boxes
      in if hits = [] then None
         else Some (tabWidgetInfo
                (hd (filter (\<lambda>h. valueOf (left h) = Min ((\<lambda>h. valueOf (left h)) ` set hits)) hits))))"

text \<open>The layout of the tree after a call that returned.\<close>

definition returnedLayout :: "unit outcome \<Rightarrow> TabWidget Layout option" where
  "returnedLayout r = (case r of Inr (u, s) \<Rightarrow> Some (layoutOf (rootInfoNode s)) | Inl e \<Rightarrow> None)"
section \<open>Example layouts\<close>

definition exampleLayout :: SplitLayout where
  "exampleLayout = after (perform (setEmptySplitElementFactory
      (appendTab (snd (splitAfterTabWidget (setRootContainer (newSplitLayout 0 0) 9) 1 VERTICAL))
         1 (CallerTab 10) 100)
      (Some (\<lambda>k e. 1000 + k))) Update)"


definition box :: "rat \<Rightarrow> rat \<Rightarrow> rat \<Rightarrow> rat \<Rightarrow> TabWidget \<Rightarrow> TabWidgetPosition" where
  "box l r t b w = \<lparr>left = Fin l, right = Fin r, top' = Fin t, bottom = Fin b,
                    width = Fin (r - l), height = Fin (b - t), tabWidgetInfo = w\<rparr>"

definition grid :: "TabWidgetPosition list" where
  "grid = [box 0 10 0 10 1, box 10 20 0 10 2, box 0 10 10 20 3, box 10 20 10 20 4]"

definition moveExample :: SplitLayout where
  "moveExample =
     appendTab (appendTab (appendTab (appendTab
       (snd (splitAfterTabWidget (newSplitLayout 0 0) 1 VERTICAL))
       1 (CallerTab 10) 100) 2 (CallerTab 21) 201) 2 (CallerTab 22) 202) 2 (CallerTab 23) 203"

definition onceSplit :: SplitLayout where
  "onceSplit = snd (splitAfterTabWidget (appendTab (newSplitLayout 0 0) 1 (CallerTab 1) 101) 1 VERTICAL)"

definition twoGroups :: SplitLayout where
  "twoGroups = appendTab onceSplit 2 (CallerTab 2) 102"

definition exampleOps :: "op list" where
  "exampleOps =
     [AppendTab 1 (CallerTab 1) 101,
      SplitAfterTabWidget 1 VERTICAL,
      AppendTab 2 (CallerTab 2) 102,
      SplitAfterTabContent 102 HORIZONTAL,
      SplitBeforeTabWidget 3 HORIZONTAL,
      CloseSplitAtTabContent 102,
      CloseSplitAtTabContent 101]"

definition roundTripStart :: SplitLayout where
  "roundTripStart = setEmptySplitElementFactory
      (appendTab (snd (splitAfterTabWidget (setRootContainer (newSplitLayout 0 0) 9) 1 VERTICAL))
         2 (CallerTab 1) 100)
      (Some (\<lambda>k e. 1000 + k))"

definition roundTripSplit :: SplitLayout where
  "roundTripSplit = after (perform (snd (splitAfterTabWidget roundTripStart 1 VERTICAL)) Update)"

definition moveOps :: "op list" where
  "moveOps =
     [SetRootContainer 9,
      AppendTab 1 (CallerTab 1) 101,
      SplitAfterTabWidget 1 VERTICAL,
      AppendTab 2 (CallerTab 2) 102,
      AppendTab 2 (CallerTab 3) 103,
      SetEmptySplitElementFactory (Some (\<lambda>k e. 1000 + k)),
      MoveTabToTabWidget (CallerTab 1) 2 1,
      Update,
      SplitAfterTabContent 102 HORIZONTAL,
      MoveTabToTabWidget (CallerTab 7) 1 0,
      RemoveTabContent 103]"

definition nestedLayout :: SplitLayout where
  "nestedLayout =
     snd (splitAfterTabContent
       (appendTab (appendTab (snd (splitAfterTabWidget
          (appendTab (newSplitLayout 0 0) 1 (CallerTab 1) 101) 1 VERTICAL))
          2 (CallerTab 2) 102) 2 (CallerTab 3) 103)
       102 HORIZONTAL)"


definition constantStart :: SplitLayout where
  "constantStart = setEmptySplitElementFactory
      (appendTab (snd (splitAfterTabWidget (setRootContainer (newSplitLayout 0 0) 9) 1 VERTICAL))
         2 (CallerTab 1) 100)
      (Some (\<lambda>k e. 777))"

definition constantSplit :: SplitLayout where
  "constantSplit = after (perform (snd (splitAfterTabWidget constantStart 2 VERTICAL)) Update)"
section \<open>Lemmas about lists, positions and searches\<close>

lemma firstSome_Some_iff:
  "firstSome rs = Some (i, y) \<longleftrightarrow> i < length rs \<and> rs ! i = Some y \<and> (\<forall>j<i. rs ! j = None)"
proof (induction rs arbitrary: i)
  case Nil
  then show ?case by simp
next
  case (Cons r rs)
  show ?case
  proof (cases r)
    case (Some z)
    then show ?thesis by (cases i) auto
  next
    case None
    show ?thesis
    proof (cases i)
      case 0
      then show ?thesis using None by (auto split: option.splits)
    next
      case (Suc k)
      have "(\<forall>j<Suc k. (r # rs) ! j = None) \<longleftrightarrow> (\<forall>j<k. rs ! j = None)"
        using None by (auto simp: less_Suc_eq_0_disj)
      then show ?thesis using None Suc Cons.IH[of k] by (auto split: option.splits)
    qed
  qed
qed

lemma firstSome_None_iff: "firstSome rs = None \<longleftrightarrow> (\<forall>r\<in>set rs. r = None)"
  by (induction rs) (auto split: option.splits)

lemma getAllTabWidgets_leaves: "getAllTabWidgets t = map tabWidget (leaves t)"
  by (induction t) (auto simp: map_concat intro!: arg_cong[where f=concat])

lemma allTabInfos_simps [simp]:
  "allTabInfos (TabWidgetInfo n) = children n"
  "allTabInfos (SplitterInfo ori ks) = concat (map allTabInfos ks)"
proof -
  show "allTabInfos (TabWidgetInfo n) = children n" by (simp add: allTabInfos_def)
  show "allTabInfos (SplitterInfo ori ks) = concat (map allTabInfos ks)"
    by (induction ks) (simp_all add: allTabInfos_def)
qed

lemma getAllTabContents_leaves: "getAllTabContents t = map content (allTabInfos t)"
proof (induction t)
  case (TabWidgetInfo n)
  then show ?case by simp
next
  case (SplitterInfo ori ks)
  then have "map getAllTabContents ks = map (\<lambda>k. map content (allTabInfos k)) ks" by simp
  then have "concat (map getAllTabContents ks) = concat (map (\<lambda>k. map content (allTabInfos k)) ks)"
    by (rule arg_cong)
  then show ?case by (simp add: map_concat comp_def)
qed

lemma concat_map_upd:
  "i < length ks \<Longrightarrow>
   concat (map f (ks[i := y])) = concat (map f (take i ks)) @ f y @ concat (map f (drop (Suc i) ks))"
  by (simp add: upd_conv_take_nth_drop)

lemma concat_map_nth:
  "i < length ks \<Longrightarrow>
   concat (map f ks) = concat (map f (take i ks)) @ f (ks ! i) @ concat (map f (drop (Suc i) ks))"
  using concat_map_upd[of i ks f "ks ! i"] by simp

lemma leaves_updAt:
  "nodeAt q t = Some x \<Longrightarrow>
   \<exists>pre post. leaves t = pre @ leaves x @ post \<and> (\<forall>f. leaves (updAt q f t) = pre @ leaves (f x) @ post)"
proof (induction q arbitrary: t)
  case Nil
  then have "leaves t = [] @ leaves x @ [] \<and> (\<forall>f. leaves (updAt [] f t) = [] @ leaves (f x) @ [])"
    by simp
  then show ?case by blast
next
  case (Cons i q)
  then obtain ori ks where t: "t = SplitterInfo ori ks" and i: "i < length ks"
    and sub: "nodeAt q (ks ! i) = Some x"
    by (cases t) (auto split: if_splits)
  from Cons.IH[OF sub] obtain pre post where
    a: "leaves (ks ! i) = pre @ leaves x @ post"
    and b: "\<And>f. leaves (updAt q f (ks ! i)) = pre @ leaves (f x) @ post" by blast
  let ?A = "concat (map leaves (take i ks))" and ?B = "concat (map leaves (drop (Suc i) ks))"
  have "leaves t = (?A @ pre) @ leaves x @ (post @ ?B)"
    using t i a concat_map_nth[of i ks leaves] by simp
  moreover have "\<And>f. leaves (updAt (i # q) f t) = (?A @ pre) @ leaves (f x) @ (post @ ?B)"
    using t i b concat_map_upd[of i ks leaves] by simp
  ultimately show ?case by blast
qed

lemma nodeAt_append:
  "nodeAt (q @ r) t = (case nodeAt q t of None \<Rightarrow> None | Some x \<Rightarrow> nodeAt r x)"
proof (induction q arbitrary: t)
  case Nil
  then show ?case by simp
next
  case (Cons i q)
  then show ?case by (cases t) auto
qed

lemma updAt_append: "updAt (q @ r) f t = updAt q (updAt r f) t"
proof (induction q arbitrary: t)
  case Nil
  then show ?case by simp
next
  case (Cons i q)
  then show ?case by (cases t) auto
qed

lemma nodeAt_parent:
  "nodeAt p t = Some x \<Longrightarrow> p \<noteq> [] \<Longrightarrow>
   \<exists>ori ks. nodeAt (butlast p) t = Some (SplitterInfo ori ks) \<and> last p < length ks \<and> ks ! last p = x"
proof -
  assume a: "nodeAt p t = Some x" and ne: "p \<noteq> []"
  then obtain q i where p: "p = q @ [i]" by (metis append_butlast_last_id)
  from a p obtain y where y: "nodeAt q t = Some y" and yi: "nodeAt [i] y = Some x"
    by (auto simp: nodeAt_append split: option.splits)
  from yi obtain ori ks where "y = SplitterInfo ori ks" "i < length ks" "ks ! i = x"
    by (cases y) (auto split: if_splits)
  then show ?thesis using y p by auto
qed

lemma wellSplit_nodeAt: "wellSplit t \<Longrightarrow> nodeAt q t = Some x \<Longrightarrow> wellSplit x"
proof (induction q arbitrary: t)
  case Nil
  then show ?case by simp
next
  case (Cons i q)
  then show ?case by (cases t) (auto split: if_splits simp: list_all_length)
qed

lemma wellSplit_updAt:
  "wellSplit t \<Longrightarrow> nodeAt q t = Some x \<Longrightarrow> wellSplit (f x) \<Longrightarrow> wellSplit (updAt q f t)"
proof (induction q arbitrary: t)
  case Nil
  then show ?case by simp
next
  case (Cons i q)
  then show ?case
    by (cases t) (auto split: if_splits simp: list_all_length nth_list_update)
qed

lemma nodeAt_updAt_same: "nodeAt q t = Some x \<Longrightarrow> nodeAt q (updAt q f t) = Some (f x)"
proof (induction q arbitrary: t)
  case Nil
  then show ?case by simp
next
  case (Cons i q)
  then show ?case by (cases t) (auto split: if_splits)
qed

lemma nodeAt_leaf_tabWidget:
  "nodeAt p t = Some (TabWidgetInfo n) \<Longrightarrow> tabWidget n \<in> set (getAllTabWidgets t)"
  using leaves_updAt[of p t "TabWidgetInfo n"] by (auto simp: getAllTabWidgets_leaves)

lemma leaves_nodeAt: "n \<in> set (leaves t) \<Longrightarrow> \<exists>p. nodeAt p t = Some (TabWidgetInfo n)"
proof (induction t)
  case (TabWidgetInfo m)
  then have "nodeAt [] (TabWidgetInfo m) = Some (TabWidgetInfo n)" by simp
  then show ?case by blast
next
  case (SplitterInfo ori ks)
  then obtain k where k: "k \<in> set ks" and n: "n \<in> set (leaves k)" by auto
  from k obtain i where i: "i < length ks" "ks ! i = k" by (auto simp: in_set_conv_nth)
  from SplitterInfo.IH[OF k n] obtain p where "nodeAt p k = Some (TabWidgetInfo n)" by blast
  then have "nodeAt (i # p) (SplitterInfo ori ks) = Some (TabWidgetInfo n)" using i by simp
  then show ?case by blast
qed

lemma findTabWidgetInfoByTabWidget_None:
  "w \<notin> set (getAllTabWidgets t) \<Longrightarrow> findTabWidgetInfoByTabWidget t w = None"
proof (induction t)
  case (TabWidgetInfo n)
  then show ?case by simp
next
  case (SplitterInfo ori ks)
  then have "\<forall>k\<in>set ks. findTabWidgetInfoByTabWidget k w = None" by auto
  then have "firstSome (map (\<lambda>kid. findTabWidgetInfoByTabWidget kid w) ks) = None"
    by (simp add: firstSome_None_iff)
  then show ?case by simp
qed

lemma ids_nth_split:
  "i < length ks \<Longrightarrow>
   getAllTabWidgets (SplitterInfo ori ks) =
     concat (map getAllTabWidgets (take i ks)) @ getAllTabWidgets (ks ! i)
       @ concat (map getAllTabWidgets (drop (Suc i) ks))"
  using concat_map_nth[of i ks getAllTabWidgets] by simp

lemma ids_before_disjoint:
  assumes d: "distinct (getAllTabWidgets (SplitterInfo ori ks))" and i: "i < length ks" and j: "j < i"
  shows "set (getAllTabWidgets (ks ! j)) \<inter> set (getAllTabWidgets (ks ! i)) = {}"
proof -
  have "ks ! j \<in> set (take i ks)" using i j by (auto simp: in_set_conv_nth)
  then have "set (getAllTabWidgets (ks ! j)) \<subseteq> set (concat (map getAllTabWidgets (take i ks)))" by auto
  moreover have "set (concat (map getAllTabWidgets (take i ks))) \<inter> set (getAllTabWidgets (ks ! i)) = {}"
    using d ids_nth_split[OF i, of ori] by auto
  ultimately show ?thesis by blast
qed

lemma ids_distinct_nth:
  "distinct (getAllTabWidgets (SplitterInfo ori ks)) \<Longrightarrow> i < length ks \<Longrightarrow> distinct (getAllTabWidgets (ks ! i))"
  using ids_nth_split[of i ks ori] by auto

lemma findTabWidgetInfoByTabWidget_at:
  "distinct (getAllTabWidgets t) \<Longrightarrow> nodeAt p t = Some (TabWidgetInfo n) \<Longrightarrow>
   findTabWidgetInfoByTabWidget t (tabWidget n) = Some (p, n)"
proof (induction p arbitrary: t)
  case Nil
  then show ?case by simp
next
  case (Cons i p)
  then obtain ori ks where t: "t = SplitterInfo ori ks" and i: "i < length ks"
    and sub: "nodeAt p (ks ! i) = Some (TabWidgetInfo n)"
    by (cases t) (auto split: if_splits)
  have d: "distinct (getAllTabWidgets (SplitterInfo ori ks))" using Cons.prems t by simp
  have here: "findTabWidgetInfoByTabWidget (ks ! i) (tabWidget n) = Some (p, n)"
    using Cons.IH[OF ids_distinct_nth[OF d i] sub] .
  have w: "tabWidget n \<in> set (getAllTabWidgets (ks ! i))" using sub by (rule nodeAt_leaf_tabWidget)
  have before: "\<forall>j<i. findTabWidgetInfoByTabWidget (ks ! j) (tabWidget n) = None"
  proof (intro allI impI)
    fix j assume j: "j < i"
    have "tabWidget n \<notin> set (getAllTabWidgets (ks ! j))"
      using ids_before_disjoint[OF d i j] w by blast
    then show "findTabWidgetInfoByTabWidget (ks ! j) (tabWidget n) = None"
      by (rule findTabWidgetInfoByTabWidget_None)
  qed
  have "firstSome (map (\<lambda>kid. findTabWidgetInfoByTabWidget kid (tabWidget n)) ks) = Some (i, (p, n))"
    using i here before by (simp add: firstSome_Some_iff)
  then show ?case using t by simp
qed


lemma exampleLayout_root:
  "rootInfoNode exampleLayout = SplitterInfo VERTICAL
     [TabWidgetInfo \<lparr>children = [\<lparr>ref = 0, tab = CallerTab 10, content = 100\<rparr>], tabWidget = 1,
                      emptyTab = None, emptyTabContent = None\<rparr>,
      TabWidgetInfo \<lparr>children = [], tabWidget = 2, emptyTab = Some (CreatedTab 1),
                      emptyTabContent = Some 1000\<rparr>]"
  by (simp add: exampleLayout_def update_def updateInfoNodes_def setRootContainer_def setEmptySplitElementFactory_def appendTab_def
      splitAfterTabWidget_def newSplitLayout_def splitAfterTabWidgetIntoSplitter_def
      createTabWidgetInfo_def setChildren_def updateTabWidget_def)
lemma hd_sort_key_first_min:
  fixes f :: "'a \<Rightarrow> 'k::linorder"
  assumes ne: "xs \<noteq> []"
  shows "hd (sort_key f xs) = hd (filter (\<lambda>x. f x = Min (f ` set xs)) xs)"
proof -
  let ?ys = "sort_key f xs"
  let ?M = "Min (f ` set xs)"
  have ysne: "?ys \<noteq> []" using ne by (metis length_sort length_0_conv)
  then obtain y ys' where ys: "?ys = y # ys'" by (cases ?ys) auto
  have srt: "sorted (map f ?ys)" by (rule sorted_sort_key)
  have yin: "y \<in> set xs" using ys by (metis list.set_intros(1) set_sort)
  have "\<forall>z\<in>set xs. f y \<le> f z"
  proof
    fix z assume "z \<in> set xs"
    then have "z \<in> set (y # ys')" using ys by (metis set_sort)
    then show "f y \<le> f z" using srt ys by auto
  qed
  then have "f y = ?M" using yin by (intro Min_eqI[symmetric]) auto
  then have "hd (filter (\<lambda>x. f x = ?M) ?ys) = y" using ys by simp
  moreover have "filter (\<lambda>x. f x = ?M) ?ys = filter (\<lambda>x. f x = ?M) xs"
    by (rule sort_key_stable)
  moreover have "hd ?ys = y" using ys by simp
  ultimately show ?thesis by metis
qed


lemma findTabWidgetInfoByTabWidget_Some:
  "findTabWidgetInfoByTabWidget t w = Some (p, n) \<Longrightarrow>
   nodeAt p t = Some (TabWidgetInfo n) \<and> tabWidget n = w"
proof (induction t arbitrary: p)
  case (TabWidgetInfo m)
  then show ?case by (auto split: if_splits)
next
  case (SplitterInfo ori ks)
  then obtain i q where fs: "firstSome (map (\<lambda>kid. findTabWidgetInfoByTabWidget kid w) ks) = Some (i, (q, n))"
    and p: "p = i # q"
    by (auto split: option.splits)
  then have i: "i < length ks" and f: "findTabWidgetInfoByTabWidget (ks ! i) w = Some (q, n)"
    by (auto simp: firstSome_Some_iff)
  have "ks ! i \<in> set ks" using i by simp
  from SplitterInfo.IH[OF this f] show ?case using p i by simp
qed

lemma findTabWidgetInfoByTab_Some:
  "findTabWidgetInfoByTab t x = Some (p, n, r) \<Longrightarrow>
   nodeAt p t = Some (TabWidgetInfo n)
   \<and> (case r of None \<Rightarrow> children n = [] \<and> emptyTab n = Some x
        | Some ti \<Rightarrow> ti \<in> set (children n) \<and> tab ti = x)"
proof (induction t arbitrary: p)
  case (TabWidgetInfo m)
  then show ?case by (auto split: if_splits option.splits simp: find_Some_iff)
next
  case (SplitterInfo ori ks)
  then obtain i q where fs: "firstSome (map (\<lambda>kid. findTabWidgetInfoByTab kid x) ks) = Some (i, (q, n, r))"
    and p: "p = i # q"
    by (auto split: option.splits)
  then have i: "i < length ks" and f: "findTabWidgetInfoByTab (ks ! i) x = Some (q, n, r)"
    by (auto simp: firstSome_Some_iff)
  have "ks ! i \<in> set ks" using i by simp
  from SplitterInfo.IH[OF this f] show ?case using p i by simp
qed

lemma findPathToTabContent_Some:
  "findPathToTabContent t c = Some (p, n, r) \<Longrightarrow>
   nodeAt p t = Some (TabWidgetInfo n)
   \<and> (case r of None \<Rightarrow> emptyTabContent n = Some c
        | Some ti \<Rightarrow> ti \<in> set (children n) \<and> content ti = c
                     \<and> find (\<lambda>kid. content kid = c) (children n) = Some ti)"
proof (induction t arbitrary: p)
  case (TabWidgetInfo m)
  then show ?case by (auto split: if_splits option.splits simp: find_Some_iff)
next
  case (SplitterInfo ori ks)
  then obtain i q where fs: "firstSome (map (\<lambda>kid. findPathToTabContent kid c) ks) = Some (i, (q, n, r))"
    and p: "p = i # q"
    by (auto split: option.splits)
  then have i: "i < length ks" and f: "findPathToTabContent (ks ! i) c = Some (q, n, r)"
    by (auto simp: firstSome_Some_iff)
  have "ks ! i \<in> set ks" using i by simp
  from SplitterInfo.IH[OF this f] show ?case using p i by simp
qed

lemma findTabWidgetInfoByTabContent_eq: "findTabWidgetInfoByTabContent t c = findPathToTabContent t c"
proof (induction t)
  case (TabWidgetInfo n)
  then show ?case by simp
next
  case (SplitterInfo ori ks)
  then have m: "map (\<lambda>kid. findTabWidgetInfoByTabContent kid c) ks = map (\<lambda>kid. findPathToTabContent kid c) ks"
    by (intro map_cong) auto
  show ?case by (simp only: findTabWidgetInfoByTabContent.simps findPathToTabContent.simps m)
qed

lemma findPathToTabWidget_eq: "findPathToTabWidget t w = map_option fst (findTabWidgetInfoByTabWidget t w)"
proof (induction t)
  case (TabWidgetInfo n)
  then show ?case by simp
next
  case (SplitterInfo ori ks)
  then have m: "map (\<lambda>kid. findPathToTabWidget kid w) ks
     = map (map_option fst) (map (\<lambda>kid. findTabWidgetInfoByTabWidget kid w) ks)"
    unfolding map_map comp_def by (intro map_cong) auto
  have fs: "\<And>rs :: (nat list \<times> TabWidgetInfoNode) option list.
     firstSome (map (map_option fst) rs) = map_option (\<lambda>(i, y). (i, fst y)) (firstSome rs)"
  proof -
    fix rs :: "(nat list \<times> TabWidgetInfoNode) option list"
    show "firstSome (map (map_option fst) rs) = map_option (\<lambda>(i, y). (i, fst y)) (firstSome rs)"
      by (induction rs) (auto split: option.splits)
  qed
  show ?case unfolding findPathToTabWidget.simps m fs
    by (auto split: option.splits)
qed

text \<open>Two different leaf positions do not interfere.\<close>

lemma nodeAt_updAt_other_leaf:
  "nodeAt p t = Some (TabWidgetInfo a) \<Longrightarrow> nodeAt q t = Some (TabWidgetInfo b) \<Longrightarrow> p \<noteq> q \<Longrightarrow>
   nodeAt p (updAt q f t) = Some (TabWidgetInfo a)"
proof (induction q arbitrary: p t)
  case Nil
  then show ?case by (cases p) auto
next
  case (Cons j q)
  then obtain ori ks where t: "t = SplitterInfo ori ks" and j: "j < length ks"
    and sq: "nodeAt q (ks ! j) = Some (TabWidgetInfo b)"
    by (cases t) (auto split: if_splits)
  from Cons.prems(1) t obtain i p' where p: "p = i # p'" and i: "i < length ks"
    and sp: "nodeAt p' (ks ! i) = Some (TabWidgetInfo a)"
    by (cases p) (auto split: if_splits)
  show ?case
  proof (cases "i = j")
    case True
    then have "p' \<noteq> q" using Cons.prems(3) p by simp
    from Cons.IH[OF _ sq this] sp True show ?thesis using t p j by simp
  next
    case False
    then show ?thesis using t p i j sp by simp
  qed
qed

lemma allTabInfos_updAt_leaf:
  "nodeAt q t = Some (TabWidgetInfo n) \<Longrightarrow>
   \<exists>pre post. allTabInfos t = pre @ children n @ post
      \<and> (\<forall>kids. allTabInfos (updAt q (setChildren n kids) t) = pre @ kids @ post)"
proof -
  assume a: "nodeAt q t = Some (TabWidgetInfo n)"
  from leaves_updAt[OF a] obtain pre post where
    l: "leaves t = pre @ leaves (TabWidgetInfo n) @ post"
    and u: "\<And>f. leaves (updAt q f t) = pre @ leaves (f (TabWidgetInfo n)) @ post" by blast
  have "allTabInfos t = concat (map children pre) @ children n @ concat (map children post)"
    using l by (simp add: allTabInfos_def)
  moreover have "\<And>kids. allTabInfos (updAt q (setChildren n kids) t)
       = concat (map children pre) @ kids @ concat (map children post)"
    using u by (simp add: allTabInfos_def setChildren_def)
  ultimately show ?thesis by blast
qed

lemma filter_notSame_remove1:
  "distinct (map ref ys) \<Longrightarrow> (\<And>y. y \<in> set ys \<Longrightarrow> ref y = ref ti \<Longrightarrow> y = ti) \<Longrightarrow>
   filter (notSameTabInfo (Some ti)) ys = remove1 ti ys"
proof (induction ys)
  case Nil
  then show ?case by simp
next
  case (Cons y ys)
  show ?case
  proof (cases "ref y = ref ti")
    case True
    then have y: "y = ti" using Cons.prems(2) by simp
    have "ref ti \<notin> ref ` set ys" using Cons.prems(1) y by simp
    then have "\<And>z. z \<in> set ys \<Longrightarrow> ref z \<noteq> ref ti" by (metis imageI)
    then have "filter (\<lambda>a. ref a \<noteq> ref ti) ys = ys" by (simp add: filter_id_conv)
    then show ?thesis using y by simp
  next
    case False
    then have "y \<noteq> ti" by auto
    then show ?thesis using False Cons by simp
  qed
qed

lemma distinct_ref_eq:
  "distinct (map ref xs) \<Longrightarrow> a \<in> set xs \<Longrightarrow> b \<in> set xs \<Longrightarrow> ref a = ref b \<Longrightarrow> a = b"
  by (meson distinct_map inj_onD)

lemma relIndex_le: "relIndex i len \<le> len"
  unfolding relIndex_def by (cases "i < 0") auto

lemma slice0: "slice 0 e xs = take (relIndex e (length xs)) xs"
  by (simp add: slice_def relIndex_def)

lemma relIndex_min: "relIndex (min i (int n)) n = moveIndex i n"
  unfolding relIndex_def moveIndex_def by (cases "i < 0") (auto simp: min_def)

lemma moveTab_common:
  assumes d: "distinct (map ref (allTabInfos (rootInfoNode s)))"
    and src: "findTabWidgetInfoByTab (rootInfoNode s) t = Some (sp, source, Some tabInfo)"
    and tgt: "findTabWidgetInfoByTabWidget (rootInfoNode s) w = Some (tp, target)"
  shows "nodeAt sp (rootInfoNode s) = Some (TabWidgetInfo source)"
    and "nodeAt tp (rootInfoNode s) = Some (TabWidgetInfo target)"
    and "tabInfo \<in> set (children source)"
    and "distinct (map ref (children source))"
    and "\<And>ys. set ys \<subseteq> set (children source) \<Longrightarrow> distinct (map ref ys) \<Longrightarrow>
          filter (notSameTabInfo (Some tabInfo)) ys = remove1 tabInfo ys"
proof -
  show a: "nodeAt sp (rootInfoNode s) = Some (TabWidgetInfo source)"
    and m: "tabInfo \<in> set (children source)"
    using findTabWidgetInfoByTab_Some[OF src] by auto
  show "nodeAt tp (rootInfoNode s) = Some (TabWidgetInfo target)"
    using findTabWidgetInfoByTabWidget_Some[OF tgt] by simp
  from allTabInfos_updAt_leaf[OF a] obtain pre post where
    "allTabInfos (rootInfoNode s) = pre @ children source @ post" by blast
  then show ds: "distinct (map ref (children source))" using d by simp
  fix ys assume sub: "set ys \<subseteq> set (children source)" and dy: "distinct (map ref ys)"
  show "filter (notSameTabInfo (Some tabInfo)) ys = remove1 tabInfo ys"
  proof (rule filter_notSame_remove1[OF dy])
    fix y assume "y \<in> set ys" "ref y = ref tabInfo"
    then show "y = tabInfo" using sub m ds distinct_ref_eq by blast
  qed
qed

lemma moveTab_other:
  assumes d: "distinct (map ref (allTabInfos (rootInfoNode s)))"
    and src: "findTabWidgetInfoByTab (rootInfoNode s) t = Some (sp, source, Some tabInfo)"
    and tgt: "findTabWidgetInfoByTabWidget (rootInfoNode s) w = Some (tp, target)"
    and ne: "sp \<noteq> tp"
  shows "moveTabToTabWidget s t w i = Inr ((), s\<lparr>rootInfoNode :=
           updAt tp (setChildren target
              (take (moveIndex i (length (children target))) (children target) @ [tabInfo]
                 @ drop (moveIndex i (length (children target))) (children target)))
             (updAt sp (setChildren source (remove1 tabInfo (children source))) (rootInfoNode s))\<rparr>)"
proof -
  note c = moveTab_common[OF d src tgt]
  have f: "filter (notSameTabInfo (Some tabInfo)) (children source) = remove1 tabInfo (children source)"
    using c(5)[of "children source"] c(4) by simp
  show ?thesis
    using ne src tgt f
    by (simp add: moveTabToTabWidget_def Let_def slice0 sliceFrom_def relIndex_min del: notSameTabInfo.simps)
qed

lemma moveTab_same:
  assumes d: "distinct (map ref (allTabInfos (rootInfoNode s)))"
    and src: "findTabWidgetInfoByTab (rootInfoNode s) t = Some (sp, source, Some tabInfo)"
    and tgt: "findTabWidgetInfoByTabWidget (rootInfoNode s) w = Some (sp, target)"
  shows "moveTabToTabWidget s t w i = Inr ((), s\<lparr>rootInfoNode :=
           updAt sp (setChildren source
              (remove1 tabInfo (take (moveIndex i (length (children source))) (children source)) @ [tabInfo]
                 @ remove1 tabInfo (drop (moveIndex i (length (children source))) (children source))))
             (rootInfoNode s)\<rparr>)"
proof -
  note c = moveTab_common[OF d src tgt]
  have st: "target = source" using c(1,2) by simp
  let ?k = "moveIndex i (length (children source))"
  have f1: "filter (notSameTabInfo (Some tabInfo)) (take ?k (children source))
        = remove1 tabInfo (take ?k (children source))"
    using c(4) by (intro c(5)) (auto dest: in_set_takeD simp: distinct_map intro: inj_on_subset)
  have "distinct (map ref (drop ?k (children source)))"
    using c(4) by (simp add: drop_map[symmetric])
  then have f2: "filter (notSameTabInfo (Some tabInfo)) (drop ?k (children source))
        = remove1 tabInfo (drop ?k (children source))"
    by (intro c(5)) (auto dest: in_set_dropD)
  show ?thesis
    using src tgt st f1 f2
    by (simp add: moveTabToTabWidget_def Let_def slice0 sliceFrom_def relIndex_min del: notSameTabInfo.simps)
qed

lemma updAt_same: "nodeAt p t = Some x \<Longrightarrow> updAt p (\<lambda>_. x) t = t"
proof (induction p arbitrary: t)
  case Nil
  then show ?case by simp
next
  case (Cons i p)
  then show ?case by (cases t) (auto split: if_splits)
qed

text \<open>
  The placeholder tab of an empty group: the source group has no slot to lose, and the
  child array of the target gets the null at the position of the index.
\<close>

lemma moveTab_placeholder:
  assumes src: "findTabWidgetInfoByTab (rootInfoNode s) t = Some (sp, source, None)"
    and tgt: "findTabWidgetInfoByTabWidget (rootInfoNode s) w = Some (tp, target)"
  shows "moveTabToTabWidget s t w i =
     Inl (NullStored w
            (map Some (take (moveIndex i (length (children target))) (children target)) @ [None]
               @ map Some (drop (moveIndex i (length (children target))) (children target))), s)"
proof -
  have a: "nodeAt sp (rootInfoNode s) = Some (TabWidgetInfo source)" and e: "children source = []"
    using findTabWidgetInfoByTab_Some[OF src] by auto
  have b: "nodeAt tp (rootInfoNode s) = Some (TabWidgetInfo target)" and w: "tabWidget target = w"
    using findTabWidgetInfoByTabWidget_Some[OF tgt] by simp_all
  have same: "source\<lparr>children := []\<rparr> = source" using e by simp
  have r1: "updAt sp (setChildren source []) (rootInfoNode s) = rootInfoNode s"
    using updAt_same[OF a] by (simp add: setChildren_def same)
  show ?thesis
  proof (cases "sp = tp")
    case True
    then have "target = source" using a b by simp
    then show ?thesis using src tgt True e w
      by (simp add: moveTabToTabWidget_def Let_def slice0 sliceFrom_def)
  next
    case False
    then show ?thesis using src tgt e w r1
      by (simp add: moveTabToTabWidget_def Let_def slice0 sliceFrom_def relIndex_min)
  qed
qed

lemma moveExample_root:
  "rootInfoNode moveExample = SplitterInfo VERTICAL
     [TabWidgetInfo \<lparr>children = [\<lparr>ref = 0, tab = CallerTab 10, content = 100\<rparr>], tabWidget = 1,
                      emptyTab = None, emptyTabContent = None\<rparr>,
      TabWidgetInfo \<lparr>children = [\<lparr>ref = 1, tab = CallerTab 21, content = 201\<rparr>,
                                  \<lparr>ref = 2, tab = CallerTab 22, content = 202\<rparr>,
                                  \<lparr>ref = 3, tab = CallerTab 23, content = 203\<rparr>], tabWidget = 2,
                      emptyTab = None, emptyTabContent = None\<rparr>]"
  by (simp add: moveExample_def appendTab_def
      splitAfterTabWidget_def newSplitLayout_def splitAfterTabWidgetIntoSplitter_def
      createTabWidgetInfo_def setChildren_def)

lemma remove1_reinsert:
  assumes d: "distinct xs" and m: "x \<in> set xs"
  shows "remove1 x (remove1 x (take k xs) @ [x] @ remove1 x (drop k xs)) = remove1 x xs"
proof -
  have dt: "distinct (take k xs)" and dd: "distinct (drop k xs)" using d by simp_all
  have split: "remove1 x xs = (if x \<in> set (take k xs) then remove1 x (take k xs) @ drop k xs
                                else take k xs @ remove1 x (drop k xs))"
    using remove1_append[of x "take k xs" "drop k xs"] by simp
  show ?thesis
  proof (cases "x \<in> set (take k xs)")
    case True
    have "set (take k xs) \<inter> set (drop k xs) = {}"
      using d distinct_append[of "take k xs" "drop k xs"] by simp
    then have nd: "x \<notin> set (drop k xs)" using True by blast
    have "x \<notin> set (remove1 x (take k xs))" using dt by simp
    then have "remove1 x (remove1 x (take k xs) @ [x] @ remove1 x (drop k xs))
       = remove1 x (take k xs) @ remove1 x (drop k xs)"
      by (simp add: remove1_append)
    also have "\<dots> = remove1 x (take k xs) @ drop k xs" using nd by (simp add: remove1_idem)
    finally show ?thesis using split True by simp
  next
    case False
    then have "remove1 x (remove1 x (take k xs) @ [x] @ remove1 x (drop k xs))
       = take k xs @ remove1 x (drop k xs)"
      by (simp add: remove1_append remove1_idem)
    then show ?thesis using split False by simp
  qed
qed


lemma moveTab_keeps:
  assumes d: "distinct (map ref (allTabInfos (rootInfoNode s)))"
    and src: "findTabWidgetInfoByTab (rootInfoNode s) t = Some (sp, source, Some tabInfo)"
    and tgt: "findTabWidgetInfoByTabWidget (rootInfoNode s) w = Some (tp, target)"
  shows "\<exists>s'. moveTabToTabWidget s t w i = Inr ((), s')
     \<and> mset (allTabInfos (rootInfoNode s')) = mset (allTabInfos (rootInfoNode s))
     \<and> length (allTabInfos (rootInfoNode s')) = length (allTabInfos (rootInfoNode s))"
proof -
  note c = moveTab_common[OF d src tgt]
  let ?k = "moveIndex i (length (children target))"
  have "\<exists>s'. moveTabToTabWidget s t w i = Inr ((), s')
     \<and> mset (allTabInfos (rootInfoNode s')) = mset (allTabInfos (rootInfoNode s))"
  proof (cases "sp = tp")
    case True
    then have st: "target = source" using c(1,2) by simp
    let ?new = "remove1 tabInfo (take ?k (children source)) @ [tabInfo]
                  @ remove1 tabInfo (drop ?k (children source))"
    have dx: "distinct (children source)" using c(4) by (simp add: distinct_map)
    have "mset ?new = mset (remove1 tabInfo ?new) + {#tabInfo#}" by simp
    also have "\<dots> = mset (children source)" using remove1_reinsert[OF dx c(3), of ?k] c(3) by simp
    finally have ms: "mset ?new = mset (children source)" .
    from allTabInfos_updAt_leaf[OF c(1)] obtain pre post where
      "allTabInfos (rootInfoNode s) = pre @ children source @ post"
      "allTabInfos (updAt sp (setChildren source ?new) (rootInfoNode s)) = pre @ ?new @ post"
      by blast
    then have "mset (allTabInfos (updAt sp (setChildren source ?new) (rootInfoNode s)))
        = mset (allTabInfos (rootInfoNode s))" using ms by simp
    then show ?thesis using moveTab_same[OF d src tgt[folded True], of i] st by simp
  next
    case False
    let ?new = "take ?k (children target) @ [tabInfo] @ drop ?k (children target)"
    let ?root1 = "updAt sp (setChildren source (remove1 tabInfo (children source))) (rootInfoNode s)"
    have t1: "nodeAt tp ?root1 = Some (TabWidgetInfo target)"
      using nodeAt_updAt_other_leaf[OF c(2) c(1)] False by simp
    from allTabInfos_updAt_leaf[OF c(1)] obtain pre post where
      e1: "allTabInfos (rootInfoNode s) = pre @ children source @ post"
      and e2: "allTabInfos ?root1 = pre @ remove1 tabInfo (children source) @ post"
      by blast
    from allTabInfos_updAt_leaf[OF t1] obtain pre2 post2 where
      e3: "allTabInfos ?root1 = pre2 @ children target @ post2"
      and e4: "allTabInfos (updAt tp (setChildren target ?new) ?root1) = pre2 @ ?new @ post2"
      by blast
    have "mset (take ?k (children target)) + mset (drop ?k (children target)) = mset (children target)"
      by (metis append_take_drop_id mset_append)
    then have "mset ?new = mset (children target) + {#tabInfo#}" by simp
    then have "mset (allTabInfos (updAt tp (setChildren target ?new) ?root1))
        = mset (allTabInfos ?root1) + {#tabInfo#}"
      unfolding e4 e3 by simp
    also have "\<dots> = mset (allTabInfos (rootInfoNode s))"
      unfolding e2 e1 using c(3) by simp
    finally show ?thesis using moveTab_other[OF d src tgt False, of i] by simp
  qed
  then show ?thesis by (metis size_mset)
qed


lemma indexWhere_first:
  "i < length xs \<Longrightarrow> P (xs ! i) \<Longrightarrow> (\<And>j. j < i \<Longrightarrow> \<not> P (xs ! j)) \<Longrightarrow> indexWhere P xs = int i"
proof (induction xs arbitrary: i)
  case Nil
  then show ?case by simp
next
  case (Cons x xs)
  show ?case
  proof (cases i)
    case 0
    then show ?thesis using Cons.prems by simp
  next
    case (Suc k)
    have nx: "\<not> P x" using Cons.prems(3)[of 0] Suc by simp
    have "indexWhere P xs = int k"
    proof (rule Cons.IH)
      show "k < length xs" using Cons.prems(1) Suc by simp
      show "P (xs ! k)" using Cons.prems(2) Suc by simp
      fix j assume "j < k"
      then show "\<not> P (xs ! j)" using Cons.prems(3)[of "Suc j"] Suc by simp
    qed
    then show ?thesis using nx Suc by (simp add: Let_def)
  qed
qed

lemma ids_other_disjoint:
  assumes d: "distinct (getAllTabWidgets (SplitterInfo ori ks))"
    and i: "i < length ks" and j: "j < length ks" and ne: "i \<noteq> j"
  shows "set (getAllTabWidgets (ks ! j)) \<inter> set (getAllTabWidgets (ks ! i)) = {}"
proof (cases "j < i")
  case True
  then show ?thesis using ids_before_disjoint[OF d i] by simp
next
  case False
  then have "i < j" using ne by simp
  then show ?thesis using ids_before_disjoint[OF d j, of i] by blast
qed

lemma isTabWidgetNode_ids: "isTabWidgetNode w k \<Longrightarrow> w \<in> set (getAllTabWidgets k)"
  by (cases k) auto

lemma sibling_not_same:
  assumes d: "distinct (getAllTabWidgets (SplitterInfo ori ks))"
    and i: "i < length ks" and at: "ks ! i = TabWidgetInfo n"
    and j: "j < length ks" and ne: "j \<noteq> i"
  shows "\<not> isTabWidgetNode (tabWidget n) (ks ! j)"
proof
  assume "isTabWidgetNode (tabWidget n) (ks ! j)"
  then have "tabWidget n \<in> set (getAllTabWidgets (ks ! j))" by (rule isTabWidgetNode_ids)
  moreover have "tabWidget n \<in> set (getAllTabWidgets (ks ! i))" using at by simp
  ultimately show False using ids_other_disjoint[OF d i j] ne by blast
qed

lemma indexOfNode_at:
  assumes d: "distinct (getAllTabWidgets (SplitterInfo ori ks))"
    and i: "i < length ks" and at: "ks ! i = TabWidgetInfo n"
  shows "indexOfNode ks (tabWidget n) = int i"
  unfolding indexOfNode_def
proof (rule indexWhere_first[OF i])
  show "isTabWidgetNode (tabWidget n) (ks ! i)" using at by simp
  fix j assume "j < i"
  then show "\<not> isTabWidgetNode (tabWidget n) (ks ! j)"
    using sibling_not_same[OF d i at, of j] i by simp
qed

lemma filter_notSameNode:
  assumes d: "distinct (getAllTabWidgets (SplitterInfo ori ks))"
    and i: "i < length ks" and at: "ks ! i = TabWidgetInfo n"
  shows "filter (notSameNode n) ks = take i ks @ drop (Suc i) ks"
proof -
  have a: "\<And>k. k \<in> set (take i ks) \<Longrightarrow> notSameNode n k"
  proof -
    fix k assume "k \<in> set (take i ks)"
    then obtain j where "j < i" "k = ks ! j" using i by (auto simp: in_set_conv_nth)
    then show "notSameNode n k" using sibling_not_same[OF d i at, of j] i by (simp add: notSameNode_def)
  qed
  have b: "\<And>k. k \<in> set (drop (Suc i) ks) \<Longrightarrow> notSameNode n k"
  proof -
    fix k assume "k \<in> set (drop (Suc i) ks)"
    then obtain j where "j < length ks - Suc i" "k = ks ! (Suc i + j)"
      by (auto simp: in_set_conv_nth)
    then have "Suc i + j < length ks" "k = ks ! (Suc i + j)" by auto
    then show "notSameNode n k" using sibling_not_same[OF d i at, of "Suc i + j"] by (simp add: notSameNode_def)
  qed
  have "ks = take i ks @ [ks ! i] @ drop (Suc i) ks" using i by (simp add: id_take_nth_drop)
  then have "filter (notSameNode n) ks
      = filter (notSameNode n) (take i ks) @ filter (notSameNode n) [ks ! i]
          @ filter (notSameNode n) (drop (Suc i) ks)"
    by (metis filter_append)
  also have "\<dots> = take i ks @ drop (Suc i) ks"
    using a b at by (simp add: filter_id_conv notSameNode_def)
  finally show ?thesis .
qed

lemma splice_insert: "i < length ks \<Longrightarrow> arraySplice (int i + 1) 0 [x] ks = take (Suc i) ks @ [x] @ drop (Suc i) ks"
  by (simp add: arraySplice_def relIndex_def nat_add_distrib min_def)

lemma splice_replace: "i < length ks \<Longrightarrow> arraySplice (int i) (Suc 0) [x] ks = ks[i := x]"
  by (simp add: arraySplice_def relIndex_def upd_conv_take_nth_drop min_def)

lemma updAt_cong_at: "nodeAt q t = Some x \<Longrightarrow> f x = g x \<Longrightarrow> updAt q f t = updAt q g t"
proof (induction q arbitrary: t)
  case Nil
  then show ?case by simp
next
  case (Cons i q)
  then show ?case by (cases t) (auto split: if_splits)
qed

lemma updAt_child:
  assumes "nodeAt q t = Some (SplitterInfo ori ks)" and "i < length ks"
  shows "updAt q (setKids ori (ks[i := y])) t = updAt (q @ [i]) (\<lambda>_. y) t"
proof -
  have "updAt (q @ [i]) (\<lambda>_. y) t = updAt q (updAt [i] (\<lambda>_. y)) t" by (rule updAt_append)
  also have "\<dots> = updAt q (setKids ori (ks[i := y])) t"
    using assms by (intro updAt_cong_at) (auto simp: setKids_def)
  finally show ?thesis by simp
qed

lemma removeRedundant_wellSplit: "wellSplit t \<Longrightarrow> removeRedundantSplittersFromParent t = t"
proof (induction t)
  case (TabWidgetInfo n)
  then show ?case by simp
next
  case (SplitterInfo ori ks)
  have "map (\<lambda>kid. case kid of TabWidgetInfo n \<Rightarrow> kid
                    | SplitterInfo kori kks \<Rightarrow>
                        if length kks = 1 then removeRedundantSplittersFromParent (hd kks)
                        else removeRedundantSplittersFromParent kid) ks = ks"
  proof (rule map_idI)
    fix kid assume k: "kid \<in> set ks"
    then have w: "wellSplit kid" using SplitterInfo.prems by (simp add: list_all_iff)
    show "(case kid of TabWidgetInfo n \<Rightarrow> kid
                    | SplitterInfo kori kks \<Rightarrow>
                        if length kks = 1 then removeRedundantSplittersFromParent (hd kks)
                        else removeRedundantSplittersFromParent kid) = kid"
      using SplitterInfo.IH[OF k w] w by (cases kid) auto
  qed
  then show ?case by simp
qed

lemma removeRedundant_slotAfter:
  "removeRedundantSplittersFromParent (SplitterInfo ori ks) = SplitterInfo ori (map slotAfter ks)"
  by (simp add: slotAfter_def[abs_def])

lemma slotAfter_wellSplit: "wellSplit kid \<Longrightarrow> slotAfter kid = kid"
  using removeRedundant_wellSplit[of kid] by (cases kid) (auto simp: slotAfter_def)

lemma collapsed_wellSplit: "list_all wellSplit ks \<Longrightarrow> ks \<noteq> [] \<Longrightarrow> wellSplit (collapsed ori ks)"
proof -
  assume a: "list_all wellSplit ks" and ne: "ks \<noteq> []"
  show ?thesis
  proof (cases "length ks = 1")
    case True
    then obtain k where "ks = [k]" by (cases ks) auto
    then show ?thesis using a by (simp add: collapsed_def)
  next
    case False
    then have "2 \<le> length ks" using ne by (cases ks; cases "tl ks") auto
    then show ?thesis using a False by (simp add: collapsed_def)
  qed
qed

lemma slotAfter_updAt:
  "wellSplit t \<Longrightarrow> nodeAt q t = Some (SplitterInfo ori0 ks0) \<Longrightarrow> list_all wellSplit ks \<Longrightarrow> ks \<noteq> [] \<Longrightarrow>
   slotAfter (updAt q (setKids ori ks) t) = updAt q (\<lambda>_. collapsed ori ks) t"
proof (induction q arbitrary: t)
  case Nil
  show ?case
  proof (cases "length ks = 1")
    case True
    then obtain k where k: "ks = [k]" by (cases ks) auto
    then have "wellSplit k" using Nil.prems(3) by simp
    then show ?thesis using k by (simp add: slotAfter_def setKids_def collapsed_def removeRedundant_wellSplit)
  next
    case False
    have "wellSplit (collapsed ori ks)" using Nil.prems(3,4) by (rule collapsed_wellSplit)
    then have "wellSplit (SplitterInfo ori ks)" using False by (simp add: collapsed_def)
    then show ?thesis using False slotAfter_wellSplit[of "SplitterInfo ori ks"]
      by (simp add: setKids_def collapsed_def)
  qed
next
  case (Cons i q)
  then obtain o1 K where t: "t = SplitterInfo o1 K" and i: "i < length K"
    and sub: "nodeAt q (K ! i) = Some (SplitterInfo ori0 ks0)"
    by (cases t) (auto split: if_splits)
  have len: "2 \<le> length K" and all: "list_all wellSplit K" using Cons.prems(1) t by simp_all
  have wi: "wellSplit (K ! i)" using all i by (simp add: list_all_length)
  let ?x = "updAt q (setKids ori ks) (K ! i)"
  have ih: "slotAfter ?x = updAt q (\<lambda>_. collapsed ori ks) (K ! i)"
    using Cons.IH[OF wi sub Cons.prems(3,4)] .
  have "map slotAfter (K[i := ?x]) = (map slotAfter K)[i := slotAfter ?x]" by (rule map_update)
  moreover have "map slotAfter K = K"
    using all by (intro map_idI slotAfter_wellSplit) (simp add: list_all_iff)
  ultimately have m: "map slotAfter (K[i := ?x]) = K[i := updAt q (\<lambda>_. collapsed ori ks) (K ! i)]"
    using ih by simp
  have "slotAfter (SplitterInfo o1 (K[i := ?x])) = removeRedundantSplittersFromParent (SplitterInfo o1 (K[i := ?x]))"
    using len by (simp add: slotAfter_def)
  also have "\<dots> = SplitterInfo o1 (K[i := updAt q (\<lambda>_. collapsed ori ks) (K ! i)])"
    unfolding removeRedundant_slotAfter m ..
  finally show ?case using t i by simp
qed

lemma removeRedundantSplitters_updAt:
  assumes w: "wellSplit (rootInfoNode s)"
    and at: "nodeAt q (rootInfoNode s) = Some (SplitterInfo ori0 ks0)"
    and all: "list_all wellSplit ks" and ne: "ks \<noteq> []"
  shows "removeRedundantSplitters (s\<lparr>rootInfoNode := updAt q (setKids ori ks) (rootInfoNode s)\<rparr>)
       = s\<lparr>rootInfoNode := updAt q (\<lambda>_. collapsed ori ks) (rootInfoNode s)\<rparr>"
proof (cases q)
  case Nil
  show ?thesis
  proof (cases "length ks = 1")
    case True
    then show ?thesis using Nil by (simp add: removeRedundantSplitters_def setKids_def collapsed_def)
  next
    case False
    have "wellSplit (collapsed ori ks)" using all ne by (rule collapsed_wellSplit)
    then have "wellSplit (SplitterInfo ori ks)" using False by (simp add: collapsed_def)
    then have "removeRedundantSplittersFromParent (SplitterInfo ori ks) = SplitterInfo ori ks"
      by (rule removeRedundant_wellSplit)
    then show ?thesis using Nil False
      by (simp add: removeRedundantSplitters_def setKids_def collapsed_def)
  qed
next
  case (Cons i q')
  then obtain o1 K where t: "rootInfoNode s = SplitterInfo o1 K" and i: "i < length K"
    using at by (cases "rootInfoNode s") (auto split: if_splits)
  have len: "2 \<le> length K" using w t by simp
  let ?r = "updAt q (setKids ori ks) (rootInfoNode s)"
  have r: "?r = SplitterInfo o1 (K[i := updAt q' (setKids ori ks) (K ! i)])" using t i Cons by simp
  have "slotAfter ?r = removeRedundantSplittersFromParent ?r"
    unfolding r using len by (simp add: slotAfter_def)
  then have "removeRedundantSplittersFromParent ?r = updAt q (\<lambda>_. collapsed ori ks) (rootInfoNode s)"
    using slotAfter_updAt[OF w at all ne, of ori] by simp
  then show ?thesis using r len by (simp add: removeRedundantSplitters_def)
qed

lemma ids_updAt:
  "nodeAt q t = Some x \<Longrightarrow>
   \<exists>pre post. getAllTabWidgets t = pre @ getAllTabWidgets x @ post
      \<and> (\<forall>f. getAllTabWidgets (updAt q f t) = pre @ getAllTabWidgets (f x) @ post)"
proof -
  assume a: "nodeAt q t = Some x"
  from leaves_updAt[OF a] obtain pre post where
    l: "leaves t = pre @ leaves x @ post"
    and u: "\<And>f. leaves (updAt q f t) = pre @ leaves (f x) @ post" by blast
  have "getAllTabWidgets t = map tabWidget pre @ getAllTabWidgets x @ map tabWidget post"
    using l by (simp add: getAllTabWidgets_leaves)
  moreover have "\<And>f. getAllTabWidgets (updAt q f t)
       = map tabWidget pre @ getAllTabWidgets (f x) @ map tabWidget post"
    using u by (simp add: getAllTabWidgets_leaves)
  ultimately show ?thesis by blast
qed

lemma infos_updAt:
  "nodeAt q t = Some x \<Longrightarrow>
   \<exists>pre post. allTabInfos t = pre @ allTabInfos x @ post
      \<and> (\<forall>f. allTabInfos (updAt q f t) = pre @ allTabInfos (f x) @ post)"
proof -
  assume a: "nodeAt q t = Some x"
  from leaves_updAt[OF a] obtain pre post where
    l: "leaves t = pre @ leaves x @ post"
    and u: "\<And>f. leaves (updAt q f t) = pre @ leaves (f x) @ post" by blast
  have "allTabInfos t = concat (map children pre) @ allTabInfos x @ concat (map children post)"
    using l by (simp add: allTabInfos_def)
  moreover have "\<And>f. allTabInfos (updAt q f t)
       = concat (map children pre) @ allTabInfos (f x) @ concat (map children post)"
    using u by (simp add: allTabInfos_def)
  ultimately show ?thesis by blast
qed

lemma ids_distinct_nodeAt:
  "distinct (getAllTabWidgets t) \<Longrightarrow> nodeAt q t = Some x \<Longrightarrow> distinct (getAllTabWidgets x)"
  using ids_updAt[of q t x] by auto

lemma ids_updAt_same:
  "nodeAt q t = Some x \<Longrightarrow> getAllTabWidgets (f x) = getAllTabWidgets x \<Longrightarrow>
   getAllTabWidgets (updAt q f t) = getAllTabWidgets t"
  using ids_updAt[of q t x] by auto

lemma ids_list_update:
  "i < length ks \<Longrightarrow> getAllTabWidgets y = getAllTabWidgets (ks ! i) \<Longrightarrow>
   getAllTabWidgets (SplitterInfo ori (ks[i := y])) = getAllTabWidgets (SplitterInfo ori ks)"
  using concat_map_upd[of i ks getAllTabWidgets y] concat_map_nth[of i ks getAllTabWidgets] by simp

lemma nodeAt_child:
  "nodeAt q t = Some (SplitterInfo ori ks) \<Longrightarrow>
   nodeAt (q @ [i]) t = (if i < length ks then Some (ks ! i) else None)"
  by (simp add: nodeAt_append)

lemma take_drop_update_left:
  "Suc b < length ks \<Longrightarrow>
   take (Suc b) (ks[b := y]) @ drop (Suc (Suc b)) (ks[b := y]) = take b ks @ [y] @ drop (b + 2) ks"
  by (simp add: take_Suc_conv_app_nth)

lemma take_drop_update_right:
  "Suc a < length ks \<Longrightarrow>
   take a (ks[Suc a := y]) @ drop (Suc a) (ks[Suc a := y]) = take a ks @ [y] @ drop (a + 2) ks"
  by (simp add: drop_update_swap Cons_nth_drop_Suc[symmetric] del: drop_Suc_Cons)

lemma firstTabWidgetInfo_wellSplit:
  "wellSplit t \<Longrightarrow> \<exists>dp d. firstTabWidgetInfo t = Some (dp, d) \<and> nodeAt dp t = Some (TabWidgetInfo d)
      \<and> d = hd (leaves t)"
proof (induction t)
  case (TabWidgetInfo n)
  then show ?case by simp
next
  case (SplitterInfo ori ks)
  then obtain k ks' where ks: "ks = k # ks'" by (cases ks) auto
  then have "wellSplit k" using SplitterInfo.prems by simp
  moreover have "k \<in> set ks" using ks by simp
  ultimately obtain dp d where f: "firstTabWidgetInfo k = Some (dp, d)"
     and n: "nodeAt dp k = Some (TabWidgetInfo d)" and h: "d = hd (leaves k)"
    using SplitterInfo.IH by blast
  have "leaves k \<noteq> []" using leaves_updAt[OF n] by auto
  then have "hd (leaves (SplitterInfo ori ks)) = d" using ks h by simp
  then show ?case using ks f n by simp
qed

lemma absorb_wellSplit:
  assumes "wellSplit sub"
  shows "\<exists>m. absorb sub slots = Some m \<and> wellSplit m \<and> getAllTabWidgets m = getAllTabWidgets sub
     \<and> mset (allTabInfos m) = mset (allTabInfos sub) + mset slots"
proof -
  from firstTabWidgetInfo_wellSplit[OF assms] obtain dp d where
    f: "firstTabWidgetInfo sub = Some (dp, d)" and n: "nodeAt dp sub = Some (TabWidgetInfo d)" by blast
  let ?m = "updAt dp (setChildren d (children d @ slots)) sub"
  have a: "absorb sub slots = Some ?m" using f by (simp add: absorb_def)
  have b: "wellSplit ?m" using assms n by (rule wellSplit_updAt) (simp add: setChildren_def)
  have c: "getAllTabWidgets ?m = getAllTabWidgets sub"
    using n by (rule ids_updAt_same) (simp add: setChildren_def)
  from infos_updAt[OF n] obtain pre post where
    "allTabInfos sub = pre @ allTabInfos (TabWidgetInfo d) @ post"
    "allTabInfos ?m = pre @ allTabInfos (setChildren d (children d @ slots) (TabWidgetInfo d)) @ post"
    by blast
  then have "mset (allTabInfos ?m) = mset (allTabInfos sub) + mset slots"
    by (simp add: setChildren_def)
  then show ?thesis using a b c by blast
qed

lemma elemAt_nat: "j < length ks \<Longrightarrow> elemAt ks (int j) = Some (ks ! j)"
  by (simp add: elemAt_def)

lemma closeSplit_at_index:
  assumes f: "findPathToTabContent (rootInfoNode s) c = Some (q @ [i], g, r)"
    and at: "nodeAt q (rootInfoNode s) = Some (SplitterInfo ori ks)"
    and ix: "mergeIndex ks (tabWidget g) = int j"
    and sj: "Suc j < length ks"
  shows "closeSplitAtTabContent s c =
       (case ks ! j of
          TabWidgetInfo leftInfo \<Rightarrow>
            (case ks ! Suc j of
               TabWidgetInfo rightInfo \<Rightarrow>
                 Inr ((), removeRedundantSplitters
                    (s\<lparr>rootInfoNode := updAt q (setKids ori (filter (notSameNode rightInfo)
                        (ks[j := TabWidgetInfo (leftInfo\<lparr>children := children leftInfo @ children rightInfo\<rparr>)])))
                      (rootInfoNode s)\<rparr>))
             | SplitterInfo rori rks \<Rightarrow>
                 closeTabWidgetSplitterSplit s q ori ks leftInfo (Suc j) (SplitterInfo rori rks))
        | SplitterInfo lori lks \<Rightarrow>
            (case ks ! Suc j of
               TabWidgetInfo rightInfo \<Rightarrow>
                 closeTabWidgetSplitterSplit s q ori ks rightInfo j (SplitterInfo lori lks)
             | SplitterInfo rori rks \<Rightarrow> Inr ((), s)))"
proof -
  have e1: "elemAt ks (int j) = Some (ks ! j)" using sj by (simp add: elemAt_nat)
  have e2: "elemAt ks (int j + 1) = Some (ks ! Suc j)" using elemAt_nat[OF sj] by (simp add: add.commute)
  have n1: "nat (int j + 1) = Suc j" by simp
  show ?thesis
    unfolding closeSplitAtTabContent_def f
    by (simp add: at ix e1 e2 n1 Let_def split: InfoNode.split)
qed

lemma closeSplit_unfold:
  assumes w: "wellSplit (rootInfoNode s)" and d: "distinct (getAllTabWidgets (rootInfoNode s))"
    and f: "findPathToTabContent (rootInfoNode s) c = Some (q @ [i], g, r)"
    and at: "nodeAt q (rootInfoNode s) = Some (SplitterInfo ori ks)"
    and j: "j = (if Suc i = length ks then i - 1 else i)"
  shows "i < length ks \<and> ks ! i = TabWidgetInfo g \<and> Suc j < length ks \<and> (i = j \<or> i = Suc j)
    \<and> list_all wellSplit ks \<and> distinct (getAllTabWidgets (SplitterInfo ori ks))
    \<and> closeSplitAtTabContent s c =
       (case ks ! j of
          TabWidgetInfo leftInfo \<Rightarrow>
            (case ks ! Suc j of
               TabWidgetInfo rightInfo \<Rightarrow>
                 Inr ((), removeRedundantSplitters
                    (s\<lparr>rootInfoNode := updAt q (setKids ori (filter (notSameNode rightInfo)
                        (ks[j := TabWidgetInfo (leftInfo\<lparr>children := children leftInfo @ children rightInfo\<rparr>)])))
                      (rootInfoNode s)\<rparr>))
             | SplitterInfo rori rks \<Rightarrow>
                 closeTabWidgetSplitterSplit s q ori ks leftInfo (Suc j) (SplitterInfo rori rks))
        | SplitterInfo lori lks \<Rightarrow>
            (case ks ! Suc j of
               TabWidgetInfo rightInfo \<Rightarrow>
                 closeTabWidgetSplitterSplit s q ori ks rightInfo j (SplitterInfo lori lks)
             | SplitterInfo rori rks \<Rightarrow> Inr ((), s)))"
proof -
  have leaf: "nodeAt (q @ [i]) (rootInfoNode s) = Some (TabWidgetInfo g)"
    using findPathToTabContent_Some[OF f] by simp
  then have i: "i < length ks" and gi: "ks ! i = TabWidgetInfo g"
    using nodeAt_child[OF at, of i] by (auto split: if_splits)
  have wq: "wellSplit (SplitterInfo ori ks)" using w at by (rule wellSplit_nodeAt)
  then have len: "2 \<le> length ks" and all: "list_all wellSplit ks" by simp_all
  have dq: "distinct (getAllTabWidgets (SplitterInfo ori ks))" using d at by (rule ids_distinct_nodeAt)
  have idx: "indexOfNode ks (tabWidget g) = int i" using dq i gi by (rule indexOfNode_at)
  have sj: "Suc j < length ks" using j i len by (auto split: if_splits)
  have ij: "i = j \<or> i = Suc j" using j i len by (auto split: if_splits)
  have ix: "mergeIndex ks (tabWidget g) = int j"
    unfolding mergeIndex_def idx using j i len by (auto split: if_splits)
  show ?thesis using closeSplit_at_index[OF f at ix sj] i gi sj ij all dq by simp
qed

lemma filter_after_update:
  assumes d: "distinct (getAllTabWidgets (SplitterInfo ori ks))"
    and a: "a < length ks" and b: "b < length ks" and ab: "a \<noteq> b"
    and ga: "ks ! a = TabWidgetInfo n"
    and idm: "getAllTabWidgets m = getAllTabWidgets (ks ! b)"
  shows "filter (notSameNode n) (ks[b := m]) = take a (ks[b := m]) @ drop (Suc a) (ks[b := m])"
proof (rule filter_notSameNode)
  show "distinct (getAllTabWidgets (SplitterInfo ori (ks[b := m])))"
    using d ids_list_update[OF b idm, of ori] by simp
  show "a < length (ks[b := m])" using a by simp
  show "ks[b := m] ! a = TabWidgetInfo n" using ga ab by simp
qed

lemma list_all_take_drop:
  "list_all P ks \<Longrightarrow> P m \<Longrightarrow> list_all P (take j ks @ [m] @ drop k ks)"
  by (auto simp: list_all_iff dest: in_set_takeD in_set_dropD)

lemma closeTabWidgetSplitterSplit_absorb:
  "closeTabWidgetSplitterSplit s q ori ks n j sub =
     (case absorb sub (children n) of
        None \<Rightarrow> Inl (TypeError, s)
      | Some m \<Rightarrow> Inr ((), removeRedundantSplitters
           (s\<lparr>rootInfoNode := updAt q (setKids ori (filter (notSameNode n) (ks[j := m]))) (rootInfoNode s)\<rparr>)))"
  by (simp add: closeTabWidgetSplitterSplit_def absorb_def Let_def split: option.splits)

lemma closeSplit_result:
  assumes w: "wellSplit (rootInfoNode s)" and d: "distinct (getAllTabWidgets (rootInfoNode s))"
    and f: "findPathToTabContent (rootInfoNode s) c = Some (q @ [i], g, r)"
    and at: "nodeAt q (rootInfoNode s) = Some (SplitterInfo ori ks)"
    and j: "j = (if Suc i = length ks then i - 1 else i)"
  shows "\<exists>m. mergePair (ks ! j) (ks ! Suc j) = Some m \<and> wellSplit m
     \<and> closeSplitAtTabContent s c =
         Inr ((), s\<lparr>rootInfoNode :=
            updAt q (\<lambda>_. collapsed ori (take j ks @ [m] @ drop (j + 2) ks)) (rootInfoNode s)\<rparr>)"
proof -
  note u = closeSplit_unfold[OF w d f at j]
  from u have i: "i < length ks" and gi: "ks ! i = TabWidgetInfo g" and sj: "Suc j < length ks"
    and ij: "i = j \<or> i = Suc j" and all: "list_all wellSplit ks"
    and dq: "distinct (getAllTabWidgets (SplitterInfo ori ks))" by simp_all
  have jl: "j < length ks" using sj by simp
  have wj: "wellSplit (ks ! j)" and wsj: "wellSplit (ks ! Suc j)"
    using all sj by (simp_all add: list_all_length)
  have fin: "\<And>m. wellSplit m \<Longrightarrow>
      removeRedundantSplitters (s\<lparr>rootInfoNode :=
          updAt q (setKids ori (take j ks @ [m] @ drop (j + 2) ks)) (rootInfoNode s)\<rparr>)
      = s\<lparr>rootInfoNode := updAt q (\<lambda>_. collapsed ori (take j ks @ [m] @ drop (j + 2) ks)) (rootInfoNode s)\<rparr>"
    using removeRedundantSplitters_updAt[OF w at] list_all_take_drop[OF all] by simp
  show ?thesis
  proof (cases "ks ! j")
    case (TabWidgetInfo l)
    note L = this
    show ?thesis
    proof (cases "ks ! Suc j")
      case (TabWidgetInfo rr)
      let ?m = "InfoNode.TabWidgetInfo (l\<lparr>children := children l @ children rr\<rparr>)"
      have idm: "getAllTabWidgets ?m = getAllTabWidgets (ks ! j)" using L by simp
      have "filter (notSameNode rr) (ks[j := ?m]) = take (Suc j) (ks[j := ?m]) @ drop (Suc (Suc j)) (ks[j := ?m])"
        using filter_after_update[OF dq sj jl _ TabWidgetInfo idm] by simp
      then have fl: "filter (notSameNode rr) (ks[j := ?m]) = take j ks @ [?m] @ drop (j + 2) ks"
        using take_drop_update_left[OF sj] by simp
      have "closeSplitAtTabContent s c = Inr ((), removeRedundantSplitters
          (s\<lparr>rootInfoNode := updAt q (setKids ori (take j ks @ [?m] @ drop (j + 2) ks)) (rootInfoNode s)\<rparr>))"
        using u L TabWidgetInfo fl by simp
      then show ?thesis using fin[of ?m] L TabWidgetInfo by simp
    next
      case (SplitterInfo ro rks)
      then have ieq: "i = j" using ij gi by auto
      then have lg: "l = g" using L gi by simp
      from absorb_wellSplit[OF wsj, of "children l"] obtain m where
        ab: "absorb (ks ! Suc j) (children l) = Some m" and wm: "wellSplit m"
        and idm: "getAllTabWidgets m = getAllTabWidgets (ks ! Suc j)" by blast
      have "filter (notSameNode l) (ks[Suc j := m]) = take j (ks[Suc j := m]) @ drop (Suc j) (ks[Suc j := m])"
        using filter_after_update[OF dq jl sj _ L idm] by simp
      then have fl: "filter (notSameNode l) (ks[Suc j := m]) = take j ks @ [m] @ drop (j + 2) ks"
        using take_drop_update_right[OF sj] by simp
      have "closeSplitAtTabContent s c = Inr ((), removeRedundantSplitters
          (s\<lparr>rootInfoNode := updAt q (setKids ori (take j ks @ [m] @ drop (j + 2) ks)) (rootInfoNode s)\<rparr>))"
        using u L SplitterInfo ab[unfolded SplitterInfo] fl
        by (simp add: closeTabWidgetSplitterSplit_absorb)
      then show ?thesis using fin[OF wm] L SplitterInfo ab wm by simp
    qed
  next
    case (SplitterInfo lo lks)
    note L = this
    show ?thesis
    proof (cases "ks ! Suc j")
      case (TabWidgetInfo rr)
      from absorb_wellSplit[OF wj, of "children rr"] obtain m where
        ab: "absorb (ks ! j) (children rr) = Some m" and wm: "wellSplit m"
        and idm: "getAllTabWidgets m = getAllTabWidgets (ks ! j)" by blast
      have "filter (notSameNode rr) (ks[j := m]) = take (Suc j) (ks[j := m]) @ drop (Suc (Suc j)) (ks[j := m])"
        using filter_after_update[OF dq sj jl _ TabWidgetInfo idm] by simp
      then have fl: "filter (notSameNode rr) (ks[j := m]) = take j ks @ [m] @ drop (j + 2) ks"
        using take_drop_update_left[OF sj] by simp
      have "closeSplitAtTabContent s c = Inr ((), removeRedundantSplitters
          (s\<lparr>rootInfoNode := updAt q (setKids ori (take j ks @ [m] @ drop (j + 2) ks)) (rootInfoNode s)\<rparr>))"
        using u L TabWidgetInfo ab[unfolded L] fl
        by (simp add: closeTabWidgetSplitterSplit_absorb)
      then show ?thesis using fin[OF wm] L TabWidgetInfo ab wm by simp
    next
      case (SplitterInfo ro rks)
      then show ?thesis using ij gi L by auto
    qed
  qed
qed

lemma findPathToTabWidget_at:
  "distinct (getAllTabWidgets t) \<Longrightarrow> nodeAt p t = Some (TabWidgetInfo n) \<Longrightarrow>
   findPathToTabWidget t (tabWidget n) = Some p"
  by (simp add: findPathToTabWidget_eq findTabWidgetInfoByTabWidget_at)

lemma splitAfterTabWidget_root:
  assumes "rootInfoNode s = TabWidgetInfo g"
  shows "splitAfterTabWidget s (tabWidget g) axis =
    (Some (tabWidgetIdCounter s + 1),
     s\<lparr>tabWidgetIdCounter := tabWidgetIdCounter s + 1,
       rootInfoNode := SplitterInfo axis
          [TabWidgetInfo g, TabWidgetInfo (newGroup (tabWidgetIdCounter s + 1) [])]\<rparr>)"
  using assms
  by (simp add: splitAfterTabWidget_def splitAfterTabWidgetIntoSplitter_def createTabWidgetInfo_def
      newGroup_def Let_def)

lemma splitAfterTabWidget_child:
  assumes d: "distinct (getAllTabWidgets (rootInfoNode s))"
    and at: "nodeAt q (rootInfoNode s) = Some (SplitterInfo ori ks)"
    and i: "i < length ks" and gi: "ks ! i = TabWidgetInfo g"
  shows "splitAfterTabWidget s (tabWidget g) axis =
    (Some (tabWidgetIdCounter s + 1),
     s\<lparr>tabWidgetIdCounter := tabWidgetIdCounter s + 1,
       rootInfoNode := updAt q (setKids ori
          (if ori = axis
           then take (Suc i) ks @ [TabWidgetInfo (newGroup (tabWidgetIdCounter s + 1) [])] @ drop (Suc i) ks
           else ks[i := SplitterInfo axis
                  [TabWidgetInfo g, TabWidgetInfo (newGroup (tabWidgetIdCounter s + 1) [])]]))
         (rootInfoNode s)\<rparr>)"
proof -
  have leaf: "nodeAt (q @ [i]) (rootInfoNode s) = Some (TabWidgetInfo g)"
    using nodeAt_child[OF at, of i] i gi by simp
  have path: "findPathToTabWidget (rootInfoNode s) (tabWidget g) = Some (q @ [i])"
    using d leaf by (rule findPathToTabWidget_at)
  have dq: "distinct (getAllTabWidgets (SplitterInfo ori ks))" using d at by (rule ids_distinct_nodeAt)
  have idx: "indexOfNode ks (tabWidget g) = int i" using dq i gi by (rule indexOfNode_at)
  show ?thesis
    unfolding splitAfterTabWidget_def path
    by (simp add: at leaf idx splice_insert[OF i] splice_replace[OF i]
        splitAfterTabWidgetIntoSplitter_def createTabWidgetInfo_def newGroup_def Let_def)
qed

lemma splitAfterTabWidget_absent:
  "w \<notin> set (getAllTabWidgets (rootInfoNode s)) \<Longrightarrow>
   splitAfterTabWidget s w axis = (None, severe ''Unable to find the info for tab widget '' s)"
  by (simp add: splitAfterTabWidget_def findPathToTabWidget_eq findTabWidgetInfoByTabWidget_None)

lemma splitterCount_updAt:
  "nodeAt q t = Some x \<Longrightarrow> splitterCount (updAt q f t) + splitterCount x = splitterCount t + splitterCount (f x)"
proof (induction q arbitrary: t)
  case Nil
  then show ?case by simp
next
  case (Cons i q)
  then obtain ori ks where t: "t = SplitterInfo ori ks" and i: "i < length ks"
    and sub: "nodeAt q (ks ! i) = Some x"
    by (cases t) (auto split: if_splits)
  let ?A = "sum_list (map splitterCount (take i ks))" and ?B = "sum_list (map splitterCount (drop (Suc i) ks))"
  have a: "sum_list (map splitterCount ks) = ?A + splitterCount (ks ! i) + ?B"
    using id_take_nth_drop[OF i] by (metis append_Cons append_Nil list.simps(9) map_append sum_list.Cons sum_list_append add.assoc)
  have b: "sum_list (map splitterCount (ks[i := updAt q f (ks ! i)])) = ?A + splitterCount (updAt q f (ks ! i)) + ?B"
    using i by (simp add: upd_conv_take_nth_drop)
  show ?case using Cons.IH[OF sub] t i a b by simp
qed

lemma splitterCount_insert_leaf:
  "splitterCount (SplitterInfo ori (take k ks @ [TabWidgetInfo n] @ drop k ks)) = splitterCount (SplitterInfo ori ks)"
proof -
  have "sum_list (map splitterCount (take k ks)) + sum_list (map splitterCount (drop k ks))
      = sum_list (map splitterCount ks)"
    by (metis append_take_drop_id map_append sum_list_append)
  then show ?thesis by simp
qed

lemma onceSplit_root:
  "rootInfoNode onceSplit = SplitterInfo VERTICAL
     [TabWidgetInfo (newGroup 1 [\<lparr>ref = 0, tab = CallerTab 1, content = 101\<rparr>]), TabWidgetInfo (newGroup 2 [])]"
  "tabWidgetIdCounter onceSplit = 2"
  by (simp_all add: onceSplit_def appendTab_def splitAfterTabWidget_def newSplitLayout_def
      splitAfterTabWidgetIntoSplitter_def createTabWidgetInfo_def setChildren_def newGroup_def)

lemma twoGroups_root:
  "rootInfoNode twoGroups = SplitterInfo VERTICAL
     [TabWidgetInfo (newGroup 1 [\<lparr>ref = 0, tab = CallerTab 1, content = 101\<rparr>]),
      TabWidgetInfo (newGroup 2 [\<lparr>ref = 1, tab = CallerTab 2, content = 102\<rparr>])]"
  by (simp add: twoGroups_def appendTab_def onceSplit_root onceSplit_def splitAfterTabWidget_def newSplitLayout_def
      splitAfterTabWidgetIntoSplitter_def createTabWidgetInfo_def setChildren_def newGroup_def)


lemma distinct_sub_mset: "distinct ys \<Longrightarrow> mset xs \<subseteq># mset ys \<Longrightarrow> distinct xs"
proof -
  assume d: "distinct ys" and s: "mset xs \<subseteq># mset ys"
  have "\<forall>a. count (mset xs) a = (if a \<in> set xs then 1 else 0)"
  proof
    fix a
    have le: "count (mset xs) a \<le> count (mset ys) a" using s by (simp add: mset_subset_eq_count)
    have ys: "count (mset ys) a \<le> 1" using d by (simp add: distinct_count_atmost_1)
    show "count (mset xs) a = (if a \<in> set xs then 1 else 0)"
    proof (cases "a \<in> set xs")
      case True
      then have "0 < count (mset xs) a" by simp
      then have "count (mset xs) a = 1" using le ys by linarith
      then show ?thesis using True by simp
    next
      case False
      then show ?thesis by (simp add: count_eq_zero_iff)
    qed
  qed
  then show ?thesis using distinct_count_atmost_1[of xs] by blast
qed

lemma set_sub_mset: "mset xs \<subseteq># mset ys \<Longrightarrow> set xs \<subseteq> set ys"
  by (metis set_mset_mono set_mset_mset)

lemma severe_fields [simp]:
  "rootInfoNode (severe m s) = rootInfoNode s"
  "tabWidgetIdCounter (severe m s) = tabWidgetIdCounter s"
  "objCounter (severe m s) = objCounter s"
  "tabIdCounter (severe m s) = tabIdCounter s"
  "emptySplitFactory (severe m s) = emptySplitFactory s"
  "factoryCalls (severe m s) = factoryCalls s"
  by (simp_all add: severe_def)

lemma layoutInv_severe [simp]: "layoutInv (severe m s) = layoutInv s"
  by (simp add: layoutInv_def namesOk_def)

text \<open>A step that creates no name keeps the names faithful.\<close>

lemma namesOk_sub:
  assumes n: "namesOk s"
    and c1: "tabWidgetIdCounter s \<le> tabWidgetIdCounter s'" and c2: "objCounter s \<le> objCounter s'"
    and i: "mset (getAllTabWidgets (rootInfoNode s')) \<subseteq># mset (getAllTabWidgets (rootInfoNode s))"
    and r: "mset (allTabInfos (rootInfoNode s')) \<subseteq># mset (allTabInfos (rootInfoNode s))"
  shows "namesOk s'"
proof -
  have d1: "distinct (getAllTabWidgets (rootInfoNode s'))"
    using n i by (auto simp: namesOk_def intro: distinct_sub_mset)
  have "mset (map ref (allTabInfos (rootInfoNode s'))) \<subseteq># mset (map ref (allTabInfos (rootInfoNode s)))"
    using r by (simp add: image_mset_subseteq_mono)
  then have d2: "distinct (map ref (allTabInfos (rootInfoNode s')))"
    using n by (auto simp: namesOk_def intro: distinct_sub_mset)
  have b1: "list_all (\<lambda>w. w \<le> tabWidgetIdCounter s') (getAllTabWidgets (rootInfoNode s'))"
    using n c1 set_sub_mset[OF i] by (fastforce simp: namesOk_def list_all_iff)
  have b2: "list_all (\<lambda>i. ref i < objCounter s') (allTabInfos (rootInfoNode s'))"
    using n c2 set_sub_mset[OF r] by (fastforce simp: namesOk_def list_all_iff)
  show ?thesis using d1 d2 b1 b2 by (simp add: namesOk_def)
qed

text \<open>A step that creates one group with the next widget id and keeps the slots.\<close>

lemma namesOk_new_group:
  assumes n: "namesOk s"
    and c1: "tabWidgetIdCounter s' = tabWidgetIdCounter s + 1" and c2: "objCounter s' = objCounter s"
    and i: "mset (getAllTabWidgets (rootInfoNode s'))
              = mset (getAllTabWidgets (rootInfoNode s)) + {#tabWidgetIdCounter s + 1#}"
    and r: "mset (allTabInfos (rootInfoNode s')) = mset (allTabInfos (rootInfoNode s))"
  shows "namesOk s'"
proof -
  let ?c = "tabWidgetIdCounter s + 1"
  have fresh: "?c \<notin> set (getAllTabWidgets (rootInfoNode s))"
    using n by (fastforce simp: namesOk_def list_all_iff)
  have "mset (getAllTabWidgets (rootInfoNode s')) = mset (?c # getAllTabWidgets (rootInfoNode s))"
    using i by simp
  then have d1: "distinct (getAllTabWidgets (rootInfoNode s'))"
    and st: "set (getAllTabWidgets (rootInfoNode s')) = set (?c # getAllTabWidgets (rootInfoNode s))"
  proof -
    assume e: "mset (getAllTabWidgets (rootInfoNode s')) = mset (?c # getAllTabWidgets (rootInfoNode s))"
    have "distinct (?c # getAllTabWidgets (rootInfoNode s))" using n fresh by (simp add: namesOk_def)
    then show "distinct (getAllTabWidgets (rootInfoNode s'))" using mset_eq_imp_distinct_iff[OF e] by simp
    show "set (getAllTabWidgets (rootInfoNode s')) = set (?c # getAllTabWidgets (rootInfoNode s))"
      using e by (rule mset_eq_setD)
  qed
  have b1: "list_all (\<lambda>w. w \<le> tabWidgetIdCounter s') (getAllTabWidgets (rootInfoNode s'))"
    using n c1 st by (fastforce simp: namesOk_def list_all_iff)
  have "mset (map ref (allTabInfos (rootInfoNode s'))) = mset (map ref (allTabInfos (rootInfoNode s)))"
    using r by simp
  then have "distinct (map ref (allTabInfos (rootInfoNode s'))) = distinct (map ref (allTabInfos (rootInfoNode s)))"
    by (rule mset_eq_imp_distinct_iff)
  then have d2: "distinct (map ref (allTabInfos (rootInfoNode s')))"
    using n by (simp add: namesOk_def)
  have "set (allTabInfos (rootInfoNode s')) = set (allTabInfos (rootInfoNode s))"
    using r by (rule mset_eq_setD)
  then have b2: "list_all (\<lambda>i. ref i < objCounter s') (allTabInfos (rootInfoNode s'))"
    using n c2 by (simp add: namesOk_def list_all_iff)
  show ?thesis using d1 d2 b1 b2 by (simp add: namesOk_def)
qed

lemma mset_concat_insert:
  "mset (concat (map f (take k ks @ [x] @ drop k ks))) = mset (concat (map f ks)) + mset (f x)"
proof -
  have "mset (concat (map f (take k ks))) + mset (concat (map f (drop k ks))) = mset (concat (map f ks))"
    by (metis append_take_drop_id concat_append map_append mset_append)
  then show ?thesis by simp
qed

lemma mset_concat_update:
  "i < length ks \<Longrightarrow>
   mset (concat (map f (ks[i := y]))) + mset (f (ks ! i)) = mset (concat (map f ks)) + mset (f y)"
  using concat_map_upd[of i ks f y] concat_map_nth[of i ks f] by simp

lemma mset_ids_updAt:
  "nodeAt q t = Some x \<Longrightarrow>
   mset (getAllTabWidgets (updAt q f t)) + mset (getAllTabWidgets x)
     = mset (getAllTabWidgets t) + mset (getAllTabWidgets (f x))"
  using ids_updAt[of q t x] by auto

lemma mset_infos_updAt:
  "nodeAt q t = Some x \<Longrightarrow>
   mset (allTabInfos (updAt q f t)) + mset (allTabInfos x)
     = mset (allTabInfos t) + mset (allTabInfos (f x))"
  using infos_updAt[of q t x] by auto

lemma ids_in_tree: "w \<in> set (getAllTabWidgets t) \<Longrightarrow> \<exists>p g. nodeAt p t = Some (TabWidgetInfo g) \<and> tabWidget g = w"
proof -
  assume "w \<in> set (getAllTabWidgets t)"
  then obtain g where "g \<in> set (leaves t)" "tabWidget g = w" by (auto simp: getAllTabWidgets_leaves)
  then show ?thesis using leaves_nodeAt by blast
qed

lemma leaf_update:
  assumes a: "nodeAt p t = Some (TabWidgetInfo n)"
  shows "wellSplit t \<Longrightarrow> wellSplit (updAt p (setChildren n kids) t)"
    and "getAllTabWidgets (updAt p (setChildren n kids) t) = getAllTabWidgets t"
    and "mset (allTabInfos (updAt p (setChildren n kids) t)) + mset (children n)
           = mset (allTabInfos t) + mset kids"
proof -
  show "wellSplit t \<Longrightarrow> wellSplit (updAt p (setChildren n kids) t)"
    using a by (rule wellSplit_updAt[rotated]) (simp_all add: setChildren_def)
  show "getAllTabWidgets (updAt p (setChildren n kids) t) = getAllTabWidgets t"
    using a by (rule ids_updAt_same) (simp add: setChildren_def)
  show "mset (allTabInfos (updAt p (setChildren n kids) t)) + mset (children n)
           = mset (allTabInfos t) + mset kids"
    using mset_infos_updAt[OF a, of "setChildren n kids"] by (simp add: setChildren_def)
qed

lemma appendTab_inv:
  assumes inv: "layoutInv s"
  shows "layoutInv (appendTab s w t c)"
    and "mset (getAllTabContents (rootInfoNode (appendTab s w t c)))
           \<subseteq># mset (getAllTabContents (rootInfoNode s)) + {#c#}"
proof -
  have "layoutInv (appendTab s w t c) \<and> mset (getAllTabContents (rootInfoNode (appendTab s w t c)))
           \<subseteq># mset (getAllTabContents (rootInfoNode s)) + {#c#}"
  proof (cases "findTabWidgetInfoByTabWidget (rootInfoNode s) w")
    case None
    then show ?thesis using inv by (simp add: appendTab_def)
  next
    case (Some r)
    then obtain p info where r: "r = (p, info)" by (cases r) auto
    then have a: "nodeAt p (rootInfoNode s) = Some (TabWidgetInfo info)"
      using findTabWidgetInfoByTabWidget_Some Some by blast
    let ?new = "\<lparr>ref = objCounter s, tab = t, content = c\<rparr>"
    let ?root = "updAt p (setChildren info (children info @ [?new])) (rootInfoNode s)"
    let ?s = "s\<lparr>rootInfoNode := ?root, objCounter := objCounter s + 1\<rparr>"
    have run: "appendTab s w t c = ?s" using Some r by (simp add: appendTab_def)
    note l = leaf_update[OF a, of "children info @ [?new]"]
    have ws: "wellSplit ?root" using inv l(1) by (simp add: layoutInv_def)
    have ms: "mset (allTabInfos ?root) = mset (allTabInfos (rootInfoNode s)) + {#?new#}"
      using l(3) by simp
    have fresh: "objCounter s \<notin> ref ` set (allTabInfos (rootInfoNode s))"
      using inv by (fastforce simp: layoutInv_def namesOk_def list_all_iff)
    have "mset (map ref (allTabInfos ?root)) = mset (map ref (?new # allTabInfos (rootInfoNode s)))"
      using ms by simp
    then have "distinct (map ref (allTabInfos ?root)) = distinct (map ref (?new # allTabInfos (rootInfoNode s)))"
      by (rule mset_eq_imp_distinct_iff)
    then have d2: "distinct (map ref (allTabInfos ?root))"
      using inv fresh by (simp add: layoutInv_def namesOk_def)
    have "set (allTabInfos ?root) = set (?new # allTabInfos (rootInfoNode s))"
      using ms by (intro mset_eq_setD) simp
    then have b2: "list_all (\<lambda>i. ref i < objCounter s + 1) (allTabInfos ?root)"
      using inv by (fastforce simp: layoutInv_def namesOk_def list_all_iff)
    have "namesOk ?s" using inv l(2) d2 b2 by (simp add: layoutInv_def namesOk_def)
    then have i1: "layoutInv ?s" using ws by (simp add: layoutInv_def)
    have "mset (getAllTabContents ?root) = mset (getAllTabContents (rootInfoNode s)) + {#c#}"
      unfolding getAllTabContents_leaves mset_map ms by simp
    then show ?thesis using run i1 by simp
  qed
  then show "layoutInv (appendTab s w t c)"
    and "mset (getAllTabContents (rootInfoNode (appendTab s w t c)))
           \<subseteq># mset (getAllTabContents (rootInfoNode s)) + {#c#}" by simp_all
qed

lemma removeTabContent_inv:
  assumes inv: "layoutInv s"
  shows "layoutInv (removeTabContent s c)"
    and "mset (allTabInfos (rootInfoNode (removeTabContent s c))) \<subseteq># mset (allTabInfos (rootInfoNode s))"
proof -
  have "layoutInv (removeTabContent s c)
     \<and> mset (allTabInfos (rootInfoNode (removeTabContent s c))) \<subseteq># mset (allTabInfos (rootInfoNode s))"
  proof (cases "findPathToTabContent (rootInfoNode s) c")
    case None
    then show ?thesis using inv by (simp add: removeTabContent_def findTabWidgetInfoByTabContent_eq)
  next
    case (Some r)
    then obtain p info ti where r: "r = (p, info, ti)" by (cases r) auto
    then have a: "nodeAt p (rootInfoNode s) = Some (TabWidgetInfo info)"
      using findPathToTabContent_Some Some by blast
    let ?kids = "filter (notSameTabInfo ti) (children info)"
    let ?root = "updAt p (setChildren info ?kids) (rootInfoNode s)"
    have run: "removeTabContent s c = s\<lparr>rootInfoNode := ?root\<rparr>"
      using Some r by (simp add: removeTabContent_def findTabWidgetInfoByTabContent_eq)
    note l = leaf_update[OF a, of ?kids]
    have k: "mset ?kids \<subseteq># mset (children info)" by simp
    have sub: "mset (allTabInfos ?root) \<subseteq># mset (allTabInfos (rootInfoNode s))"
    proof -
      have "mset (allTabInfos ?root) + mset (children info)
          = mset (allTabInfos (rootInfoNode s)) + mset ?kids" by (rule l(3))
      also have "\<dots> \<subseteq># mset (allTabInfos (rootInfoNode s)) + mset (children info)"
        using k by (rule subset_mset.add_left_mono)
      finally show ?thesis by (simp only: subset_mset.add_le_cancel_right)
    qed
    have n: "namesOk s" and w: "wellSplit (rootInfoNode s)" using inv by (simp_all add: layoutInv_def)
    have "namesOk (s\<lparr>rootInfoNode := ?root\<rparr>)"
    proof (rule namesOk_sub[OF n])
      show "tabWidgetIdCounter s \<le> tabWidgetIdCounter (s\<lparr>rootInfoNode := ?root\<rparr>)" by simp
      show "objCounter s \<le> objCounter (s\<lparr>rootInfoNode := ?root\<rparr>)" by simp
      show "mset (getAllTabWidgets (rootInfoNode (s\<lparr>rootInfoNode := ?root\<rparr>)))
          \<subseteq># mset (getAllTabWidgets (rootInfoNode s))" using l(2) by simp
      show "mset (allTabInfos (rootInfoNode (s\<lparr>rootInfoNode := ?root\<rparr>)))
          \<subseteq># mset (allTabInfos (rootInfoNode s))" using sub by simp
    qed
    moreover have "wellSplit ?root" using w by (rule l(1))
    ultimately have "layoutInv (s\<lparr>rootInfoNode := ?root\<rparr>)" by (simp add: layoutInv_def)
    then show ?thesis unfolding run using sub by simp
  qed
  then show "layoutInv (removeTabContent s c)"
    and "mset (allTabInfos (rootInfoNode (removeTabContent s c))) \<subseteq># mset (allTabInfos (rootInfoNode s))"
    by simp_all
qed

lemma kids_update:
  assumes at: "nodeAt q t = Some (SplitterInfo ori ks)"
  shows "wellSplit t \<Longrightarrow> 2 \<le> length K \<Longrightarrow> list_all wellSplit K \<Longrightarrow> wellSplit (updAt q (setKids ori' K) t)"
    and "mset (getAllTabWidgets (updAt q (setKids ori' K) t)) + mset (concat (map getAllTabWidgets ks))
           = mset (getAllTabWidgets t) + mset (concat (map getAllTabWidgets K))"
    and "mset (allTabInfos (updAt q (setKids ori' K) t)) + mset (concat (map allTabInfos ks))
           = mset (allTabInfos t) + mset (concat (map allTabInfos K))"
proof -
  show "wellSplit t \<Longrightarrow> 2 \<le> length K \<Longrightarrow> list_all wellSplit K \<Longrightarrow> wellSplit (updAt q (setKids ori' K) t)"
    using at by (rule wellSplit_updAt[rotated]) (simp_all add: setKids_def)
  show "mset (getAllTabWidgets (updAt q (setKids ori' K) t)) + mset (concat (map getAllTabWidgets ks))
           = mset (getAllTabWidgets t) + mset (concat (map getAllTabWidgets K))"
    using mset_ids_updAt[OF at, of "setKids ori' K"] by (simp add: setKids_def)
  show "mset (allTabInfos (updAt q (setKids ori' K) t)) + mset (concat (map allTabInfos ks))
           = mset (allTabInfos t) + mset (concat (map allTabInfos K))"
    using mset_infos_updAt[OF at, of "setKids ori' K"] by (simp add: setKids_def)
qed

lemma list_all_update: "list_all P ks \<Longrightarrow> P y \<Longrightarrow> list_all P (ks[i := y])"
proof -
  assume a: "list_all P ks" and y: "P y"
  have "set (ks[i := y]) \<subseteq> insert y (set ks)" by (rule set_update_subset_insert)
  then show ?thesis using a y by (auto simp: list_all_iff)
qed

lemma slotsKept_refl [simp]: "slotsKept s s"
  by (simp add: slotsKept_def)

lemma slotsKept_severe [simp]: "slotsKept s (severe m s)"
  by (simp add: slotsKept_def)

lemma slotsKept_trans: "slotsKept a b \<Longrightarrow> slotsKept b c \<Longrightarrow> slotsKept a c"
  by (simp add: slotsKept_def)

text \<open>A split step: one new group with the next id, same slots.\<close>

lemma split_step_inv:
  assumes inv: "layoutInv s"
    and ws: "wellSplit root'"
    and i: "mset (getAllTabWidgets root')
              = mset (getAllTabWidgets (rootInfoNode s)) + {#tabWidgetIdCounter s + 1#}"
    and r: "mset (allTabInfos root') = mset (allTabInfos (rootInfoNode s))"
  shows "layoutInv (s\<lparr>tabWidgetIdCounter := tabWidgetIdCounter s + 1, rootInfoNode := root'\<rparr>)"
    and "slotsKept s (s\<lparr>tabWidgetIdCounter := tabWidgetIdCounter s + 1, rootInfoNode := root'\<rparr>)"
proof -
  let ?s = "s\<lparr>tabWidgetIdCounter := tabWidgetIdCounter s + 1, rootInfoNode := root'\<rparr>"
  have n: "namesOk s" using inv by (simp add: layoutInv_def)
  have "namesOk ?s"
  proof (rule namesOk_new_group[OF n])
    show "tabWidgetIdCounter ?s = tabWidgetIdCounter s + 1" by simp
    show "objCounter ?s = objCounter s" by simp
    show "mset (getAllTabWidgets (rootInfoNode ?s))
        = mset (getAllTabWidgets (rootInfoNode s)) + {#tabWidgetIdCounter s + 1#}" using i by simp
    show "mset (allTabInfos (rootInfoNode ?s)) = mset (allTabInfos (rootInfoNode s))" using r by simp
  qed
  then show "layoutInv ?s" using ws by (simp add: layoutInv_def)
  show "slotsKept s ?s" using r by (simp add: slotsKept_def)
qed

lemma splitAfterTabWidget_inv:
  assumes inv: "layoutInv s"
  shows "layoutInv (snd (splitAfterTabWidget s w axis)) \<and> slotsKept s (snd (splitAfterTabWidget s w axis))"
proof (cases "w \<in> set (getAllTabWidgets (rootInfoNode s))")
  case False
  then show ?thesis using inv by (simp add: splitAfterTabWidget_absent)
next
  case True
  then obtain p g where leaf: "nodeAt p (rootInfoNode s) = Some (TabWidgetInfo g)" and wg: "tabWidget g = w"
    using ids_in_tree by blast
  have d: "distinct (getAllTabWidgets (rootInfoNode s))" and w: "wellSplit (rootInfoNode s)"
    using inv by (simp_all add: layoutInv_def namesOk_def)
  let ?c = "tabWidgetIdCounter s + 1"
  let ?N = "TabWidgetInfo (newGroup ?c [])"
  show ?thesis
  proof (cases "p = []")
    case True
    then have root: "rootInfoNode s = TabWidgetInfo g" using leaf by simp
    let ?root = "SplitterInfo axis [TabWidgetInfo g, ?N]"
    have run: "snd (splitAfterTabWidget s w axis) = s\<lparr>tabWidgetIdCounter := ?c, rootInfoNode := ?root\<rparr>"
      using splitAfterTabWidget_root[OF root, of axis] wg by simp
    have "wellSplit ?root" by simp
    moreover have "mset (getAllTabWidgets ?root) = mset (getAllTabWidgets (rootInfoNode s)) + {#?c#}"
      using root by (simp add: newGroup_def)
    moreover have "mset (allTabInfos ?root) = mset (allTabInfos (rootInfoNode s))"
      using root by (simp add: newGroup_def)
    ultimately show ?thesis unfolding run using split_step_inv[OF inv] by blast
  next
    case False
    from nodeAt_parent[OF leaf False] obtain ori ks where
      at: "nodeAt (butlast p) (rootInfoNode s) = Some (SplitterInfo ori ks)"
      and i: "last p < length ks" and gi: "ks ! last p = TabWidgetInfo g" by blast
    let ?S = "SplitterInfo axis [TabWidgetInfo g, ?N]"
    let ?K = "if ori = axis then take (Suc (last p)) ks @ [?N] @ drop (Suc (last p)) ks else ks[last p := ?S]"
    let ?root = "updAt (butlast p) (setKids ori ?K) (rootInfoNode s)"
    have run: "snd (splitAfterTabWidget s w axis) = s\<lparr>tabWidgetIdCounter := ?c, rootInfoNode := ?root\<rparr>"
      using splitAfterTabWidget_child[OF d at i gi, of axis] wg by simp
    have wq: "wellSplit (SplitterInfo ori ks)" using w at by (rule wellSplit_nodeAt)
    then have len: "2 \<le> length ks" and all: "list_all wellSplit ks" by simp_all
    have lenK: "2 \<le> length ?K" using len i by simp
    have allK: "list_all wellSplit ?K"
    proof (cases "ori = axis")
      case True
      then show ?thesis using list_all_take_drop[OF all, of ?N] by simp
    next
      case False
      have "list_all wellSplit (ks[last p := ?S])"
        using all by (rule list_all_update) simp
      then show ?thesis using False by simp
    qed
    have idsK: "mset (concat (map getAllTabWidgets ?K)) = mset (concat (map getAllTabWidgets ks)) + {#?c#}"
    proof (cases "ori = axis")
      case True
      then show ?thesis using mset_concat_insert[of getAllTabWidgets "Suc (last p)" ks ?N]
        by (simp add: newGroup_def)
    next
      case False
      then show ?thesis using mset_concat_update[OF i, of getAllTabWidgets ?S] gi
        by (simp add: newGroup_def)
    qed
    have infosK: "mset (concat (map allTabInfos ?K)) = mset (concat (map allTabInfos ks))"
    proof (cases "ori = axis")
      case True
      then show ?thesis using mset_concat_insert[of allTabInfos "Suc (last p)" ks ?N]
        by (simp add: newGroup_def)
    next
      case False
      then show ?thesis using mset_concat_update[OF i, of allTabInfos ?S] gi
        by (simp add: newGroup_def)
    qed
    note k = kids_update[OF at, where K = ?K and ori' = ori]
    have "wellSplit ?root" using w lenK allK by (rule k(1))
    moreover have "mset (getAllTabWidgets ?root) = mset (getAllTabWidgets (rootInfoNode s)) + {#?c#}"
      using k(2) idsK by simp
    moreover have "mset (allTabInfos ?root) = mset (allTabInfos (rootInfoNode s))"
      using k(3) infosK by simp
    ultimately show ?thesis unfolding run using split_step_inv[OF inv] by blast
  qed
qed

lemma mset_sub_cancel:
  fixes A B X Y :: "'a multiset"
  assumes e: "A + X = B + Y" and s: "Y \<subseteq># X"
  shows "A \<subseteq># B"
proof -
  have "A + X = B + Y" by (rule e)
  also have "\<dots> \<subseteq># B + X" using s by (rule subset_mset.add_left_mono)
  finally show ?thesis by (simp only: subset_mset.add_le_cancel_right)
qed

lemma sub_step_inv:
  assumes inv: "layoutInv s"
    and ws: "wellSplit root'"
    and i: "mset (getAllTabWidgets root') \<subseteq># mset (getAllTabWidgets (rootInfoNode s))"
    and r: "mset (allTabInfos root') = mset (allTabInfos (rootInfoNode s))"
  shows "layoutInv (s\<lparr>rootInfoNode := root'\<rparr>)" and "slotsKept s (s\<lparr>rootInfoNode := root'\<rparr>)"
proof -
  have n: "namesOk s" using inv by (simp add: layoutInv_def)
  have "namesOk (s\<lparr>rootInfoNode := root'\<rparr>)"
  proof (rule namesOk_sub[OF n])
    show "tabWidgetIdCounter s \<le> tabWidgetIdCounter (s\<lparr>rootInfoNode := root'\<rparr>)" by simp
    show "objCounter s \<le> objCounter (s\<lparr>rootInfoNode := root'\<rparr>)" by simp
    show "mset (getAllTabWidgets (rootInfoNode (s\<lparr>rootInfoNode := root'\<rparr>)))
        \<subseteq># mset (getAllTabWidgets (rootInfoNode s))" using i by simp
    show "mset (allTabInfos (rootInfoNode (s\<lparr>rootInfoNode := root'\<rparr>)))
        \<subseteq># mset (allTabInfos (rootInfoNode s))" using r by simp
  qed
  then show "layoutInv (s\<lparr>rootInfoNode := root'\<rparr>)" using ws by (simp add: layoutInv_def)
  show "slotsKept s (s\<lparr>rootInfoNode := root'\<rparr>)" using r by (simp add: slotsKept_def)
qed

lemma moveTab_found_inv:
  assumes inv: "layoutInv s"
    and src: "findTabWidgetInfoByTab (rootInfoNode s) t = Some (sp, source, Some tabInfo)"
    and tgt: "findTabWidgetInfoByTabWidget (rootInfoNode s) w = Some (tp, target)"
  shows "\<exists>s'. moveTabToTabWidget s t w i = Inr ((), s') \<and> layoutInv s' \<and> slotsKept s s'"
proof -
  have d: "distinct (map ref (allTabInfos (rootInfoNode s)))" and ws: "wellSplit (rootInfoNode s)"
    using inv by (simp_all add: layoutInv_def namesOk_def)
  note c = moveTab_common[OF d src tgt]
  from moveTab_keeps[OF d src tgt, of i] obtain s' where
    run: "moveTabToTabWidget s t w i = Inr ((), s')"
    and ms: "mset (allTabInfos (rootInfoNode s')) = mset (allTabInfos (rootInfoNode s))" by blast
  have "\<exists>root'. s' = s\<lparr>rootInfoNode := root'\<rparr> \<and> wellSplit root'
      \<and> getAllTabWidgets root' = getAllTabWidgets (rootInfoNode s)"
  proof (cases "sp = tp")
    case True
    let ?X = "remove1 tabInfo (take (moveIndex i (length (children source))) (children source)) @ [tabInfo]
                 @ remove1 tabInfo (drop (moveIndex i (length (children source))) (children source))"
    have "s' = s\<lparr>rootInfoNode := updAt sp (setChildren source ?X) (rootInfoNode s)\<rparr>"
      using moveTab_same[OF d src tgt[folded True], of i] run by simp
    then show ?thesis using leaf_update(1,2)[OF c(1), of ?X] ws by blast
  next
    case False
    let ?Y = "remove1 tabInfo (children source)"
    let ?X = "take (moveIndex i (length (children target))) (children target) @ [tabInfo]
                 @ drop (moveIndex i (length (children target))) (children target)"
    let ?root1 = "updAt sp (setChildren source ?Y) (rootInfoNode s)"
    have e: "s' = s\<lparr>rootInfoNode := updAt tp (setChildren target ?X) ?root1\<rparr>"
      using moveTab_other[OF d src tgt False, of i] run by simp
    have t1: "nodeAt tp ?root1 = Some (TabWidgetInfo target)"
      using nodeAt_updAt_other_leaf[OF c(2) c(1)] False by simp
    have w1: "wellSplit ?root1" using ws by (rule leaf_update(1)[OF c(1)])
    have i1: "getAllTabWidgets ?root1 = getAllTabWidgets (rootInfoNode s)" by (rule leaf_update(2)[OF c(1)])
    have "wellSplit (updAt tp (setChildren target ?X) ?root1)" using w1 by (rule leaf_update(1)[OF t1])
    moreover have "getAllTabWidgets (updAt tp (setChildren target ?X) ?root1) = getAllTabWidgets (rootInfoNode s)"
      using leaf_update(2)[OF t1, of ?X] i1 by simp
    ultimately show ?thesis using e by blast
  qed
  then obtain root' where e: "s' = s\<lparr>rootInfoNode := root'\<rparr>" and w': "wellSplit root'"
    and i': "getAllTabWidgets root' = getAllTabWidgets (rootInfoNode s)" by blast
  have "mset (getAllTabWidgets root') \<subseteq># mset (getAllTabWidgets (rootInfoNode s))" using i' by simp
  moreover have "mset (allTabInfos root') = mset (allTabInfos (rootInfoNode s))" using ms e by simp
  ultimately have "layoutInv s' \<and> slotsKept s s'" unfolding e using sub_step_inv[OF inv w'] by blast
  then show ?thesis using run by blast
qed

lemma moveTab_inv:
  assumes inv: "layoutInv s"
  shows "layoutInv (after (perform s (MoveTabToTabWidget t w i)))
     \<and> slotsKept s (after (perform s (MoveTabToTabWidget t w i)))"
proof (cases "\<exists>sp source tabInfo tp target.
     findTabWidgetInfoByTab (rootInfoNode s) t = Some (sp, source, Some tabInfo)
     \<and> findTabWidgetInfoByTabWidget (rootInfoNode s) w = Some (tp, target)")
  case True
  then obtain sp source tabInfo tp target where
    "findTabWidgetInfoByTab (rootInfoNode s) t = Some (sp, source, Some tabInfo)"
    "findTabWidgetInfoByTabWidget (rootInfoNode s) w = Some (tp, target)" by blast
  from moveTab_found_inv[OF inv this, of i] show ?thesis by auto
next
  case False
  have "\<exists>e. moveTabToTabWidget s t w i = Inl (e, s)"
  proof (cases "findTabWidgetInfoByTab (rootInfoNode s) t")
    case None
    then show ?thesis by (simp add: moveTabToTabWidget_def)
  next
    case (Some r)
    then obtain sp source ti where src: "findTabWidgetInfoByTab (rootInfoNode s) t = Some (sp, source, ti)"
      by (cases r) auto
    show ?thesis
    proof (cases "findTabWidgetInfoByTabWidget (rootInfoNode s) w")
      case None
      then show ?thesis using src by (simp add: moveTabToTabWidget_def)
    next
      case (Some r')
      then obtain tp target where tgt: "findTabWidgetInfoByTabWidget (rootInfoNode s) w = Some (tp, target)"
        by (cases r') auto
      then have "ti = None" using False src by (cases ti) auto
      then show ?thesis using moveTab_placeholder[OF _ tgt, of t sp source i] src by simp
    qed
  qed
  then show ?thesis using inv by auto
qed

lemma concat_pair_split:
  "Suc j < length ks \<Longrightarrow>
   concat (map f ks) = concat (map f (take j ks)) @ f (ks ! j) @ f (ks ! Suc j) @ concat (map f (drop (j + 2) ks))"
proof -
  assume sj: "Suc j < length ks"
  then have "ks = take j ks @ ks ! j # ks ! Suc j # drop (j + 2) ks"
    by (metis Cons_nth_drop_Suc Suc_lessD add_2_eq_Suc' append_take_drop_id)
  then have "concat (map f ks) = concat (map f (take j ks @ ks ! j # ks ! Suc j # drop (j + 2) ks))"
    by simp
  then show ?thesis by simp
qed

lemma collapsed_ids: "K \<noteq> [] \<Longrightarrow> getAllTabWidgets (collapsed ori K) = concat (map getAllTabWidgets K)"
  by (cases K; cases "tl K") (auto simp: collapsed_def)

lemma collapsed_infos: "K \<noteq> [] \<Longrightarrow> allTabInfos (collapsed ori K) = concat (map allTabInfos K)"
  by (cases K; cases "tl K") (auto simp: collapsed_def)

lemma mergePair_props:
  assumes wa: "wellSplit a" and wb: "wellSplit b" and m: "mergePair a b = Some m"
  shows "mset (getAllTabWidgets m) \<subseteq># mset (getAllTabWidgets a) + mset (getAllTabWidgets b)"
    and "mset (allTabInfos m) = mset (allTabInfos a) + mset (allTabInfos b)"
proof -
  have "mset (getAllTabWidgets m) \<subseteq># mset (getAllTabWidgets a) + mset (getAllTabWidgets b)
      \<and> mset (allTabInfos m) = mset (allTabInfos a) + mset (allTabInfos b)"
  proof (cases a)
    case (TabWidgetInfo l)
    note A = this
    show ?thesis
    proof (cases b)
      case (TabWidgetInfo r)
      then show ?thesis using A m by auto
    next
      case (SplitterInfo ro rks)
      from absorb_wellSplit[OF wb, of "children l"] m A SplitterInfo
      have "getAllTabWidgets m = getAllTabWidgets b"
        and "mset (allTabInfos m) = mset (allTabInfos b) + mset (children l)" by auto
      then show ?thesis using A by simp
    qed
  next
    case (SplitterInfo lo lks)
    note A = this
    show ?thesis
    proof (cases b)
      case (TabWidgetInfo r)
      from absorb_wellSplit[OF wa, of "children r"] m A TabWidgetInfo
      have "getAllTabWidgets m = getAllTabWidgets a"
        and "mset (allTabInfos m) = mset (allTabInfos a) + mset (children r)" by auto
      then show ?thesis using TabWidgetInfo by simp
    next
      case (SplitterInfo ro rks)
      then show ?thesis using A m by simp
    qed
  qed
  then show "mset (getAllTabWidgets m) \<subseteq># mset (getAllTabWidgets a) + mset (getAllTabWidgets b)"
    and "mset (allTabInfos m) = mset (allTabInfos a) + mset (allTabInfos b)" by simp_all
qed

lemma closeSplit_inv:
  assumes inv: "layoutInv s"
  shows "layoutInv (after (perform s (CloseSplitAtTabContent c)))
     \<and> slotsKept s (after (perform s (CloseSplitAtTabContent c)))"
proof (cases "findPathToTabContent (rootInfoNode s) c")
  case None
  then show ?thesis using inv by (simp add: closeSplitAtTabContent_def)
next
  case (Some res)
  then obtain p g r where f0: "findPathToTabContent (rootInfoNode s) c = Some (p, g, r)"
    by (cases res) auto
  show ?thesis
  proof (cases "p = []")
    case True
    then have "closeSplitAtTabContent s c = Inr ((), s) \<or> closeSplitAtTabContent s c = Inl (TypeError, s)"
      using f0 by (simp add: closeSplitAtTabContent_def)
    then show ?thesis using inv by auto
  next
    case False
    have w: "wellSplit (rootInfoNode s)" and d: "distinct (getAllTabWidgets (rootInfoNode s))"
      using inv by (simp_all add: layoutInv_def namesOk_def)
    have leaf: "nodeAt p (rootInfoNode s) = Some (TabWidgetInfo g)"
      using findPathToTabContent_Some[OF f0] by simp
    from nodeAt_parent[OF leaf False] obtain ori ks where
      at: "nodeAt (butlast p) (rootInfoNode s) = Some (SplitterInfo ori ks)" by blast
    have f: "findPathToTabContent (rootInfoNode s) c = Some (butlast p @ [last p], g, r)"
      using f0 False by simp
    define j where "j = (if Suc (last p) = length ks then last p - 1 else last p)"
    from closeSplit_unfold[OF w d f at j_def] have sj: "Suc j < length ks"
      and all: "list_all wellSplit ks" by simp_all
    from closeSplit_result[OF w d f at j_def] obtain m where
      mp: "mergePair (ks ! j) (ks ! Suc j) = Some m" and wm: "wellSplit m"
      and run: "closeSplitAtTabContent s c = Inr ((), s\<lparr>rootInfoNode :=
            updAt (butlast p) (\<lambda>_. collapsed ori (take j ks @ [m] @ drop (j + 2) ks)) (rootInfoNode s)\<rparr>)"
      by blast
    let ?K = "take j ks @ [m] @ drop (j + 2) ks"
    let ?root = "updAt (butlast p) (\<lambda>_. collapsed ori ?K) (rootInfoNode s)"
    have wj: "wellSplit (ks ! j)" and wsj: "wellSplit (ks ! Suc j)"
      using all sj by (simp_all add: list_all_length)
    note mprops = mergePair_props[OF wj wsj mp]
    have allK: "list_all wellSplit ?K" using all wm by (rule list_all_take_drop)
    have wc: "wellSplit (collapsed ori ?K)" using allK by (rule collapsed_wellSplit) simp
    have wr: "wellSplit ?root" using w at wc by (rule wellSplit_updAt)
    have idsK: "mset (getAllTabWidgets (collapsed ori ?K)) \<subseteq># mset (getAllTabWidgets (SplitterInfo ori ks))"
      using mprops(1) concat_pair_split[OF sj, of getAllTabWidgets] by (simp add: collapsed_ids)
    have infosK: "mset (allTabInfos (collapsed ori ?K)) = mset (allTabInfos (SplitterInfo ori ks))"
      using mprops(2) concat_pair_split[OF sj, of allTabInfos] by (simp add: collapsed_infos)
    have i': "mset (getAllTabWidgets ?root) \<subseteq># mset (getAllTabWidgets (rootInfoNode s))"
      using mset_ids_updAt[OF at, of "\<lambda>_. collapsed ori ?K"] idsK by (rule mset_sub_cancel)
    have r': "mset (allTabInfos ?root) = mset (allTabInfos (rootInfoNode s))"
      using mset_infos_updAt[OF at, of "\<lambda>_. collapsed ori ?K"] infosK by simp
    show ?thesis using sub_step_inv[OF inv wr i' r'] run by simp
  qed
qed

lemma layoutWidgets_layoutOf: "layoutWidgets (layoutOf t) = getAllTabWidgets t"
proof (induction t)
  case (TabWidgetInfo n)
  then show ?case by simp
next
  case (SplitterInfo ori ks)
  then have "map (\<lambda>k. layoutWidgets (layoutOf k)) ks = map getAllTabWidgets ks" by (intro map_cong) auto
  then have "concat (map (\<lambda>k. layoutWidgets (layoutOf k)) ks) = concat (map getAllTabWidgets ks)"
    by (rule arg_cong)
  then show ?case by (simp add: comp_def)
qed

lemma layoutSlots_layoutOf: "layoutSlots (layoutOf t) = allTabInfos t"
proof (induction t)
  case (TabWidgetInfo n)
  then show ?case by simp
next
  case (SplitterInfo ori ks)
  then have "map (\<lambda>k. layoutSlots (layoutOf k)) ks = map allTabInfos ks" by (intro map_cong) auto
  then have "concat (map (\<lambda>k. layoutSlots (layoutOf k)) ks) = concat (map allTabInfos ks)"
    by (rule arg_cong)
  then show ?case by (simp add: comp_def)
qed

lemma layoutWell_layoutOf: "layoutWell (layoutOf t) = wellSplit t"
proof (induction t)
  case (TabWidgetInfo n)
  then show ?case by simp
next
  case (SplitterInfo ori ks)
  then have "list_all (\<lambda>k. layoutWell (layoutOf k)) ks = list_all wellSplit ks"
    by (simp add: list_all_iff)
  then show ?case by (simp add: list_all_iff)
qed

lemma updateTabWidget_keeps:
  "tabWidget (fst (updateTabWidget s n)) = tabWidget n"
  "children (fst (updateTabWidget s n)) = children n"
  "tabWidgetIdCounter (snd (updateTabWidget s n)) = tabWidgetIdCounter s"
  "objCounter (snd (updateTabWidget s n)) = objCounter s"
  "emptySplitFactory (snd (updateTabWidget s n)) = emptySplitFactory s"
  "severeLog (snd (updateTabWidget s n)) = severeLog s"
  by (simp_all add: updateTabWidget_def Let_def split: option.splits)

lemma updateNode_keeps:
  "layoutOf (fst (updateNode s t)) = layoutOf t
   \<and> tabWidgetIdCounter (snd (updateNode s t)) = tabWidgetIdCounter s
   \<and> objCounter (snd (updateNode s t)) = objCounter s
   \<and> emptySplitFactory (snd (updateNode s t)) = emptySplitFactory s"
  "map layoutOf (fst (updateKids s ks)) = map layoutOf ks
   \<and> tabWidgetIdCounter (snd (updateKids s ks)) = tabWidgetIdCounter s
   \<and> objCounter (snd (updateKids s ks)) = objCounter s
   \<and> emptySplitFactory (snd (updateKids s ks)) = emptySplitFactory s"
proof (induction s t and s ks rule: updateNode_updateKids.induct)
  case (1 s n)
  then show ?case using updateTabWidget_keeps[of s n] by (simp add: split_beta)
next
  case (2 s ori ks)
  then show ?case by (simp add: split_beta)
next
  case (3 s)
  then show ?case by simp
next
  case (4 s k ks)
  have a: "layoutOf (fst (updateNode s k)) = layoutOf k
   \<and> tabWidgetIdCounter (snd (updateNode s k)) = tabWidgetIdCounter s
   \<and> objCounter (snd (updateNode s k)) = objCounter s
   \<and> emptySplitFactory (snd (updateNode s k)) = emptySplitFactory s" by (rule 4(1))
  have b: "map layoutOf (fst (updateKids (snd (updateNode s k)) ks)) = map layoutOf ks
   \<and> tabWidgetIdCounter (snd (updateKids (snd (updateNode s k)) ks)) = tabWidgetIdCounter (snd (updateNode s k))
   \<and> objCounter (snd (updateKids (snd (updateNode s k)) ks)) = objCounter (snd (updateNode s k))
   \<and> emptySplitFactory (snd (updateKids (snd (updateNode s k)) ks)) = emptySplitFactory (snd (updateNode s k))"
    by (rule 4(2)[OF refl, of "fst (updateNode s k)"]) simp
  show ?case using a b by (simp add: split_beta)
qed

lemma update_keeps:
  "layoutOf (rootInfoNode (updateInfoNodes s)) = layoutOf (rootInfoNode s)"
  "tabWidgetIdCounter (updateInfoNodes s) = tabWidgetIdCounter s"
  "objCounter (updateInfoNodes s) = objCounter s"
  using updateNode_keeps(1)[of s "rootInfoNode s"] by (simp_all add: updateInfoNodes_def split_beta)

lemma update_same:
  "getAllTabWidgets (rootInfoNode (updateInfoNodes s)) = getAllTabWidgets (rootInfoNode s)"
  "allTabInfos (rootInfoNode (updateInfoNodes s)) = allTabInfos (rootInfoNode s)"
  "wellSplit (rootInfoNode (updateInfoNodes s)) = wellSplit (rootInfoNode s)"
  using update_keeps(1)[of s]
  by (metis layoutWidgets_layoutOf, metis layoutSlots_layoutOf, metis layoutWell_layoutOf)

lemma update_inv: "layoutInv s \<Longrightarrow> layoutInv (updateInfoNodes s) \<and> slotsKept s (updateInfoNodes s)"
  by (simp add: layoutInv_def namesOk_def slotsKept_def update_same update_keeps)

lemma update_after: "after (map_sum id snd (update s)) = updateInfoNodes s"
  by (simp add: update_def Let_def split: option.splits)

lemma update_result:
  "update s = Inr ((), updateInfoNodes s) \<or> update s = Inl (TypeError, updateInfoNodes s)"
  by (simp add: update_def Let_def split: option.splits)

lemma setRootContainer_inv:
  "layoutInv s \<Longrightarrow> layoutInv (setRootContainer s el) \<and> slotsKept s (setRootContainer s el)"
  by (simp add: layoutInv_def namesOk_def slotsKept_def setRootContainer_def)

lemma setFactory_inv:
  "layoutInv s \<Longrightarrow> layoutInv (setEmptySplitElementFactory s f) \<and> slotsKept s (setEmptySplitElementFactory s f)"
  by (simp add: layoutInv_def namesOk_def slotsKept_def setEmptySplitElementFactory_def)

lemma slice_partition: "slice 0 e xs @ sliceFrom e xs = xs"
  by (simp add: slice0 sliceFrom_def)

lemma splitTabWidgetAtTabContent_result:
  "\<exists>a b. splitTabWidgetAtTabContent s n c = ((a, b), s\<lparr>tabWidgetIdCounter := tabWidgetIdCounter s + 1\<rparr>)
     \<and> tabWidget a = tabWidget n \<and> b = newGroup (tabWidgetIdCounter s + 1) (children b)
     \<and> children a @ children b = children n"
  by (simp add: splitTabWidgetAtTabContent_def createTabWidgetInfo_def Let_def newGroup_def slice_partition)

text \<open>Replacing the children of a splitter by children with one more group.\<close>

lemma split_kids_inv:
  assumes inv: "layoutInv s"
    and at: "nodeAt q (rootInfoNode s) = Some (SplitterInfo ori ks)"
    and lenK: "2 \<le> length K" and allK: "list_all wellSplit K"
    and idsK: "mset (concat (map getAllTabWidgets K))
                 = mset (concat (map getAllTabWidgets ks)) + {#tabWidgetIdCounter s + 1#}"
    and infosK: "mset (concat (map allTabInfos K)) = mset (concat (map allTabInfos ks))"
  shows "layoutInv (s\<lparr>tabWidgetIdCounter := tabWidgetIdCounter s + 1,
                      rootInfoNode := updAt q (setKids ori K) (rootInfoNode s)\<rparr>)
     \<and> slotsKept s (s\<lparr>tabWidgetIdCounter := tabWidgetIdCounter s + 1,
                      rootInfoNode := updAt q (setKids ori K) (rootInfoNode s)\<rparr>)"
proof -
  let ?root = "updAt q (setKids ori K) (rootInfoNode s)"
  have w: "wellSplit (rootInfoNode s)" using inv by (simp add: layoutInv_def)
  note k = kids_update[OF at, where K = K and ori' = ori]
  have "wellSplit ?root" using w lenK allK by (rule k(1))
  moreover have "mset (getAllTabWidgets ?root)
      = mset (getAllTabWidgets (rootInfoNode s)) + {#tabWidgetIdCounter s + 1#}"
    using k(2) idsK by simp
  moreover have "mset (allTabInfos ?root) = mset (allTabInfos (rootInfoNode s))"
    using k(3) infosK by simp
  ultimately show ?thesis using split_step_inv[OF inv] by blast
qed

lemma splitAfterTabContent_inv:
  assumes inv: "layoutInv s"
  shows "layoutInv (snd (splitAfterTabContent s c axis)) \<and> slotsKept s (snd (splitAfterTabContent s c axis))"
proof (cases "findPathToTabContent (rootInfoNode s) c")
  case None
  then show ?thesis using inv by (simp add: splitAfterTabContent_def)
next
  case (Some res)
  then obtain p n r where f: "findPathToTabContent (rootInfoNode s) c = Some (p, n, r)"
    by (cases res) auto
  have leaf: "nodeAt p (rootInfoNode s) = Some (TabWidgetInfo n)"
    using findPathToTabContent_Some[OF f] by simp
  show ?thesis
  proof (cases r)
    case None
    then have "splitAfterTabContent s c axis = splitAfterTabWidget s (tabWidget n) axis"
      using f by (simp add: splitAfterTabContent_def)
    then show ?thesis using splitAfterTabWidget_inv[OF inv, of "tabWidget n" axis] by simp
  next
    case (Some ti)
    let ?c = "tabWidgetIdCounter s + 1"
    from splitTabWidgetAtTabContent_result[of s n c] obtain a b where
      st: "splitTabWidgetAtTabContent s n c = ((a, b), s\<lparr>tabWidgetIdCounter := ?c\<rparr>)"
      and wa: "tabWidget a = tabWidget n" and wb: "b = newGroup ?c (children b)"
      and ab: "children a @ children b = children n" by blast
    have idb: "getAllTabWidgets (TabWidgetInfo b) = [?c]" using wb by (metis getAllTabWidgets.simps(2) newGroup_def TabWidgetInfoNode.select_convs(2))
    have d: "distinct (getAllTabWidgets (rootInfoNode s))" and w: "wellSplit (rootInfoNode s)"
      using inv by (simp_all add: layoutInv_def namesOk_def)
    let ?S = "SplitterInfo axis [TabWidgetInfo a, TabWidgetInfo b]"
    have tb: "tabWidget b = ?c" using idb by simp
    have idS: "getAllTabWidgets ?S = [tabWidget n, ?c]" using tb wa by simp
    have infoS: "allTabInfos ?S = children n" using ab by simp
    show ?thesis
    proof (cases "p = []")
      case True
      then have root: "rootInfoNode s = TabWidgetInfo n" using leaf by simp
      have run: "snd (splitAfterTabContent s c axis) = s\<lparr>tabWidgetIdCounter := ?c, rootInfoNode := ?S\<rparr>"
        using f Some True st by (simp add: splitAfterTabContent_def splitTabWidgetAtTabContentIntoSplitter_def)
      have "wellSplit ?S" by simp
      moreover have "mset (getAllTabWidgets ?S) = mset (getAllTabWidgets (rootInfoNode s)) + {#?c#}"
        unfolding idS root by simp
      moreover have "mset (allTabInfos ?S) = mset (allTabInfos (rootInfoNode s))"
        unfolding infoS root by simp
      ultimately show ?thesis unfolding run using split_step_inv[OF inv, of ?S] by blast
    next
      case False
      from nodeAt_parent[OF leaf False] obtain ori ks where
        at: "nodeAt (butlast p) (rootInfoNode s) = Some (SplitterInfo ori ks)"
        and i: "last p < length ks" and gi: "ks ! last p = TabWidgetInfo n" by blast
      have wq: "wellSplit (SplitterInfo ori ks)" using w at by (rule wellSplit_nodeAt)
      then have len: "2 \<le> length ks" and all: "list_all wellSplit ks" by simp_all
      have dq: "distinct (getAllTabWidgets (SplitterInfo ori ks))" using d at by (rule ids_distinct_nodeAt)
      let ?ks1 = "ks[last p := TabWidgetInfo a]"
      have d1: "distinct (getAllTabWidgets (SplitterInfo ori ?ks1))"
        using ids_list_update[OF i, of "TabWidgetInfo a" ori] gi wa dq by simp
      have "indexOfNode ?ks1 (tabWidget a) = int (last p)"
        using d1 by (rule indexOfNode_at) (use i in simp_all)
      then have idx1: "indexOfNode ?ks1 (tabWidget n) = int (last p)" using wa by simp
      have idx: "indexOfNode ks (tabWidget n) = int (last p)" using dq i gi by (rule indexOfNode_at)
      let ?K = "if ori = axis then take (Suc (last p)) ?ks1 @ [TabWidgetInfo b] @ drop (Suc (last p)) ?ks1
                else ks[last p := ?S]"
      have i1: "last p < length ?ks1" using i by simp
      have run: "snd (splitAfterTabContent s c axis)
          = s\<lparr>tabWidgetIdCounter := ?c, rootInfoNode := updAt (butlast p) (setKids ori ?K) (rootInfoNode s)\<rparr>"
        using f Some False st at idx idx1 splice_insert[OF i1, of "TabWidgetInfo b"] splice_replace[OF i, of ?S]
        by (simp add: splitAfterTabContent_def splitTabWidgetAtTabContentIntoSplitter_def Let_def)
      have all1: "list_all wellSplit ?ks1" using all by (rule list_all_update) simp
      have lenK: "2 \<le> length ?K" using len i by simp
      have allK: "list_all wellSplit ?K"
      proof (cases "ori = axis")
        case True
        then show ?thesis
          using list_all_take_drop[OF all1, of "TabWidgetInfo b" "Suc (last p)" "Suc (last p)"] by simp
      next
        case False
        have "list_all wellSplit (ks[last p := ?S])" using all by (rule list_all_update) simp
        then show ?thesis using False by simp
      qed
      have idsK: "mset (concat (map getAllTabWidgets ?K)) = mset (concat (map getAllTabWidgets ks)) + {#?c#}"
      proof (cases "ori = axis")
        case True
        have "mset (concat (map getAllTabWidgets ?ks1)) = mset (concat (map getAllTabWidgets ks))"
          using mset_concat_update[OF i, of getAllTabWidgets "TabWidgetInfo a"] gi wa by simp
        then show ?thesis using True mset_concat_insert[of getAllTabWidgets "Suc (last p)" ?ks1 "TabWidgetInfo b"] idb
          by simp
      next
        case False
        have "mset (concat (map getAllTabWidgets (ks[last p := ?S]))) + mset (getAllTabWidgets (ks ! last p))
            = mset (concat (map getAllTabWidgets ks)) + mset (getAllTabWidgets ?S)"
          using i by (rule mset_concat_update)
        then have "mset (concat (map getAllTabWidgets (ks[last p := ?S]))) + {#tabWidget n#}
            = mset (concat (map getAllTabWidgets ks)) + {#?c#} + {#tabWidget n#}"
          unfolding idS gi by simp
        then show ?thesis using False by simp
      qed
      have infosK: "mset (concat (map allTabInfos ?K)) = mset (concat (map allTabInfos ks))"
      proof (cases "ori = axis")
        case True
        have "mset (concat (map allTabInfos ?ks1)) + mset (children n)
            = mset (concat (map allTabInfos ks)) + mset (children a)"
          using mset_concat_update[OF i, of allTabInfos "TabWidgetInfo a"] gi by simp
        moreover have "mset (concat (map allTabInfos ?K)) = mset (concat (map allTabInfos ?ks1)) + mset (children b)"
          using True mset_concat_insert[of allTabInfos "Suc (last p)" ?ks1 "TabWidgetInfo b"] by simp
        moreover have "mset (children n) = mset (children a) + mset (children b)"
          using ab by (metis mset_append)
        ultimately have "mset (concat (map allTabInfos ?K)) + mset (children n)
            = mset (concat (map allTabInfos ks)) + mset (children n)"
          by (simp add: ac_simps)
        then show ?thesis by simp
      next
        case False
        have "mset (concat (map allTabInfos (ks[last p := ?S]))) + mset (allTabInfos (ks ! last p))
            = mset (concat (map allTabInfos ks)) + mset (allTabInfos ?S)"
          using i by (rule mset_concat_update)
        then have "mset (concat (map allTabInfos (ks[last p := ?S]))) + mset (children n)
            = mset (concat (map allTabInfos ks)) + mset (children n)"
          unfolding infoS gi by simp
        then show ?thesis using False by simp
      qed
      show ?thesis unfolding run using inv at lenK allK idsK infosK by (rule split_kids_inv)
    qed
  qed
qed

lemma swapArrayItems_adjacent:
  assumes d: "distinct (getAllTabWidgets (SplitterInfo ori K))"
    and sa: "Suc a < length K" and ga: "K ! a = TabWidgetInfo g" and na: "K ! Suc a = TabWidgetInfo N"
  shows "swapArrayItems K N g = K[a := TabWidgetInfo N, Suc a := TabWidgetInfo g]"
proof (rule nth_equalityI)
  show "length (swapArrayItems K N g) = length (K[a := TabWidgetInfo N, Suc a := TabWidgetInfo g])"
    by (simp add: swapArrayItems_def)
next
  fix k assume "k < length (swapArrayItems K N g)"
  then have k: "k < length K" by (simp add: swapArrayItems_def)
  have al: "a < length K" using sa by simp
  have gN: "tabWidget g \<noteq> tabWidget N"
    using sibling_not_same[OF d sa na, of a] al ga by auto
  consider (a) "k = a" | (b) "k = Suc a" | (c) "k \<noteq> a" "k \<noteq> Suc a" by blast
  then show "swapArrayItems K N g ! k = K[a := TabWidgetInfo N, Suc a := TabWidgetInfo g] ! k"
  proof cases
    case a
    then show ?thesis using k ga gN sa by (simp add: swapArrayItems_def)
  next
    case b
    then show ?thesis using k na sa by (simp add: swapArrayItems_def)
  next
    case c
    have "\<not> isTabWidgetNode (tabWidget N) (K ! k)" using sibling_not_same[OF d sa na k] c by simp
    moreover have "\<not> isTabWidgetNode (tabWidget g) (K ! k)" using sibling_not_same[OF d al ga k] c by simp
    ultimately show ?thesis using k c by (simp add: swapArrayItems_def)
  qed
qed

lemma swap_msets:
  assumes sa: "Suc a < length K"
  shows "mset (concat (map f (K[a := K ! Suc a, Suc a := K ! a]))) = mset (concat (map f K))"
proof -
  let ?L = "K[a := K ! Suc a, Suc a := K ! a]"
  have sl: "Suc a < length ?L" using sa by simp
  have "concat (map f ?L) = concat (map f (take a ?L)) @ f (?L ! a) @ f (?L ! Suc a) @ concat (map f (drop (a + 2) ?L))"
    using sl by (rule concat_pair_split)
  moreover have "take a ?L = take a K" by simp
  moreover have "drop (a + 2) ?L = drop (a + 2) K" by simp
  moreover have "?L ! a = K ! Suc a" using sa by simp
  moreover have "?L ! Suc a = K ! a" using sa by simp
  ultimately have "concat (map f ?L) = concat (map f (take a K)) @ f (K ! Suc a) @ f (K ! a) @ concat (map f (drop (a + 2) K))"
    by simp
  then show ?thesis using concat_pair_split[OF sa, of f] by simp
qed

lemma splitBefore_second:
  assumes run1: "splitAfterTabWidget s w axis = (Some nw, s1)"
    and inv1: "layoutInv s1"
    and at: "nodeAt pp (rootInfoNode s1) = Some (SplitterInfo oriP KP)"
    and sa: "Suc a < length KP" and ga: "KP ! a = TabWidgetInfo g" and na: "KP ! Suc a = TabWidgetInfo N"
    and wg: "tabWidget g = w" and wn: "tabWidget N = nw"
  shows "splitBeforeTabWidget s w axis =
           Inr (Some nw, s1\<lparr>rootInfoNode :=
               updAt pp (setKids oriP (KP[a := TabWidgetInfo N, Suc a := TabWidgetInfo g])) (rootInfoNode s1)\<rparr>)"
    and "layoutInv (s1\<lparr>rootInfoNode :=
               updAt pp (setKids oriP (KP[a := TabWidgetInfo N, Suc a := TabWidgetInfo g])) (rootInfoNode s1)\<rparr>)"
    and "slotsKept s1 (s1\<lparr>rootInfoNode :=
               updAt pp (setKids oriP (KP[a := TabWidgetInfo N, Suc a := TabWidgetInfo g])) (rootInfoNode s1)\<rparr>)"
proof -
  let ?L = "KP[a := TabWidgetInfo N, Suc a := TabWidgetInfo g]"
  let ?root = "updAt pp (setKids oriP ?L) (rootInfoNode s1)"
  have d1: "distinct (getAllTabWidgets (rootInfoNode s1))" and w1: "wellSplit (rootInfoNode s1)"
    using inv1 by (simp_all add: layoutInv_def namesOk_def)
  have dP: "distinct (getAllTabWidgets (SplitterInfo oriP KP))" using d1 at by (rule ids_distinct_nodeAt)
  have leafN: "nodeAt (pp @ [Suc a]) (rootInfoNode s1) = Some (TabWidgetInfo N)"
    using nodeAt_child[OF at, of "Suc a"] sa na by simp
  have pathN: "findPathToTabWidget (rootInfoNode s1) nw = Some (pp @ [Suc a])"
    using findPathToTabWidget_at[OF d1 leafN] wn by simp
  have "nodeAt [a] (SplitterInfo oriP KP) = Some (TabWidgetInfo g)" using sa ga by simp
  then have pathG: "findPathToTabWidget (SplitterInfo oriP KP) w = Some [a]"
    using findPathToTabWidget_at[OF dP] wg by blast
  have sw: "swapArrayItems KP N g = ?L" using dP sa ga na by (rule swapArrayItems_adjacent)
  show "splitBeforeTabWidget s w axis = Inr (Some nw, s1\<lparr>rootInfoNode := ?root\<rparr>)"
    unfolding splitBeforeTabWidget_def run1
    using pathN at leafN pathG sa ga sw by (simp del: findPathToTabWidget.simps)
  have wP: "wellSplit (SplitterInfo oriP KP)" using w1 at by (rule wellSplit_nodeAt)
  then have all: "list_all wellSplit KP" by simp
  have allL: "list_all wellSplit ?L"
    by (intro list_all_update all) simp_all
  have lenL: "2 \<le> length ?L" using sa by simp
  note k = kids_update[OF at, where K = ?L and ori' = oriP]
  have L: "?L = KP[a := KP ! Suc a, Suc a := KP ! a]" using ga na by simp
  have wr: "wellSplit ?root" using w1 lenL allL by (rule k(1))
  have "mset (concat (map getAllTabWidgets ?L)) = mset (concat (map getAllTabWidgets KP))"
    unfolding L using sa by (rule swap_msets)
  then have i': "mset (getAllTabWidgets ?root) \<subseteq># mset (getAllTabWidgets (rootInfoNode s1))"
    using k(2) by simp
  have "mset (concat (map allTabInfos ?L)) = mset (concat (map allTabInfos KP))"
    unfolding L using sa by (rule swap_msets)
  then have r': "mset (allTabInfos ?root) = mset (allTabInfos (rootInfoNode s1))"
    using k(3) by simp
  show "layoutInv (s1\<lparr>rootInfoNode := ?root\<rparr>)" and "slotsKept s1 (s1\<lparr>rootInfoNode := ?root\<rparr>)"
    using sub_step_inv[OF inv1 wr i' r'] by simp_all
qed

lemma splitBefore_inv:
  assumes inv: "layoutInv s"
  shows "layoutInv (after (perform s (SplitBeforeTabWidget w axis)))
     \<and> slotsKept s (after (perform s (SplitBeforeTabWidget w axis)))"
proof (cases "w \<in> set (getAllTabWidgets (rootInfoNode s))")
  case False
  then have "splitBeforeTabWidget s w axis = Inl (TypeError, severe ''Unable to find the info for tab widget '' s)"
    by (simp add: splitBeforeTabWidget_def splitAfterTabWidget_absent)
  then show ?thesis using inv by simp
next
  case True
  then obtain p g where leaf: "nodeAt p (rootInfoNode s) = Some (TabWidgetInfo g)" and wg: "tabWidget g = w"
    using ids_in_tree by blast
  have d: "distinct (getAllTabWidgets (rootInfoNode s))" and w: "wellSplit (rootInfoNode s)"
    using inv by (simp_all add: layoutInv_def namesOk_def)
  let ?c = "tabWidgetIdCounter s + 1"
  let ?N = "newGroup ?c []"
  define s1 where "s1 = snd (splitAfterTabWidget s w axis)"
  have inv1: "layoutInv s1" and k1: "slotsKept s s1"
    using splitAfterTabWidget_inv[OF inv, of w axis] by (simp_all add: s1_def)
  have wN: "tabWidget ?N = ?c" by (simp add: newGroup_def)
  have "\<exists>pp oriP KP a. splitAfterTabWidget s w axis = (Some ?c, s1)
      \<and> nodeAt pp (rootInfoNode s1) = Some (SplitterInfo oriP KP)
      \<and> Suc a < length KP \<and> KP ! a = TabWidgetInfo g \<and> KP ! Suc a = TabWidgetInfo ?N"
  proof (cases "p = []")
    case True
    then have root: "rootInfoNode s = TabWidgetInfo g" using leaf by simp
    have r: "splitAfterTabWidget s w axis = (Some ?c, s\<lparr>tabWidgetIdCounter := ?c,
        rootInfoNode := SplitterInfo axis [TabWidgetInfo g, TabWidgetInfo ?N]\<rparr>)"
      using splitAfterTabWidget_root[OF root, of axis] wg by simp
    then have "nodeAt [] (rootInfoNode s1) = Some (SplitterInfo axis [TabWidgetInfo g, TabWidgetInfo ?N])"
      by (simp add: s1_def)
    moreover have "splitAfterTabWidget s w axis = (Some ?c, s1)" using r by (simp add: s1_def)
    ultimately show ?thesis
      by (intro exI[of _ "[]"] exI[of _ axis] exI[of _ "[TabWidgetInfo g, TabWidgetInfo ?N]"] exI[of _ 0]) simp
  next
    case False
    from nodeAt_parent[OF leaf False] obtain ori ks where
      at: "nodeAt (butlast p) (rootInfoNode s) = Some (SplitterInfo ori ks)"
      and i: "last p < length ks" and gi: "ks ! last p = TabWidgetInfo g" by blast
    let ?S = "SplitterInfo axis [TabWidgetInfo g, TabWidgetInfo ?N]"
    let ?K = "if ori = axis then take (Suc (last p)) ks @ [TabWidgetInfo ?N] @ drop (Suc (last p)) ks
              else ks[last p := ?S]"
    have r: "splitAfterTabWidget s w axis = (Some ?c, s\<lparr>tabWidgetIdCounter := ?c,
        rootInfoNode := updAt (butlast p) (setKids ori ?K) (rootInfoNode s)\<rparr>)"
      using splitAfterTabWidget_child[OF d at i gi, of axis] wg by simp
    then have r1: "splitAfterTabWidget s w axis = (Some ?c, s1)"
      and root1: "rootInfoNode s1 = updAt (butlast p) (setKids ori ?K) (rootInfoNode s)"
      by (simp_all add: s1_def)
    have at1: "nodeAt (butlast p) (rootInfoNode s1) = Some (SplitterInfo ori ?K)"
      unfolding root1 using nodeAt_updAt_same[OF at, of "setKids ori ?K"] by (simp add: setKids_def)
    show ?thesis
    proof (cases "ori = axis")
      case True
      let ?K1 = "take (Suc (last p)) ks @ [TabWidgetInfo ?N] @ drop (Suc (last p)) ks"
      have "nodeAt (butlast p) (rootInfoNode s1) = Some (SplitterInfo ori ?K1)" using at1 True by simp
      moreover have "Suc (last p) < length ?K1" using i by simp
      moreover have "?K1 ! last p = TabWidgetInfo g" using i gi by (simp add: nth_append)
      moreover have "?K1 ! Suc (last p) = TabWidgetInfo ?N" using i by (simp add: nth_append)
      ultimately show ?thesis using r1 by blast
    next
      case ne: False
      have "nodeAt (butlast p) (rootInfoNode s1) = Some (SplitterInfo ori (ks[last p := ?S]))"
        using at1 ne by simp
      then have "nodeAt (butlast p @ [last p]) (rootInfoNode s1) = Some ?S"
        using nodeAt_child[of "butlast p" "rootInfoNode s1" ori "ks[last p := ?S]" "last p"] i by simp
      then show ?thesis using r1
        by (intro exI[of _ "butlast p @ [last p]"] exI[of _ axis]
            exI[of _ "[TabWidgetInfo g, TabWidgetInfo ?N]"] exI[of _ 0]) simp
    qed
  qed
  then obtain pp oriP KP a where run1: "splitAfterTabWidget s w axis = (Some ?c, s1)"
      and at: "nodeAt pp (rootInfoNode s1) = Some (SplitterInfo oriP KP)"
      and sa: "Suc a < length KP" and ga: "KP ! a = TabWidgetInfo g" and na: "KP ! Suc a = TabWidgetInfo ?N"
    by blast
  note sb = splitBefore_second[OF run1 inv1 at sa ga na wg wN]
  show ?thesis using sb k1 by (auto intro: slotsKept_trans)
qed

lemma newSplitLayout_inv: "layoutInv (newSplitLayout widgetIds tabIds)"
  by (simp add: layoutInv_def namesOk_def newSplitLayout_def)

lemma perform_inv: "layoutInv s \<Longrightarrow> layoutInv (after (perform s x))"
proof (cases x)
  case (AppendTab w t c)
  assume "layoutInv s"
  then show ?thesis using AppendTab appendTab_inv(1) by simp
next
  case (RemoveTabContent c)
  assume "layoutInv s"
  then show ?thesis using RemoveTabContent removeTabContent_inv(1) by simp
next
  case (SplitAfterTabWidget w ori)
  assume "layoutInv s"
  then show ?thesis using SplitAfterTabWidget splitAfterTabWidget_inv by simp
next
  case (SplitBeforeTabWidget w ori)
  assume "layoutInv s"
  then show ?thesis using SplitBeforeTabWidget splitBefore_inv by simp
next
  case (SplitAfterTabContent c ori)
  assume "layoutInv s"
  then show ?thesis using SplitAfterTabContent splitAfterTabContent_inv by simp
next
  case (MoveTabToTabWidget t w i)
  assume "layoutInv s"
  then show ?thesis using MoveTabToTabWidget moveTab_inv by simp
next
  case (CloseSplitAtTabContent c)
  assume "layoutInv s"
  then show ?thesis using CloseSplitAtTabContent closeSplit_inv by simp
next
  case (SetEmptySplitElementFactory f)
  assume "layoutInv s"
  then show ?thesis using SetEmptySplitElementFactory setFactory_inv by simp
next
  case (SetRootContainer el)
  assume "layoutInv s"
  then show ?thesis using SetRootContainer setRootContainer_inv by simp
next
  case Update
  assume "layoutInv s"
  then show ?thesis using Update update_inv by (simp add: update_after)
qed

lemma runOps_step:
  "runOps s (x # xs) = Some s' \<Longrightarrow> runOps (after (perform s x)) xs = Some s'"
  by (cases "perform s x") (auto split: ending.splits prod.splits)

lemma runOps_inv: "layoutInv s \<Longrightarrow> runOps s ops = Some s' \<Longrightarrow> layoutInv s'"
proof (induction ops arbitrary: s)
  case Nil
  then show ?case by simp
next
  case (Cons x xs)
  have "layoutInv (after (perform s x))" using Cons.prems(1) by (rule perform_inv)
  then show ?case using Cons.IH runOps_step[OF Cons.prems(2)] by blast
qed



lemma splitBefore_error: "splitBeforeTabWidget s w ori = Inl (e, s') \<Longrightarrow> e = TypeError"
  unfolding splitBeforeTabWidget_def
  by (simp split: prod.splits option.splits InfoNode.splits if_splits)

lemma closeTabWidgetSplitterSplit_error:
  "closeTabWidgetSplitterSplit s q ori ks n j sub = Inl (e, s') \<Longrightarrow> e = TypeError"
  unfolding closeTabWidgetSplitterSplit_def
  by (simp add: Let_def split: option.splits prod.splits)

lemma closeSplit_error: "closeSplitAtTabContent s c = Inl (e, s') \<Longrightarrow> e = TypeError"
  unfolding closeSplitAtTabContent_def
  by (simp add: Let_def split: prod.splits option.splits InfoNode.splits if_splits)
     (auto dest: closeTabWidgetSplitterSplit_error)


lemma perform_notMove: "notMove x \<Longrightarrow> \<exists>s'. perform s x = Inr s' \<or> perform s x = Inl (TypeError, s')"
proof (cases x)
  case (SplitBeforeTabWidget w ori)
  show ?thesis
  proof (cases "splitBeforeTabWidget s w ori")
    case (Inl r)
    then obtain e s' where "splitBeforeTabWidget s w ori = Inl (e, s')" by (cases r) auto
    then show ?thesis using splitBefore_error SplitBeforeTabWidget by fastforce
  next
    case (Inr r)
    then show ?thesis using SplitBeforeTabWidget by simp
  qed
next
  case (CloseSplitAtTabContent c)
  show ?thesis
  proof (cases "closeSplitAtTabContent s c")
    case (Inl r)
    then obtain e s' where "closeSplitAtTabContent s c = Inl (e, s')" by (cases r) auto
    then show ?thesis using closeSplit_error CloseSplitAtTabContent by fastforce
  next
    case (Inr r)
    then show ?thesis using CloseSplitAtTabContent by simp
  qed
next
  case Update
  then show ?thesis using update_result[of s] by auto
qed auto

lemma runOps_notMove: "list_all notMove ops \<Longrightarrow> runOps s ops \<noteq> None"
proof (induction ops arbitrary: s)
  case Nil
  show ?case by simp
next
  case (Cons x xs)
  from Cons.prems have nx: "notMove x" and nxs: "list_all notMove xs" by simp_all
  from perform_notMove[OF nx, of s] obtain s' where
    p: "perform s x = Inr s' \<or> perform s x = Inl (TypeError, s')" by blast
  have e: "runOps s (x # xs) = runOps s' xs"
  proof (rule disjE[OF p])
    assume a: "perform s x = Inr s'"
    show ?thesis by (simp only: runOps.simps a sum.case)
  next
    assume a: "perform s x = Inl (TypeError, s')"
    show ?thesis by (simp only: runOps.simps a sum.case prod.case ending.case)
  qed
  have "runOps s' xs \<noteq> None" by (rule Cons.IH[OF nxs])
  then show ?case unfolding e .
qed

lemma wellSplit_everywhere:
  "wellSplit t \<Longrightarrow> nodeAt p t = Some (SplitterInfo ori ks) \<Longrightarrow> 2 \<le> length ks"
  using wellSplit_nodeAt[of t p "SplitterInfo ori ks"] by simp


lemma exampleOps_result:
  "map_option rootInfoNode (runOps (newSplitLayout 0 0) exampleOps) =
     Some (SplitterInfo HORIZONTAL
       [TabWidgetInfo (newGroup 2 [\<lparr>ref = 1, tab = CallerTab 2, content = 102\<rparr>,
                                  \<lparr>ref = 0, tab = CallerTab 1, content = 101\<rparr>]),
        TabWidgetInfo (newGroup 3 [])])"
  by code_simp


lemma slotsKept_contents:
  "slotsKept s s' \<Longrightarrow> mset (getAllTabContents (rootInfoNode s')) = mset (getAllTabContents (rootInfoNode s))"
  unfolding slotsKept_def getAllTabContents_leaves mset_map by simp

lemma kept_sub:
  "layoutInv s' \<and> slotsKept s s' \<Longrightarrow>
   mset (getAllTabContents (rootInfoNode s')) \<subseteq># mset (getAllTabContents (rootInfoNode s))"
  using slotsKept_contents[of s s'] by simp

lemma perform_contents:
  assumes inv: "layoutInv s"
  shows "mset (getAllTabContents (rootInfoNode (after (perform s x))))
     \<subseteq># mset (getAllTabContents (rootInfoNode s))
           + (case x of AppendTab w t c \<Rightarrow> {#c#} | _ \<Rightarrow> {#})"
proof (cases x)
  case (AppendTab w t c)
  then show ?thesis using appendTab_inv(2)[OF inv, of w t c] by simp
next
  case (RemoveTabContent c)
  have "mset (map content (allTabInfos (rootInfoNode (removeTabContent s c))))
      \<subseteq># mset (map content (allTabInfos (rootInfoNode s)))"
    unfolding mset_map using removeTabContent_inv(2)[OF inv, of c] by (rule image_mset_subseteq_mono)
  then show ?thesis using RemoveTabContent by (simp add: getAllTabContents_leaves)
next
  case (SplitAfterTabWidget w ori)
  then show ?thesis using splitAfterTabWidget_inv[OF inv, of w ori, THEN kept_sub] by simp
next
  case (SplitBeforeTabWidget w ori)
  then show ?thesis using splitBefore_inv[OF inv, of w ori, THEN kept_sub] by simp
next
  case (SplitAfterTabContent c ori)
  then show ?thesis using splitAfterTabContent_inv[OF inv, of c ori, THEN kept_sub] by simp
next
  case (MoveTabToTabWidget t w i)
  then show ?thesis using moveTab_inv[OF inv, of t w i, THEN kept_sub] by simp
next
  case (CloseSplitAtTabContent c)
  then show ?thesis using closeSplit_inv[OF inv, of c, THEN kept_sub] by simp
next
  case (SetEmptySplitElementFactory f)
  then show ?thesis using setFactory_inv[OF inv, of f, THEN kept_sub] by simp
next
  case (SetRootContainer el)
  then show ?thesis using setRootContainer_inv[OF inv, of el, THEN kept_sub] by simp
next
  case Update
  then show ?thesis using update_inv[OF inv, THEN kept_sub] by (simp add: update_after)
qed

lemma appendsFresh_step:
  "appendsFresh s (x # xs) \<Longrightarrow>
   (case x of AppendTab w t c \<Rightarrow> c \<notin> set (getAllTabContents (rootInfoNode s)) | _ \<Rightarrow> True)
   \<and> appendsFresh (after (perform s x)) xs"
  by (cases "perform s x") (auto split: prod.splits)

lemma perform_distinct:
  assumes inv: "layoutInv s" and d: "distinct (getAllTabContents (rootInfoNode s))"
    and fresh: "case x of AppendTab w t c \<Rightarrow> c \<notin> set (getAllTabContents (rootInfoNode s)) | _ \<Rightarrow> True"
  shows "distinct (getAllTabContents (rootInfoNode (after (perform s x))))"
proof (cases "\<exists>w t c. x = AppendTab w t c")
  case True
  then obtain w t c where x: "x = AppendTab w t c" by blast
  have "distinct (c # getAllTabContents (rootInfoNode s))" using d fresh x by simp
  moreover have "mset (getAllTabContents (rootInfoNode (after (perform s x))))
      \<subseteq># mset (c # getAllTabContents (rootInfoNode s))"
    using perform_contents[OF inv, of x] x by simp
  ultimately show ?thesis by (rule distinct_sub_mset)
next
  case False
  then have "(case x of AppendTab w t c \<Rightarrow> {#c#} | _ \<Rightarrow> {#}) = {#}" by (cases x) auto
  then have "mset (getAllTabContents (rootInfoNode (after (perform s x))))
      \<subseteq># mset (getAllTabContents (rootInfoNode s))"
    using perform_contents[OF inv, of x] by simp
  with d show ?thesis by (rule distinct_sub_mset)
qed

lemma runOps_distinct:
  "layoutInv s \<Longrightarrow> distinct (getAllTabContents (rootInfoNode s)) \<Longrightarrow> appendsFresh s ops \<Longrightarrow>
   runOps s ops = Some s' \<Longrightarrow> distinct (getAllTabContents (rootInfoNode s'))"
proof (induction ops arbitrary: s)
  case Nil
  then show ?case by simp
next
  case (Cons x xs)
  note st = appendsFresh_step[OF Cons.prems(3)]
  have i1: "layoutInv (after (perform s x))" using Cons.prems(1) by (rule perform_inv)
  have d1: "distinct (getAllTabContents (rootInfoNode (after (perform s x))))"
    using Cons.prems(1,2) st by (intro perform_distinct) simp_all
  have f1: "appendsFresh (after (perform s x)) xs" using st by simp
  show ?case using Cons.IH[OF i1 d1 f1] runOps_step[OF Cons.prems(4)] by blast
qed


lemma exampleOps_fresh: "appendsFresh (newSplitLayout 0 0) exampleOps"
  by code_simp

lemma exampleOps_run: "runOps (newSplitLayout 0 0) exampleOps \<noteq> None"
  by (rule runOps_notMove) (simp add: exampleOps_def)



lemma exampleLayout_lookups:
  "findTabWidgetInfoByTab (rootInfoNode exampleLayout) (CreatedTab 1)
     = Some ([1], \<lparr>children = [], tabWidget = 2, emptyTab = Some (CreatedTab 1),
                    emptyTabContent = Some 1000\<rparr>, None)"
  "findTabWidgetInfoByTabWidget (rootInfoNode exampleLayout) 1
     = Some ([0], \<lparr>children = [\<lparr>ref = 0, tab = CallerTab 10, content = 100\<rparr>], tabWidget = 1,
                    emptyTab = None, emptyTabContent = None\<rparr>)"
  "allTabInfos (rootInfoNode exampleLayout) = [\<lparr>ref = 0, tab = CallerTab 10, content = 100\<rparr>]"
  by (simp_all add: exampleLayout_root)



lemma perform_no_null:
  assumes "case x of
         MoveTabToTabWidget t w i \<Rightarrow>
           (case findTabWidgetInfoByTab (rootInfoNode s) t of
              Some (p, n, None) \<Rightarrow> False
            | _ \<Rightarrow> True)
       | _ \<Rightarrow> True"
  shows "perform s x = Inr (after (perform s x)) \<or> perform s x = Inl (TypeError, after (perform s x))"
proof (cases "notMove x")
  case True
  from perform_notMove[OF this, of s] show ?thesis by auto
next
  case False
  then obtain t w i where x: "x = MoveTabToTabWidget t w i" by (cases x) auto
  show ?thesis
  proof (cases "findTabWidgetInfoByTab (rootInfoNode s) t")
    case None
    then show ?thesis using x by (simp add: moveTabToTabWidget_def)
  next
    case (Some r)
    then obtain sp source ti where src: "findTabWidgetInfoByTab (rootInfoNode s) t = Some (sp, source, Some ti)"
      using assms x by (cases r; cases "snd (snd r)") auto
    show ?thesis
    proof (cases "findTabWidgetInfoByTabWidget (rootInfoNode s) w")
      case None
      then show ?thesis using x src by (simp add: moveTabToTabWidget_def)
    next
      case (Some r')
      then show ?thesis using x src by (cases r') (simp add: moveTabToTabWidget_def Let_def)
    qed
  qed
qed

lemma runOps_no_null: "noPlaceholderMove s ops \<Longrightarrow> \<exists>s'. runOps s ops = Some s'"
proof (induction ops arbitrary: s)
  case Nil
  show ?case by simp
next
  case (Cons x xs)
  from Cons.prems have a: "case x of
         MoveTabToTabWidget t w i \<Rightarrow>
           (case findTabWidgetInfoByTab (rootInfoNode s) t of
              Some (p, n, None) \<Rightarrow> False
            | _ \<Rightarrow> True)
       | _ \<Rightarrow> True" and b: "noPlaceholderMove (after (perform s x)) xs" by simp_all
  have e: "runOps s (x # xs) = runOps (after (perform s x)) xs"
  proof (rule disjE[OF perform_no_null[OF a]])
    assume p: "perform s x = Inr (after (perform s x))"
    show ?thesis by (subst runOps.simps, subst p) simp
  next
    assume p: "perform s x = Inl (TypeError, after (perform s x))"
    show ?thesis by (subst runOps.simps, subst p) simp
  qed
  from Cons.IH[OF b] show ?case unfolding e .
qed


lemma moveOps_ok:
  "appendsFresh (newSplitLayout 0 0) moveOps"
  "noPlaceholderMove (newSplitLayout 0 0) moveOps"
  "map_option (\<lambda>s. getAllTabContents (rootInfoNode s)) (runOps (newSplitLayout 0 0) moveOps) = Some [102, 101]"
  by code_simp+


lemma arrangementOf_simps [simp]:
  "arrangementOf (TabWidgetInfo n) = Group () (children n)"
  "arrangementOf (SplitterInfo ori ks) = Split ori (map arrangementOf ks)"
  by (simp_all add: arrangementOf_def)

lemma layoutOf_arrangement: "layoutOf t' = layoutOf t \<Longrightarrow> arrangementOf t' = arrangementOf t"
  by (simp add: arrangementOf_def)

lemma layoutOf_splitter:
  "layoutOf x = layoutOf (SplitterInfo ori ks) \<Longrightarrow>
   \<exists>ks'. x = SplitterInfo ori ks' \<and> map layoutOf ks' = map layoutOf ks"
  by (cases x) auto

lemma layoutOf_group:
  "layoutOf x = layoutOf (TabWidgetInfo n) \<Longrightarrow>
   \<exists>n'. x = TabWidgetInfo n' \<and> tabWidget n' = tabWidget n \<and> children n' = children n"
  by (cases x) auto

lemma map_layoutOf_nth:
  "map layoutOf ks' = map layoutOf ks \<Longrightarrow> k < length ks \<Longrightarrow> layoutOf (ks' ! k) = layoutOf (ks ! k)"
  by (metis length_map nth_map)

lemma map_layoutOf_arrangement:
  "map layoutOf ks' = map layoutOf ks \<Longrightarrow> map arrangementOf ks' = map arrangementOf ks"
proof -
  assume "map layoutOf ks' = map layoutOf ks"
  then have "map (map_Layout (\<lambda>w. ())) (map layoutOf ks') = map (map_Layout (\<lambda>w. ())) (map layoutOf ks)"
    by simp
  then show ?thesis by (simp add: arrangementOf_def[abs_def] comp_def)
qed

lemma nodeAt_layoutOf:
  "layoutOf t' = layoutOf t \<Longrightarrow> nodeAt p t = Some x \<Longrightarrow>
   \<exists>x'. nodeAt p t' = Some x' \<and> layoutOf x' = layoutOf x"
proof (induction p arbitrary: t t')
  case Nil
  then show ?case by simp
next
  case (Cons i p)
  then obtain ori ks where t: "t = SplitterInfo ori ks" and i: "i < length ks"
    and sub: "nodeAt p (ks ! i) = Some x"
    by (cases t) (auto split: if_splits)
  from Cons.prems(1) t obtain ks' where t': "t' = SplitterInfo ori ks'"
    and m: "map layoutOf ks' = map layoutOf ks" using layoutOf_splitter by blast
  have len: "length ks' = length ks" using m by (metis length_map)
  have "layoutOf (ks' ! i) = layoutOf (ks ! i)" using m i by (rule map_layoutOf_nth)
  from Cons.IH[OF this sub] show ?case using t' i len by simp
qed

lemma updAt_updAt: "updAt p (\<lambda>_. y) (updAt p (\<lambda>_. z) t) = updAt p (\<lambda>_. y) t"
proof (induction p arbitrary: t)
  case Nil
  then show ?case by simp
next
  case (Cons i p)
  then show ?case by (cases t) auto
qed


lemma unique_position:
  assumes d: "distinct (getAllTabWidgets t)"
    and a: "nodeAt p t = Some (TabWidgetInfo a)" and b: "nodeAt p' t = Some (TabWidgetInfo b)"
    and e: "tabWidget a = tabWidget b"
  shows "p = p'"
  using findPathToTabWidget_at[OF d a] findPathToTabWidget_at[OF d b] e by simp

lemma absorb_nothing:
  assumes w: "wellSplit x" and a: "absorb x [] = Some m"
  shows "m = x"
proof -
  from firstTabWidgetInfo_wellSplit[OF w] obtain dp d where
    f: "firstTabWidgetInfo x = Some (dp, d)" and at: "nodeAt dp x = Some (TabWidgetInfo d)" by blast
  have "m = updAt dp (\<lambda>_. TabWidgetInfo d) x" using a f by (simp add: absorb_def setChildren_def)
  then show ?thesis using updAt_same[OF at] by simp
qed

lemma layout_updAt_cong:
  "layoutOf t' = layoutOf t \<Longrightarrow> layoutOf y' = layoutOf y \<Longrightarrow>
   layoutOf (updAt p (\<lambda>_. y') t') = layoutOf (updAt p (\<lambda>_. y) t)"
proof (induction p arbitrary: t t')
  case Nil
  then show ?case by simp
next
  case (Cons i p)
  show ?case
  proof (cases t)
    case (TabWidgetInfo n)
    then obtain n' where "t' = TabWidgetInfo n'" using Cons.prems(1) by (cases t') auto
    then show ?thesis using TabWidgetInfo Cons.prems(1) by simp
  next
    case (SplitterInfo ori ks)
    then obtain ks' where t': "t' = SplitterInfo ori ks'" and m: "map layoutOf ks' = map layoutOf ks"
      using Cons.prems(1) by (cases t') auto
    have len: "length ks' = length ks" using m by (metis length_map)
    show ?thesis
    proof (cases "i < length ks")
      case True
      have "layoutOf (ks' ! i) = layoutOf (ks ! i)" using m True by (rule map_layoutOf_nth)
      from Cons.IH[OF this Cons.prems(2)]
      have "(map layoutOf ks')[i := layoutOf (updAt p (\<lambda>_. y') (ks' ! i))]
          = (map layoutOf ks)[i := layoutOf (updAt p (\<lambda>_. y) (ks ! i))]"
        using m by simp
      then show ?thesis using SplitterInfo t' True len by (simp add: map_update)
    next
      case False
      then show ?thesis using SplitterInfo t' len m by simp
    qed
  qed
qed

text \<open>
  Undoing a replacement: if a tree has the layout of the tree \<open>t\<close> with the node at \<open>pp\<close>
  replaced, then replacing that node once more gives the layout of \<open>t\<close> with the last
  replacement.
\<close>

lemma layout_restore:
  assumes twin: "layoutOf t2 = layoutOf (updAt pp (\<lambda>_. y1) t)"
    and rest: "layoutOf y3 = layoutOf y"
  shows "layoutOf (updAt pp (\<lambda>_. y3) t2) = layoutOf (updAt pp (\<lambda>_. y) t)"
proof -
  have "layoutOf (updAt pp (\<lambda>_. y3) t2) = layoutOf (updAt pp (\<lambda>_. y) (updAt pp (\<lambda>_. y1) t))"
    using twin rest by (rule layout_updAt_cong)
  then show ?thesis by (simp add: updAt_updAt)
qed

lemma retag_layout: "layoutOf x' = layoutOf x \<Longrightarrow> layoutOf (retag c x') = layoutOf (retag c x)"
  by (cases x; cases x') (auto simp: retag_def)

lemma mergePair_empty_right:
  assumes w: "wellSplit x" and e: "children n = []" and mp: "mergePair x (TabWidgetInfo n) = Some m"
  shows "layoutOf m = layoutOf x"
proof (cases x)
  case (TabWidgetInfo l)
  then show ?thesis using mp e by auto
next
  case (SplitterInfo ori ks)
  then have "absorb x [] = Some m" using mp e by simp
  from absorb_nothing[OF w this] show ?thesis by simp
qed

lemma mergePair_empty_left:
  assumes w: "wellSplit x" and e: "children n = []" and mp: "mergePair (TabWidgetInfo n) x = Some m"
  shows "layoutOf m = layoutOf (retag (tabWidget n) x)"
proof (cases x)
  case (TabWidgetInfo r)
  then show ?thesis using mp e by (auto simp: retag_def)
next
  case (SplitterInfo ori ks)
  then have "absorb x [] = Some m" using mp e by simp
  from absorb_nothing[OF w this] show ?thesis using SplitterInfo by (simp add: retag_def)
qed

lemma merge_new_splitter:
  assumes m: "map layoutOf K2 = map layoutOf [TabWidgetInfo g, TabWidgetInfo n]"
    and e: "children n = []"
    and w: "list_all wellSplit K2"
    and mp: "mergePair (K2 ! 0) (K2 ! Suc 0) = Some mm"
  shows "layoutOf (collapsed ori (take 0 K2 @ [mm] @ drop (0 + 2) K2)) = layoutOf (TabWidgetInfo g)"
proof -
  have len: "length K2 = 2" using arg_cong[OF m, of length] by simp
  have l0: "layoutOf (K2 ! 0) = layoutOf (TabWidgetInfo g)"
    using map_layoutOf_nth[OF m, of 0] by simp
  have l1: "layoutOf (K2 ! Suc 0) = layoutOf (TabWidgetInfo n)"
    using map_layoutOf_nth[OF m, of "Suc 0"] by simp
  from layoutOf_group[OF l1] obtain n2 where n2: "K2 ! Suc 0 = TabWidgetInfo n2" "children n2 = []"
    using e by auto
  have w0: "wellSplit (K2 ! 0)" using w len by (simp add: list_all_length)
  have "layoutOf mm = layoutOf (K2 ! 0)"
    using mergePair_empty_right[OF w0 n2(2)] mp n2(1) by simp
  then have "layoutOf mm = layoutOf (TabWidgetInfo g)" using l0 by simp
  then show ?thesis using len by (simp add: collapsed_def)
qed

lemma merge_same_axis:
  assumes m: "map layoutOf K2 = map layoutOf (take (Suc i) ks @ [TabWidgetInfo n] @ drop (Suc i) ks)"
    and i: "i < length ks" and two: "2 \<le> length ks" and e: "children n = []"
    and w: "list_all wellSplit K2"
    and j: "j = (if Suc (Suc i) = length K2 then Suc i - 1 else Suc i)"
    and mp: "mergePair (K2 ! j) (K2 ! Suc j) = Some mm"
  shows "layoutOf (collapsed ori (take j K2 @ [mm] @ drop (j + 2) K2))
       = layoutOf (SplitterInfo ori
           (if Suc i < length ks then ks[Suc i := retag (tabWidget n) (ks ! Suc i)] else ks))"
proof -
  let ?K1 = "take (Suc i) ks @ [TabWidgetInfo n] @ drop (Suc i) ks"
  have len1: "length ?K1 = Suc (length ks)" using i by simp
  have len: "length K2 = Suc (length ks)" using arg_cong[OF m, of length] len1 by simp
  have at1: "?K1 ! Suc i = TabWidgetInfo n" using i by (simp add: nth_append)
  have lay_nth: "\<And>k. k < Suc (length ks) \<Longrightarrow> layoutOf (K2 ! k) = layoutOf (?K1 ! k)"
    using map_layoutOf_nth[OF m] len1 by simp
  have "layoutOf (K2 ! Suc i) = layoutOf (TabWidgetInfo n)" using lay_nth[of "Suc i"] at1 i by simp
  from layoutOf_group[OF this] obtain n2 where n2: "K2 ! Suc i = TabWidgetInfo n2" "children n2 = []"
    "tabWidget n2 = tabWidget n"
    using e by auto
  have split3: "map layoutOf (take j K2 @ [mm] @ drop (j + 2) K2)
      = take j (map layoutOf ?K1) @ [layoutOf mm] @ drop (j + 2) (map layoutOf ?K1)"
    using m by (simp add: take_map[symmetric] drop_map[symmetric] del: append_take_drop_id)
  have len3: "Suc j < length K2 \<Longrightarrow> length (take j K2 @ [mm] @ drop (j + 2) K2) = length ks"
    using len by simp
  show ?thesis
  proof (cases "Suc i = length ks")
    case True
    then have j': "j = i" using j len by simp
    have wi: "wellSplit (K2 ! i)" using w len i by (simp add: list_all_length)
    have "layoutOf mm = layoutOf (K2 ! i)"
      using mergePair_empty_right[OF wi n2(2)] mp n2(1) j' by simp
    also have "\<dots> = layoutOf (?K1 ! i)" using lay_nth[of i] i by simp
    also have "\<dots> = layoutOf (ks ! i)" using i by (simp add: nth_append)
    finally have am: "layoutOf mm = layoutOf (ks ! i)" .
    have "take i (map layoutOf ?K1) @ [layoutOf mm] @ drop (i + 2) (map layoutOf ?K1)
        = map layoutOf (take i ks @ [ks ! i])"
      using am i True by (simp add: take_map)
    also have "take i ks @ [ks ! i] = ks" using True i by (metis take_Suc_conv_app_nth take_all order_refl)
    finally have "map layoutOf (take j K2 @ [mm] @ drop (j + 2) K2) = map layoutOf ks"
      using split3 j' by simp
    moreover have "length (take j K2 @ [mm] @ drop (j + 2) K2) = length ks"
      using len3 j' len i by simp
    ultimately show ?thesis using two True by (simp add: collapsed_def)
  next
    case False
    then have si: "Suc i < length ks" using i by simp
    have j': "j = Suc i" using j len False by simp
    have wi: "wellSplit (K2 ! Suc (Suc i))" using w len si by (simp add: list_all_length)
    have k1: "?K1 ! Suc (Suc i) = ks ! Suc i" using si by (simp add: nth_append)
    have "layoutOf (K2 ! Suc (Suc i)) = layoutOf (ks ! Suc i)"
      using lay_nth[of "Suc (Suc i)"] si k1 by simp
    then have "layoutOf (retag (tabWidget n) (K2 ! Suc (Suc i))) = layoutOf (retag (tabWidget n) (ks ! Suc i))"
      by (rule retag_layout)
    moreover have "layoutOf mm = layoutOf (retag (tabWidget n) (K2 ! Suc (Suc i)))"
      using mergePair_empty_left[OF wi n2(2), of mm] mp n2(1,3) j' by simp
    ultimately have am: "layoutOf mm = layoutOf (retag (tabWidget n) (ks ! Suc i))" by simp
    have "take (Suc i) (map layoutOf ?K1) @ [layoutOf mm] @ drop (Suc i + 2) (map layoutOf ?K1)
        = map layoutOf (take (Suc i) ks @ [retag (tabWidget n) (ks ! Suc i)] @ drop (Suc (Suc i)) ks)"
      using am si by (simp add: take_map drop_map)
    also have "take (Suc i) ks @ [retag (tabWidget n) (ks ! Suc i)] @ drop (Suc (Suc i)) ks
         = ks[Suc i := retag (tabWidget n) (ks ! Suc i)]"
      using si by (simp add: upd_conv_take_nth_drop)
    finally have "map layoutOf (take j K2 @ [mm] @ drop (j + 2) K2)
         = map layoutOf (ks[Suc i := retag (tabWidget n) (ks ! Suc i)])"
      using split3 j' by simp
    moreover have "length (take j K2 @ [mm] @ drop (j + 2) K2) = length ks"
      using len3 j' len si by simp
    ultimately show ?thesis using two si by (simp add: collapsed_def)
  qed
qed


text \<open>
  Closing the split at the content element of a group that sits at index \<open>a\<close> of a splitter:
  the splitter is the layout twin of \<open>SplitterInfo ori K1\<close>, which stands at \<open>pp\<close> in \<open>t\<close>.
\<close>

lemma close_new_group:
  assumes w2: "wellSplit (rootInfoNode s2)" and d2: "distinct (getAllTabWidgets (rootInfoNode s2))"
    and lay: "layoutOf (rootInfoNode s2) = layoutOf (updAt pp (\<lambda>_. SplitterInfo ori K1) t)"
    and orig: "nodeAt pp t = Some x0"
    and a: "a < length K1" and ka: "K1 ! a = TabWidgetInfo nn" and c: "tabWidget nn = c"
    and found: "findPathToTabContent (rootInfoNode s2) e = Some (pN, new, r)"
    and isNew: "tabWidget new = c"
    and rest: "\<And>K2 m j. map layoutOf K2 = map layoutOf K1 \<Longrightarrow> list_all wellSplit K2 \<Longrightarrow>
        j = (if Suc a = length K2 then a - 1 else a) \<Longrightarrow>
        mergePair (K2 ! j) (K2 ! Suc j) = Some m \<Longrightarrow>
        layoutOf (collapsed ori (take j K2 @ [m] @ drop (j + 2) K2)) = layoutOf y"
  shows "\<exists>s3. closeSplitAtTabContent s2 e = Inr ((), s3)
     \<and> layoutOf (rootInfoNode s3) = layoutOf (updAt pp (\<lambda>_. y) t)"
proof -
  let ?t1 = "updAt pp (\<lambda>_. SplitterInfo ori K1) t"
  have at1: "nodeAt pp ?t1 = Some (SplitterInfo ori K1)" using nodeAt_updAt_same[OF orig] by simp
  from nodeAt_layoutOf[OF lay at1] obtain Y2 where
    y2: "nodeAt pp (rootInfoNode s2) = Some Y2" and ly: "layoutOf Y2 = layoutOf (SplitterInfo ori K1)"
    by blast
  from layoutOf_splitter[OF ly] obtain K2 where Y2: "Y2 = SplitterInfo ori K2"
    and m: "map layoutOf K2 = map layoutOf K1" by blast
  have at2: "nodeAt pp (rootInfoNode s2) = Some (SplitterInfo ori K2)" using y2 Y2 by simp
  have len: "length K2 = length K1" using arg_cong[OF m, of length] by simp
  have "layoutOf (K2 ! a) = layoutOf (TabWidgetInfo nn)" using map_layoutOf_nth[OF m a] ka by simp
  from layoutOf_group[OF this] obtain n2 where n2: "K2 ! a = TabWidgetInfo n2" "tabWidget n2 = c"
    using c by auto
  have posN: "nodeAt (pp @ [a]) (rootInfoNode s2) = Some (TabWidgetInfo n2)"
    using nodeAt_child[OF at2, of a] a len n2 by simp
  have posF: "nodeAt pN (rootInfoNode s2) = Some (TabWidgetInfo new)"
    using findPathToTabContent_Some[OF found] by simp
  have pN: "pN = pp @ [a]" using unique_position[OF d2 posF posN] isNew n2 by simp
  have f: "findPathToTabContent (rootInfoNode s2) e = Some (pp @ [a], new, r)" using found pN by simp
  from closeSplit_result[OF w2 d2 f at2 refl] obtain mm where
    mp: "mergePair (K2 ! (if Suc a = length K2 then a - 1 else a))
            (K2 ! Suc (if Suc a = length K2 then a - 1 else a)) = Some mm"
    and cl: "closeSplitAtTabContent s2 e =
         Inr ((), s2\<lparr>rootInfoNode :=
            updAt pp (\<lambda>_. collapsed ori (take (if Suc a = length K2 then a - 1 else a) K2 @ [mm]
               @ drop ((if Suc a = length K2 then a - 1 else a) + 2) K2)) (rootInfoNode s2)\<rparr>)"
    by blast
  have all: "list_all wellSplit K2" using wellSplit_nodeAt[OF w2 at2] by simp
  have col: "layoutOf (collapsed ori (take (if Suc a = length K2 then a - 1 else a) K2 @ [mm]
               @ drop ((if Suc a = length K2 then a - 1 else a) + 2) K2)) = layoutOf y"
    using rest[OF m all refl mp] .
  from layout_restore[OF lay col] cl show ?thesis by simp
qed

lemma close_new_splitter:
  assumes w2: "wellSplit (rootInfoNode s2)" and d2: "distinct (getAllTabWidgets (rootInfoNode s2))"
    and lay: "layoutOf (rootInfoNode s2)
        = layoutOf (updAt p (\<lambda>_. SplitterInfo axis [TabWidgetInfo g, TabWidgetInfo n]) t)"
    and leaf: "nodeAt p t = Some (TabWidgetInfo g)"
    and e: "children n = []"
    and found: "findPathToTabContent (rootInfoNode s2) c = Some (pN, new, r)"
    and isNew: "tabWidget new = tabWidget n"
  shows "\<exists>s3. closeSplitAtTabContent s2 c = Inr ((), s3)
     \<and> layoutOf (rootInfoNode s3) = layoutOf t"
proof -
  have "\<exists>s3. closeSplitAtTabContent s2 c = Inr ((), s3)
     \<and> layoutOf (rootInfoNode s3) = layoutOf (updAt p (\<lambda>_. TabWidgetInfo g) t)"
  proof (rule close_new_group[OF w2 d2 lay leaf _ _ refl found isNew, of "Suc 0"])
    show "Suc 0 < length [TabWidgetInfo g, TabWidgetInfo n]" by simp
    show "[TabWidgetInfo g, TabWidgetInfo n] ! Suc 0 = TabWidgetInfo n" by simp
  next
    fix K2 m j
    assume m: "map layoutOf K2 = map layoutOf [TabWidgetInfo g, TabWidgetInfo n]"
      and all: "list_all wellSplit K2"
      and j: "j = (if Suc (Suc 0) = length K2 then Suc 0 - 1 else Suc 0)"
      and mp: "mergePair (K2 ! j) (K2 ! Suc j) = Some m"
    have len: "length K2 = 2" using arg_cong[OF m, of length] by simp
    have j0: "j = 0" using j len by simp
    show "layoutOf (collapsed axis (take j K2 @ [m] @ drop (j + 2) K2)) = layoutOf (TabWidgetInfo g)"
      using merge_new_splitter[OF m e all, of m axis] mp j0 by simp
  qed
  then show ?thesis using updAt_same[OF leaf] by simp
qed

lemma close_same_axis:
  assumes w2: "wellSplit (rootInfoNode s2)" and d2: "distinct (getAllTabWidgets (rootInfoNode s2))"
    and lay: "layoutOf (rootInfoNode s2)
        = layoutOf (updAt q (\<lambda>_. SplitterInfo ori (take (Suc i) ks @ [TabWidgetInfo n] @ drop (Suc i) ks)) t)"
    and at: "nodeAt q t = Some (SplitterInfo ori ks)"
    and i: "i < length ks" and two: "2 \<le> length ks"
    and e: "children n = []"
    and found: "findPathToTabContent (rootInfoNode s2) c = Some (pN, new, r)"
    and isNew: "tabWidget new = tabWidget n"
  shows "\<exists>s3. closeSplitAtTabContent s2 c = Inr ((), s3)
     \<and> layoutOf (rootInfoNode s3) = layoutOf (updAt q (\<lambda>_. SplitterInfo ori
           (if Suc i < length ks then ks[Suc i := retag (tabWidget n) (ks ! Suc i)] else ks)) t)"
proof (rule close_new_group[OF w2 d2 lay at _ _ refl found isNew, of "Suc i"])
  show "Suc i < length (take (Suc i) ks @ [TabWidgetInfo n] @ drop (Suc i) ks)" using i by simp
  show "(take (Suc i) ks @ [TabWidgetInfo n] @ drop (Suc i) ks) ! Suc i = TabWidgetInfo n"
    using i by (simp add: nth_append)
next
  fix K2 m j
  assume m: "map layoutOf K2 = map layoutOf (take (Suc i) ks @ [TabWidgetInfo n] @ drop (Suc i) ks)"
    and all: "list_all wellSplit K2"
    and j: "j = (if Suc (Suc i) = length K2 then Suc i - 1 else Suc i)"
    and mp: "mergePair (K2 ! j) (K2 ! Suc j) = Some m"
  show "layoutOf (collapsed ori (take j K2 @ [m] @ drop (j + 2) K2)) = layoutOf (SplitterInfo ori
           (if Suc i < length ks then ks[Suc i := retag (tabWidget n) (ks ! Suc i)] else ks))"
    using m i two e all j mp by (rule merge_same_axis)
qed

lemma set_Layout_layoutOf: "set_Layout (layoutOf t) = set (getAllTabWidgets t)"
  by (induction t) auto

lemma layout_rename_none:
  "w' \<notin> set (getAllTabWidgets t) \<Longrightarrow> map_Layout (\<lambda>w. if w = w' then c else w) (layoutOf t) = layoutOf t"
proof -
  assume n: "w' \<notin> set (getAllTabWidgets t)"
  have "map_Layout (\<lambda>w. if w = w' then c else w) (layoutOf t) = map_Layout id (layoutOf t)"
    by (rule Layout.map_cong) (use n in \<open>auto simp: set_Layout_layoutOf\<close>)
  then show ?thesis by (simp add: Layout.map_id)
qed

text \<open>Renaming the tab widget of one group in the layout of a tree with distinct tab widgets.\<close>

lemma layout_rename:
  assumes d: "distinct (getAllTabWidgets t)" and at: "nodeAt pos t = Some (TabWidgetInfo r)"
  shows "map_Layout (\<lambda>w. if w = tabWidget r then c else w) (layoutOf t)
       = layoutOf (updAt pos (\<lambda>_. TabWidgetInfo (r\<lparr>tabWidget := c\<rparr>)) t)"
  using d at
proof (induction pos arbitrary: t)
  case Nil
  then show ?case by simp
next
  case (Cons i pos)
  then obtain ori ks where t: "t = SplitterInfo ori ks" and i: "i < length ks"
    and sub: "nodeAt pos (ks ! i) = Some (TabWidgetInfo r)"
    by (cases t) (auto split: if_splits)
  have dt: "distinct (getAllTabWidgets (SplitterInfo ori ks))" using Cons.prems(1) t by simp
  have di: "distinct (getAllTabWidgets (ks ! i))" using dt i by (rule ids_distinct_nth)
  have mem: "tabWidget r \<in> set (getAllTabWidgets (ks ! i))"
    using sub by (rule nodeAt_leaf_tabWidget)
  have ih: "map_Layout (\<lambda>w. if w = tabWidget r then c else w) (layoutOf (ks ! i))
       = layoutOf (updAt pos (\<lambda>_. TabWidgetInfo (r\<lparr>tabWidget := c\<rparr>)) (ks ! i))"
    using Cons.IH[OF di sub] .
  have "map (map_Layout (\<lambda>w. if w = tabWidget r then c else w)) (map layoutOf ks)
      = map layoutOf (ks[i := updAt pos (\<lambda>_. TabWidgetInfo (r\<lparr>tabWidget := c\<rparr>)) (ks ! i)])"
  proof (rule nth_equalityI)
    show "length (map (map_Layout (\<lambda>w. if w = tabWidget r then c else w)) (map layoutOf ks))
        = length (map layoutOf (ks[i := updAt pos (\<lambda>_. TabWidgetInfo (r\<lparr>tabWidget := c\<rparr>)) (ks ! i)]))"
      by simp
  next
    fix k assume "k < length (map (map_Layout (\<lambda>w. if w = tabWidget r then c else w)) (map layoutOf ks))"
    then have k: "k < length ks" by simp
    show "map (map_Layout (\<lambda>w. if w = tabWidget r then c else w)) (map layoutOf ks) ! k
        = map layoutOf (ks[i := updAt pos (\<lambda>_. TabWidgetInfo (r\<lparr>tabWidget := c\<rparr>)) (ks ! i)]) ! k"
    proof (cases "k = i")
      case True
      then show ?thesis using ih i by simp
    next
      case False
      have "set (getAllTabWidgets (ks ! k)) \<inter> set (getAllTabWidgets (ks ! i)) = {}"
        using ids_other_disjoint[OF dt i k] False by blast
      then have "tabWidget r \<notin> set (getAllTabWidgets (ks ! k))" using mem by blast
      from layout_rename_none[OF this] show ?thesis using k False by simp
    qed
  qed
  then show ?case using t i by simp
qed

lemma same_axis_target:
  assumes d: "distinct (getAllTabWidgets t)" and at: "nodeAt q t = Some (SplitterInfo ori ks)"
  shows "layoutOf (updAt q (\<lambda>_. SplitterInfo ori
           (if Suc i < length ks then ks[Suc i := retag c (ks ! Suc i)] else ks)) t)
       = (case (if Suc i < length ks
                then (case ks ! Suc i of TabWidgetInfo r \<Rightarrow> Some (tabWidget r)
                                        | SplitterInfo ori' ks' \<Rightarrow> None)
                else None) of
            None \<Rightarrow> layoutOf t
          | Some w' \<Rightarrow> map_Layout (\<lambda>w. if w = w' then c else w) (layoutOf t))"
proof (cases "Suc i < length ks")
  case False
  then show ?thesis using updAt_same[OF at] by simp
next
  case True
  show ?thesis
  proof (cases "ks ! Suc i")
    case (SplitterInfo ori' ks')
    then have "retag c (ks ! Suc i) = ks ! Suc i" by (simp add: retag_def)
    then have "ks[Suc i := retag c (ks ! Suc i)] = ks" by (simp only: list_update_id)
    then show ?thesis using True SplitterInfo updAt_same[OF at] by simp
  next
    case (TabWidgetInfo r)
    have leaf: "nodeAt (q @ [Suc i]) t = Some (TabWidgetInfo r)"
      using nodeAt_child[OF at, of "Suc i"] True TabWidgetInfo by simp
    have "updAt q (\<lambda>_. SplitterInfo ori (ks[Suc i := TabWidgetInfo (r\<lparr>tabWidget := c\<rparr>)])) t
        = updAt (q @ [Suc i]) (\<lambda>_. TabWidgetInfo (r\<lparr>tabWidget := c\<rparr>)) t"
      using updAt_child[OF at True, of "TabWidgetInfo (r\<lparr>tabWidget := c\<rparr>)"] by (simp add: setKids_def)
    then show ?thesis using True TabWidgetInfo layout_rename[OF d leaf, of c] by (simp add: retag_def)
  qed
qed

lemma roundTripStart_inv: "layoutInv roundTripStart"
  by code_simp

lemma roundTripStart_root:
  "rootInfoNode roundTripStart = SplitterInfo VERTICAL
     [TabWidgetInfo (newGroup 1 []),
      TabWidgetInfo (newGroup 2 [\<lparr>ref = 0, tab = CallerTab 1, content = 100\<rparr>])]"
  "tabWidgetIdCounter roundTripStart = 2"
  by code_simp+

lemma roundTripSplit_found:
  "findPathToTabContent (rootInfoNode roundTripSplit) 1001
     = Some ([1], \<lparr>children = [], tabWidget = 3, emptyTab = Some (CreatedTab 2),
                   emptyTabContent = Some 1001\<rparr>, None)"
  by code_simp

lemma roundTripSplit_close:
  "map_sum fst (\<lambda>(u, s3). layoutOf (rootInfoNode s3)) (closeSplitAtTabContent roundTripSplit 1001)
     = Inr (Split VERTICAL [Group 1 [], Group 3 [\<lparr>ref = 0, tab = CallerTab 1, content = 100\<rparr>]])"
  by code_simp

lemma roundTripSplit_new:
  "fst (splitAfterTabWidget roundTripStart 1 VERTICAL) = Some 3"
  "fst (getEmptyContentByTabWidget roundTripSplit 3) = Some 1001"
  by code_simp+

lemma roundTripStart_rightGroup: "rightGroup (rootInfoNode roundTripStart) [0] VERTICAL = Some 2"
  by code_simp


text \<open>
  A factory that returns the same element for every group: the placeholder content of the
  new group 3 is also that of group 1, the search finds group 1, and closing the split at
  it merges the groups 1 and 2.
\<close>

lemma constant_factory_example:
  "fst (getEmptyContentByTabWidget constantSplit 3) = Some 777
   \<and> arrangementOf (rootInfoNode constantStart)
       = Split VERTICAL [Group () [], Group () [\<lparr>ref = 0, tab = CallerTab 1, content = 100\<rparr>]]
   \<and> map_sum fst (\<lambda>(u, s3). arrangementOf (rootInfoNode s3)) (closeSplitAtTabContent constantSplit 777)
       = Inr (Split VERTICAL [Group () [\<lparr>ref = 0, tab = CallerTab 1, content = 100\<rparr>], Group () []])"
  by code_simp
lemma absorb_appendToFirst:
  "wellSplit sub \<Longrightarrow> absorb sub slots = Some (appendToFirst sub slots)"
proof (induction sub slots rule: appendToFirst.induct)
  case (1 n slots)
  show ?case by (simp add: absorb_def setChildren_def)
next
  case (2 ori slots)
  then show ?case by simp
next
  case (3 ori k ks slots)
  then have wk: "wellSplit k" by simp
  from firstTabWidgetInfo_wellSplit[OF wk] obtain dp d where
    f: "firstTabWidgetInfo k = Some (dp, d)" by blast
  have "absorb k slots = Some (appendToFirst k slots)" using 3 wk by simp
  then have u: "updAt dp (setChildren d (children d @ slots)) k = appendToFirst k slots"
    using f by (simp add: absorb_def)
  show ?case using f u by (simp add: absorb_def)
qed

lemma mergePair_merged:
  assumes "wellSplit a" and "wellSplit b" and "mergePair a b = Some m"
  shows "m = merged a b"
  using assms absorb_appendToFirst
  by (cases a; cases b) (auto simp del: wellSplit.simps)

lemma nestedLayout_root:
  "rootInfoNode nestedLayout = SplitterInfo VERTICAL
     [TabWidgetInfo (newGroup 1 [\<lparr>ref = 0, tab = CallerTab 1, content = 101\<rparr>]),
      SplitterInfo HORIZONTAL
        [TabWidgetInfo (newGroup 2 [\<lparr>ref = 1, tab = CallerTab 2, content = 102\<rparr>]),
         TabWidgetInfo (newGroup 3 [\<lparr>ref = 2, tab = CallerTab 3, content = 103\<rparr>])]]"
  by code_simp


lemma leaves_nonempty: "wellSplit t \<Longrightarrow> leaves t \<noteq> []"
proof (induction t)
  case (TabWidgetInfo n)
  show ?case by simp
next
  case (SplitterInfo ori ks)
  then obtain k ks' where ks: "ks = k # ks'" by (cases ks) auto
  then have "leaves k \<noteq> []" using SplitterInfo by simp
  then show ?case using ks by simp
qed

text \<open>The group that receives the slots is the first group of the subtree in traversal order.\<close>

lemma appendToFirst_leaves:
  "wellSplit sub \<Longrightarrow>
   leaves (appendToFirst sub slots)
     = (hd (leaves sub))\<lparr>children := children (hd (leaves sub)) @ slots\<rparr> # tl (leaves sub)"
proof (induction sub slots rule: appendToFirst.induct)
  case (1 n slots)
  show ?case by simp
next
  case (2 ori slots)
  then show ?case by simp
next
  case (3 ori k ks slots)
  then have wk: "wellSplit k" by simp
  have ne: "leaves k \<noteq> []" using wk by (rule leaves_nonempty)
  show ?case using 3(1)[OF wk] ne by simp
qed
text \<open>Facts about the numbers: the exponent, symmetry of rounding, and values that rounding keeps.\<close>

lemma pow2_powi: "pow2 k = 2 powi k"
  by (simp add: pow2_def power_int_def inverse_eq_divide power_one_over)

lemma pow2_pos: "0 < pow2 k"
  by (simp add: pow2_powi)

lemma pow2_add: "pow2 (a + b) = pow2 a * pow2 b"
  by (simp add: pow2_powi power_int_add)

lemma pow2_mono: "a \<le> b \<Longrightarrow> pow2 a \<le> pow2 b"
  by (simp add: pow2_powi power_int_increasing)

lemma pow2_less_exp: "pow2 a < pow2 b \<Longrightarrow> a < b"
proof (rule ccontr)
  assume l: "pow2 a < pow2 b" and "\<not> a < b"
  then have "pow2 b \<le> pow2 a" by (intro pow2_mono) simp
  with l show False by simp
qed

lemma pow2_nat: "pow2 (int n) = 2 ^ n"
  by (simp add: pow2_def)

lemma pow2_neg_nat: "pow2 (- int n) = 1 / 2 ^ n"
  by (simp add: pow2_powi power_int_minus inverse_eq_divide)

lemma exponent_bounds:
  assumes "x \<noteq> 0"
  shows "pow2 (exponent x) \<le> \<bar>x\<bar> \<and> \<bar>x\<bar> < pow2 (exponent x + 1)"
proof (cases "1 \<le> \<bar>x\<bar>")
  case True
  define n where "n = \<lfloor>\<bar>x\<bar>\<rfloor>"
  have n1: "1 \<le> n" using True by (simp add: n_def le_floor_iff)
  then have npos: "0 < n" by simp
  have e: "exponent x = bitlen n - 1" using True by (simp add: exponent_def n_def)
  from bitlen_bounds[OF npos] have lo: "2 ^ nat (bitlen n - 1) \<le> n" and hi: "n < 2 ^ nat (bitlen n)"
    by simp_all
  have b1: "1 \<le> bitlen n" using hi npos by (cases "bitlen n \<le> 0") auto
  have nx: "of_int n \<le> \<bar>x\<bar>" and xn: "\<bar>x\<bar> < of_int n + 1"
    unfolding n_def using floor_correct[of "\<bar>x\<bar>"] by simp_all
  have "pow2 (bitlen n - 1) = of_int (2 ^ nat (bitlen n - 1))" using b1 by (simp add: pow2_def)
  also have "\<dots> \<le> of_int n" using lo by (simp only: of_int_le_iff)
  finally have l: "pow2 (exponent x) \<le> \<bar>x\<bar>" using nx e by simp
  have "n + 1 \<le> 2 ^ nat (bitlen n)" using hi by simp
  then have "(of_int (n + 1) :: rat) \<le> of_int (2 ^ nat (bitlen n))" by (simp only: of_int_le_iff)
  moreover have "pow2 (bitlen n) = of_int (2 ^ nat (bitlen n))" using b1 by (simp add: pow2_def)
  ultimately have "\<bar>x\<bar> < pow2 (bitlen n)" using xn by simp
  then show ?thesis using l e by simp
next
  case False
  then have x1: "\<bar>x\<bar> < 1" by simp
  have xp: "0 < \<bar>x\<bar>" using assms by simp
  define y where "y = 1 / \<bar>x\<bar>"
  have y1: "1 < y" using x1 xp by (simp add: y_def)
  have yp: "0 < y" using y1 by simp
  define n where "n = \<lceil>y\<rceil> - 1"
  have ny: "of_int n < y" and yn: "y \<le> of_int n + 1"
    unfolding n_def using ceiling_correct[of y] by simp_all
  have "1 < \<lceil>y\<rceil>" using y1 by (simp add: less_ceiling_iff)
  then have npos: "0 < n" by (simp add: n_def)
  have e: "exponent x = - bitlen n" using False by (simp add: exponent_def n_def y_def)
  from bitlen_bounds[OF npos] have lo: "2 ^ nat (bitlen n - 1) \<le> n" and hi: "n < 2 ^ nat (bitlen n)"
    by simp_all
  have b1: "1 \<le> bitlen n" using hi npos by (cases "bitlen n \<le> 0") auto
  have "n + 1 \<le> 2 ^ nat (bitlen n)" using hi by simp
  then have "(of_int (n + 1) :: rat) \<le> of_int (2 ^ nat (bitlen n))" by (simp only: of_int_le_iff)
  moreover have "of_int (2 ^ nat (bitlen n)) = (2::rat) ^ nat (bitlen n)" by simp
  moreover have "y \<le> of_int (n + 1)" using yn by simp
  ultimately have yhi: "y \<le> 2 ^ nat (bitlen n)" by linarith
  have "(2::rat) ^ nat (bitlen n - 1) = of_int (2 ^ nat (bitlen n - 1))" by simp
  also have "\<dots> \<le> of_int n" using lo by (simp only: of_int_le_iff)
  also have "\<dots> < y" by (rule ny)
  finally have ylo: "2 ^ nat (bitlen n - 1) < y" .
  have xy: "\<bar>x\<bar> = 1 / y" using xp by (simp add: y_def)
  have p1: "pow2 (- bitlen n) = 1 / 2 ^ nat (bitlen n)" using b1 by (simp add: pow2_def)
  have p2: "pow2 (- bitlen n + 1) = 1 / 2 ^ nat (bitlen n - 1)"
  proof (cases "bitlen n = 1")
    case True
    then show ?thesis by (simp add: pow2_def)
  next
    case False
    then have "- bitlen n + 1 < 0" using b1 by simp
    moreover have "nat (- (- bitlen n + 1)) = nat (bitlen n - 1)" by simp
    ultimately show ?thesis by (simp add: pow2_def)
  qed
  have l: "pow2 (- bitlen n) \<le> \<bar>x\<bar>"
    unfolding p1 xy using yhi yp by (simp add: frac_le)
  have h: "\<bar>x\<bar> < pow2 (- bitlen n + 1)"
    unfolding p2 xy using ylo yp by (simp add: frac_less2)
  show ?thesis using l h e by simp
qed

lemma roundEven_of_int [simp]: "roundEven (of_int m) = m"
  by (simp add: roundEven_def)

lemma roundEven_neg: "roundEven (- x) = - roundEven x"
proof (cases "x = of_int \<lfloor>x\<rfloor>")
  case True
  then obtain m where "x = of_int m" by blast
  then have "- x = of_int (- m)" by simp
  then show ?thesis using \<open>x = of_int m\<close> by (simp only: roundEven_of_int)
next
  case False
  define f where "f = \<lfloor>x\<rfloor>"
  have "of_int f \<le> x" by (simp add: f_def)
  have xf: "x < of_int f + 1" using floor_correct[of x] by (simp add: f_def)
  have fx: "of_int f < x" using False \<open>of_int f \<le> x\<close> unfolding f_def by (metis order_le_less)
  have fl: "\<lfloor>- x\<rfloor> = - f - 1"
    by (rule floor_unique) (use fx xf in simp_all)
  show ?thesis
    unfolding roundEven_def Let_def fl f_def[symmetric]
    using fx xf by (auto simp: field_simps)
qed

lemma exponent_minus [simp]: "exponent (- x) = exponent x"
  by (simp add: exponent_def)

lemma roundNumber_minus: "roundNumber (- x) = nneg (roundNumber x)"
proof (cases "x = 0")
  case True
  then show ?thesis by (simp add: roundNumber_def)
next
  case False
  define q where "q = pow2 (max (exponent x - 52) (- 1074))"
  have r: "of_int (roundEven (- x / q)) * q = - (of_int (roundEven (x / q)) * q)"
    using roundEven_neg[of "x / q"] by simp
  show ?thesis
    using False unfolding roundNumber_def Let_def exponent_minus q_def[symmetric] r
    by (auto simp: not_less)
qed

text \<open>A value that fits the format is not changed by rounding.\<close>

lemma roundNumber_exact:
  assumes x: "x = of_int n * pow2 k" and n: "\<bar>n\<bar> < 2 ^ 53" and k: "- 1074 \<le> k"
    and b: "\<bar>x\<bar> < pow2 1024"
  shows "roundNumber x = Fin x"
proof (cases "x = 0")
  case True
  then show ?thesis by (simp add: roundNumber_def)
next
  case False
  define e where "e = exponent x"
  define kq where "kq = max (e - 52) (- 1074)"
  have "pow2 e \<le> \<bar>x\<bar>" using exponent_bounds[OF False] by (simp add: e_def)
  also have "\<bar>x\<bar> = of_int \<bar>n\<bar> * pow2 k" using x pow2_pos[of k] by (simp add: abs_mult)
  also have "\<dots> < of_int (2 ^ 53) * pow2 k"
    using n pow2_pos[of k] by (intro mult_strict_right_mono) (simp_all only: of_int_less_iff)
  also have "\<dots> = pow2 53 * pow2 k" by (simp add: pow2_def)
  also have "\<dots> = pow2 (53 + k)" by (simp only: pow2_add)
  finally have "e < 53 + k" by (rule pow2_less_exp)
  then have kqk: "kq \<le> k" using k by (simp add: kq_def)
  then obtain d where d: "k = kq + int d" using zle_iff_zadd by blast
  have "x / pow2 kq = of_int n * pow2 (int d)"
    using x d pow2_pos[of kq] by (simp add: pow2_add)
  also have "\<dots> = of_int (n * 2 ^ d)" by (simp add: pow2_nat)
  finally have "roundEven (x / pow2 kq) = n * 2 ^ d" by (simp only: roundEven_of_int)
  then have "of_int (roundEven (x / pow2 kq)) * pow2 kq = x"
    using x d by (simp add: pow2_add pow2_nat)
  then show ?thesis
    using False b unfolding roundNumber_def Let_def e_def[symmetric] kq_def[symmetric]
    by simp
qed

lemma pow2_1024: "(2::rat) ^ 53 \<le> pow2 1024"
proof -
  have "pow2 53 \<le> pow2 1024" by (rule pow2_mono) simp
  then show ?thesis by (simp add: pow2_def)
qed

lemma roundNumber_int: "\<bar>n\<bar> < 2 ^ 53 \<Longrightarrow> roundNumber (of_int n) = Fin (of_int n)"
proof -
  assume n: "\<bar>n\<bar> < 2 ^ 53"
  then have "(of_int \<bar>n\<bar> :: rat) < of_int (2 ^ 53)" by (simp only: of_int_less_iff)
  then have "\<bar>of_int n :: rat\<bar> < pow2 1024" using pow2_1024 by simp
  then show ?thesis
    using roundNumber_exact[of "of_int n" n 0] n by (simp add: pow2_def)
qed

lemma roundNumber_half_int: "\<bar>n\<bar> < 2 ^ 53 \<Longrightarrow> roundNumber (of_int n / 2) = Fin (of_int n / 2)"
proof -
  assume n: "\<bar>n\<bar> < 2 ^ 53"
  then have "(of_int \<bar>n\<bar> :: rat) < of_int (2 ^ 53)" by (simp only: of_int_less_iff)
  then have "\<bar>of_int n / 2 :: rat\<bar> < pow2 1024" using pow2_1024 by simp
  then show ?thesis
    using roundNumber_exact[of "of_int n / 2" n "- 1"] n by (simp add: pow2_def)
qed

lemma roundNumber_numeral [simp]:
  "(numeral w :: int) < 2 ^ 53 \<Longrightarrow> roundNumber (numeral w) = Fin (numeral w)"
  "(numeral w :: int) < 2 ^ 53 \<Longrightarrow> roundNumber (- numeral w) = Fin (- numeral w)"
  "(numeral w :: int) < 2 ^ 53 \<Longrightarrow> roundNumber (numeral w / 2) = Fin (numeral w / 2)"
  "(numeral w :: int) < 2 ^ 53 \<Longrightarrow> roundNumber (- (numeral w / 2)) = Fin (- (numeral w / 2))"
  "roundNumber 0 = Fin 0" "roundNumber 1 = Fin 1" "roundNumber (- 1) = Fin (- 1)"
  using roundNumber_int[of "numeral w"] roundNumber_int[of "- numeral w"]
    roundNumber_half_int[of "numeral w"] roundNumber_half_int[of "- numeral w"]
    roundNumber_int[of 0] roundNumber_int[of 1] roundNumber_int[of "- 1"]
  by simp_all

lemma nmin_Fin [simp]: "nmin (Fin a) (Fin b) = Fin (min a b)"
  by (auto simp: nmin_def min_def)

lemma nmax_Fin [simp]: "nmax (Fin a) (Fin b) = Fin (max a b)"
  by (auto simp: nmax_def max_def)

lemma finiteNumber_cases:
  "finiteNumber x \<Longrightarrow> \<exists>q. x = Fin q \<and> roundNumber q = Fin q \<and> roundNumber (- q) = Fin (- q)"
  by (cases x) (auto simp: finiteNumber_def roundNumber_minus)

lemma transform_turned:
  assumes "finiteBox pos"
  shows "transformTabWidgetPosition pos (Fin (- 1), Fin 0, Fin 0, Fin 1) = turnedBox ToLeft pos"
    and "transformTabWidgetPosition pos (Fin 1, Fin 0, Fin 0, Fin 1) = turnedBox ToRight pos"
    and "transformTabWidgetPosition pos (Fin 0, Fin 1, Fin (- 1), Fin 0) = turnedBox Above pos"
    and "transformTabWidgetPosition pos (Fin 0, Fin (- 1), Fin 1, Fin 0) = turnedBox Below pos"
proof -
  from assms obtain l r t b where
    l: "left pos = Fin l" "roundNumber l = Fin l" "roundNumber (- l) = Fin (- l)"
    and r: "right pos = Fin r" "roundNumber r = Fin r" "roundNumber (- r) = Fin (- r)"
    and t: "top' pos = Fin t" "roundNumber t = Fin t" "roundNumber (- t) = Fin (- t)"
    and b: "bottom pos = Fin b" "roundNumber b = Fin b" "roundNumber (- b) = Fin (- b)"
    unfolding finiteBox_def by (metis finiteNumber_cases)
  have z: "roundNumber 0 = Fin 0" by (simp add: roundNumber_def)
  show "transformTabWidgetPosition pos (Fin (- 1), Fin 0, Fin 0, Fin 1) = turnedBox ToLeft pos"
    by (simp add: transformTabWidgetPosition_def turnedBox_def Let_def l r t b z)
  show "transformTabWidgetPosition pos (Fin 1, Fin 0, Fin 0, Fin 1) = turnedBox ToRight pos"
    by (simp add: transformTabWidgetPosition_def turnedBox_def Let_def l r t b z)
  show "transformTabWidgetPosition pos (Fin 0, Fin 1, Fin (- 1), Fin 0) = turnedBox Above pos"
    by (simp add: transformTabWidgetPosition_def turnedBox_def Let_def l r t b z)
  show "transformTabWidgetPosition pos (Fin 0, Fin (- 1), Fin 1, Fin 0) = turnedBox Below pos"
    by (simp add: transformTabWidgetPosition_def turnedBox_def Let_def l r t b z)
qed

lemma turnedBox_fields [simp]:
  "tabWidgetInfo (turnedBox d pos) = tabWidgetInfo pos"
  "\<exists>q. left (turnedBox d pos) = Fin q"
  by (simp_all add: turnedBox_def split_beta)

lemma insertSorted_insort:
  assumes "\<forall>y\<in>set (x # ys). \<exists>q. left y = Fin q"
  shows "insertSorted compareLeft x ys = insort_key (\<lambda>h. valueOf (left h)) x ys"
  using assms
proof (induction ys)
  case Nil
  show ?case by simp
next
  case (Cons y ys)
  then obtain a b where "left x = Fin a" "left y = Fin b" by auto
  then have "(compareLeft x y \<le> 0) = (valueOf (left x) \<le> valueOf (left y))"
    by (auto simp: compareLeft_def)
  then show ?case using Cons by simp
qed

lemma arraySort_sort_key:
  "\<forall>y\<in>set xs. \<exists>q. left y = Fin q \<Longrightarrow> arraySort compareLeft xs = sort_key (\<lambda>h. valueOf (left h)) xs"
proof (induction xs)
  case Nil
  show ?case by (simp add: arraySort_def)
next
  case (Cons x xs)
  then have ih: "arraySort compareLeft xs = sort_key (\<lambda>h. valueOf (left h)) xs" by simp
  have "\<forall>y\<in>set (x # sort_key (\<lambda>h. valueOf (left h)) xs). \<exists>q. left y = Fin q"
    using Cons.prems by simp
  from insertSorted_insort[OF this] show ?case using ih by (simp add: arraySort_def)
qed

lemma getTabWidgetInDirection_turned:
  assumes tr: "\<And>pos. pos \<in> set rawPositions \<Longrightarrow> transformTabWidgetPosition pos m = turnedBox d pos"
    and has: "w \<in> tabWidgetInfo ` set rawPositions"
  shows "getTabWidgetInDirection rawPositions w m = Inr (nearestInDirection d rawPositions w)"
proof -
  define boxes where "boxes = map (turnedBox d) rawPositions"
  have pos: "map (\<lambda>pos. transformTabWidgetPosition pos m) rawPositions = boxes"
    unfolding boxes_def using tr by (intro map_cong) auto
  have "filter (\<lambda>b. tabWidgetInfo b = w) boxes \<noteq> []"
    using has by (auto simp: boxes_def filter_empty_conv)
  then obtain start rest where st: "filter (\<lambda>b. tabWidgetInfo b = w) boxes = start # rest"
    by (cases "filter (\<lambda>b. tabWidgetInfo b = w) boxes") auto
  define cx where "cx = nhalf (nadd (left start) (right start))"
  define cy where "cy = nhalf (nadd (top' start) (bottom start))"
  define hits where "hits = filter (isHit cx cy) boxes"
  have hits_eq: "hits = filter (\<lambda>b. nless cx (left b) \<and> nle (top' b) cy \<and> nless cy (bottom b)) boxes"
    unfolding hits_def isHit_def by (rule filter_cong) auto
  have fin: "\<forall>y\<in>set hits. \<exists>q. left y = Fin q" by (auto simp: hits_def boxes_def)
  have srt: "arraySort compareLeft hits = sort_key (\<lambda>h. valueOf (left h)) hits"
    using fin by (rule arraySort_sort_key)
  have run: "getTabWidgetInDirection rawPositions w m =
      (if hits \<noteq> [] then Inr (Some (tabWidgetInfo (hd (sort_key (\<lambda>h. valueOf (left h)) hits)))) else Inr None)"
    using st unfolding getTabWidgetInDirection_def pos Let_def hits_def[symmetric] cx_def[symmetric]
      cy_def[symmetric]
    by (simp add: cx_def[symmetric] cy_def[symmetric] hits_def[symmetric] srt)
  have spec: "nearestInDirection d rawPositions w =
      (if hits = [] then None
       else Some (tabWidgetInfo (hd (filter (\<lambda>h. valueOf (left h) = Min ((\<lambda>h. valueOf (left h)) ` set hits)) hits))))"
    unfolding nearestInDirection_def boxes_def[symmetric] Let_def st
    by (simp add: cx_def[symmetric] cy_def[symmetric] hits_eq[symmetric])
  show ?thesis
  proof (cases "hits = []")
    case True
    then show ?thesis using run spec by simp
  next
    case False
    then show ?thesis using run spec hd_sort_key_first_min[OF False, of "\<lambda>h. valueOf (left h)"] by simp
  qed
qed

lemma grid_finite: "\<forall>pos\<in>set grid. finiteBox pos"
  by (simp add: grid_def box_def finiteBox_def finiteNumber_def)

lemma grid_nearest:
  "nearestInDirection ToRight grid 1 = Some 2"
  "nearestInDirection Below grid 1 = Some 3"
  "nearestInDirection ToLeft grid 1 = None"
  "nearestInDirection Above grid 1 = None"
  "nearestInDirection ToLeft grid 4 = Some 3"
  "nearestInDirection Above grid 4 = Some 2"
  "nearestInDirection ToRight grid 4 = None"
  "nearestInDirection Below grid 4 = None"
  by (simp_all add: nearestInDirection_def grid_def box_def turnedBox_def nle_def Let_def)

lemma roundNumber_tie: "roundNumber (2 ^ 54 + 6) = Fin (2 ^ 54 + 8)"
proof -
  have f: "\<lfloor>9007199254740995 / (2::rat)\<rfloor> = 4503599627370497"
    by (rule floor_unique) simp_all
  show ?thesis
    by (simp add: roundNumber_def exponent_def pow2_def roundEven_def compute_bitlen Let_def f)
qed

lemma roundNumber_even_int:
  assumes n: "\<bar>n\<bar> < 2 ^ 53"
  shows "roundNumber (2 * of_int n) = Fin (2 * of_int n)"
proof -
  have e: "2 * (of_int n :: rat) = of_int n * pow2 1" by (simp add: pow2_def)
  have "(of_int \<bar>n\<bar> :: rat) < of_int (2 ^ 53)" using n by (simp only: of_int_less_iff)
  then have "\<bar>of_int n :: rat\<bar> < pow2 53" by (simp add: pow2_def)
  then have "\<bar>2 * of_int n :: rat\<bar> < pow2 1 * pow2 53" by (simp add: pow2_def abs_mult)
  also have "\<dots> = pow2 54" by (simp add: pow2_add[symmetric])
  also have "\<dots> \<le> pow2 1024" by (rule pow2_mono) simp
  finally have b: "\<bar>2 * of_int n :: rat\<bar> < pow2 1024" .
  show ?thesis using roundNumber_exact[OF e n _ b] by simp
qed

lemma roundNumber_tie_numeral: "roundNumber 18014398509481990 = Fin 18014398509481992"
  using roundNumber_tie by simp

lemma rounded_centre_example:
  "getTabWidgetToRight
     [box 9007199254740994 9007199254740996 0 10 1, box 9007199254740996 9007199254740998 0 10 2] 1
   = Inr None"
proof -
  have h: "roundNumber 9007199254740996 = Fin 9007199254740996"
    "roundNumber 9007199254740994 = Fin 9007199254740994"
    "roundNumber 9007199254740998 = Fin 9007199254740998"
    using roundNumber_even_int[of 4503599627370498] roundNumber_even_int[of 4503599627370497]
      roundNumber_even_int[of 4503599627370499]
    by simp_all
  show ?thesis
    by (simp add: getTabWidgetToRight_def getTabWidgetInDirection_def box_def
        transformTabWidgetPosition_def nsub_def isHit_def nle_def arraySort_def compareLeft_def Let_def h
        roundNumber_tie_numeral)
qed

section \<open>The claims\<close>

text \<open>
  C5: an operation whose argument is not found logs at severe level, leaves the tree
  unchanged and returns null; it never throws. The source breaks this for
  \<open>moveTabToTabWidget\<close>: on the initial layout, moving a tab that is in no group throws a
  \<open>TypeError\<close>, and nothing is logged.
\<close>

theorem moveTabToTabWidget_absent_tab_throws:
  "moveTabToTabWidget (newSplitLayout 0 0) (CallerTab 7) 1 0 = Inl (TypeError, newSplitLayout 0 0)"
  by (simp add: moveTabToTabWidget_def newSplitLayout_def)

text \<open>
  C1: after every sequence of calls on a new layout, every splitter of the tree has at least
  two children, so none has exactly one and the root is never a splitter with fewer than
  two. The sequences may hold every operation of the class, with the calls that throw; a
  sequence without \<open>moveTabToTabWidget\<close>, such as a sequence of splits and merges, always
  has a resulting layout. Splitters with one child in a chain are not all removed by
  \<open>_removeRedundantSplitters\<close>, but no such chain arises: a merge leaves at most one
  splitter with one child.
\<close>

theorem no_redundant_splitter:
  "(list_all notMove ops \<longrightarrow> runOps (newSplitLayout widgetIds tabIds) ops \<noteq> None)
   \<and> (\<forall>s. runOps (newSplitLayout widgetIds tabIds) ops = Some s \<longrightarrow>
          wellSplit (rootInfoNode s)
          \<and> (\<forall>p ori ks. nodeAt p (rootInfoNode s) = Some (SplitterInfo ori ks) \<longrightarrow> 2 \<le> length ks))"
proof (intro conjI impI allI)
  assume "list_all notMove ops"
  then show "runOps (newSplitLayout widgetIds tabIds) ops \<noteq> None" by (rule runOps_notMove)
next
  fix s assume "runOps (newSplitLayout widgetIds tabIds) ops = Some s"
  then have "layoutInv s" using newSplitLayout_inv runOps_inv by blast
  then show "wellSplit (rootInfoNode s)" by (simp add: layoutInv_def)
next
  fix s p ori ks
  assume "runOps (newSplitLayout widgetIds tabIds) ops = Some s"
    and at: "nodeAt p (rootInfoNode s) = Some (SplitterInfo ori ks)"
  then have "layoutInv s" using newSplitLayout_inv runOps_inv by blast
  then have "wellSplit (rootInfoNode s)" by (simp add: layoutInv_def)
  then show "2 \<le> length ks" using at by (rule wellSplit_everywhere)
qed

theorem no_redundant_splitter_witness:
  "list_all notMove exampleOps
   \<and> (\<exists>s. runOps (newSplitLayout 0 0) exampleOps = Some s \<and> wellSplit (rootInfoNode s)
          \<and> rootInfoNode s = SplitterInfo HORIZONTAL
               [TabWidgetInfo (newGroup 2 [\<lparr>ref = 1, tab = CallerTab 2, content = 102\<rparr>,
                                          \<lparr>ref = 0, tab = CallerTab 1, content = 101\<rparr>]),
                TabWidgetInfo (newGroup 3 [])])"
proof -
  have a: "list_all notMove exampleOps" by (simp add: exampleOps_def)
  from no_redundant_splitter[of exampleOps 0 0] a obtain s where
    s: "runOps (newSplitLayout 0 0) exampleOps = Some s" and w: "wellSplit (rootInfoNode s)" by auto
  then show ?thesis using a exampleOps_result by auto
qed

text \<open>
  C2: for a group of the tree, \<open>splitAfterTabWidget\<close> creates a new empty group with the
  next widget id, directly after the target. If the target is the root, the root becomes a
  splitter of the requested axis over the target and the new group. If the parent splitter
  has the requested axis, the new group becomes the child after the target and the number of
  splitters is unchanged. Otherwise a new splitter of the requested axis over the target and
  the new group takes the place of the target. In the witness, a second vertical split of
  the first group of \<open>[G1, G2]\<close> gives \<open>[G1, G3, G2]\<close>.
\<close>

theorem splitAfterTabWidget_spec:
  assumes d: "distinct (getAllTabWidgets (rootInfoNode s))"
    and leaf: "nodeAt p (rootInfoNode s) = Some (TabWidgetInfo g)"
  shows "\<exists>root'.
     splitAfterTabWidget s (tabWidget g) axis =
       (Some (tabWidgetIdCounter s + 1),
        s\<lparr>tabWidgetIdCounter := tabWidgetIdCounter s + 1, rootInfoNode := root'\<rparr>)
     \<and> (if p = [] then
           root' = SplitterInfo axis
                     [TabWidgetInfo g, TabWidgetInfo (newGroup (tabWidgetIdCounter s + 1) [])]
         else (\<exists>ori ks. nodeAt (butlast p) (rootInfoNode s) = Some (SplitterInfo ori ks)
               \<and> ks ! last p = TabWidgetInfo g
               \<and> (if ori = axis then
                     root' = updAt (butlast p) (setKids ori
                        (take (Suc (last p)) ks
                           @ [TabWidgetInfo (newGroup (tabWidgetIdCounter s + 1) [])]
                           @ drop (Suc (last p)) ks)) (rootInfoNode s)
                     \<and> splitterCount root' = splitterCount (rootInfoNode s)
                   else
                     root' = updAt p (\<lambda>_. SplitterInfo axis
                        [TabWidgetInfo g, TabWidgetInfo (newGroup (tabWidgetIdCounter s + 1) [])])
                        (rootInfoNode s)
                     \<and> splitterCount root' = Suc (splitterCount (rootInfoNode s)))))"
proof (cases "p = []")
  case True
  then have "rootInfoNode s = TabWidgetInfo g" using leaf by simp
  from splitAfterTabWidget_root[OF this, of axis] True show ?thesis by simp
next
  case False
  from nodeAt_parent[OF leaf False] obtain ori ks where
    at: "nodeAt (butlast p) (rootInfoNode s) = Some (SplitterInfo ori ks)"
    and i: "last p < length ks" and gi: "ks ! last p = TabWidgetInfo g" by blast
  let ?N = "TabWidgetInfo (newGroup (tabWidgetIdCounter s + 1) [])"
  note r = splitAfterTabWidget_child[OF d at i gi, of axis]
  have p: "butlast p @ [last p] = p" using False by simp
  show ?thesis
  proof (cases "ori = axis")
    case True
    let ?ks = "take (Suc (last p)) ks @ [?N] @ drop (Suc (last p)) ks"
    have "splitterCount (updAt (butlast p) (setKids ori ?ks) (rootInfoNode s)) + splitterCount (SplitterInfo ori ks)
        = splitterCount (rootInfoNode s) + splitterCount (SplitterInfo ori ?ks)"
      using splitterCount_updAt[OF at, of "setKids ori ?ks"] by (simp add: setKids_def)
    then have "splitterCount (updAt (butlast p) (setKids ori ?ks) (rootInfoNode s)) = splitterCount (rootInfoNode s)"
      using splitterCount_insert_leaf[of ori "Suc (last p)" ks] by simp
    then show ?thesis using r at gi True False by simp
  next
    case ne: False
    let ?S = "SplitterInfo axis [TabWidgetInfo g, ?N]"
    have e: "updAt (butlast p) (setKids ori (ks[last p := ?S])) (rootInfoNode s) = updAt p (\<lambda>_. ?S) (rootInfoNode s)"
      using updAt_child[OF at i, of ?S] p by simp
    have "splitterCount (updAt p (\<lambda>_. ?S) (rootInfoNode s)) + splitterCount (TabWidgetInfo g)
        = splitterCount (rootInfoNode s) + splitterCount ?S"
      using splitterCount_updAt[OF leaf, of "\<lambda>_. ?S"] by simp
    then have "splitterCount (updAt p (\<lambda>_. ?S) (rootInfoNode s)) = Suc (splitterCount (rootInfoNode s))"
      by simp
    then show ?thesis using r at gi ne False e by simp
  qed
qed

theorem splitAfterTabWidget_spec_witness:
  "distinct (getAllTabWidgets (rootInfoNode onceSplit))
   \<and> nodeAt [0] (rootInfoNode onceSplit)
        = Some (TabWidgetInfo (newGroup 1 [\<lparr>ref = 0, tab = CallerTab 1, content = 101\<rparr>]))
   \<and> splitAfterTabWidget onceSplit 1 VERTICAL =
       (Some 3, onceSplit\<lparr>tabWidgetIdCounter := 3, rootInfoNode := SplitterInfo VERTICAL
          [TabWidgetInfo (newGroup 1 [\<lparr>ref = 0, tab = CallerTab 1, content = 101\<rparr>]),
           TabWidgetInfo (newGroup 3 []),
           TabWidgetInfo (newGroup 2 [])]\<rparr>)"
  using splitAfterTabWidget_spec[of onceSplit "[0]"
      "newGroup 1 [\<lparr>ref = 0, tab = CallerTab 1, content = 101\<rparr>]" VERTICAL]
  by (simp add: onceSplit_root setKids_def) (simp add: newGroup_def)


text \<open>
  C3: for a content element found in a group that is child \<open>i\<close> of a splitter,
  \<open>closeSplitAtTabContent\<close> merges the group with its right neighbour, or with its left
  neighbour when it is the last child: the pair at \<open>j\<close> and \<open>j + 1\<close> is replaced by the one
  node \<open>merged\<close>. Two groups become the left one with the right one's slots appended after
  its own; next to a splitter, the group's slots are appended to the first group of that
  subtree, the one reached through the first child at every level. A parent left with one
  child is replaced by that child. The witness has the two cases: the vertical splitter
  over \<open>A{101}\<close> and \<open>B{102}\<close> becomes the single root group \<open>A{101, 102}\<close>, and in the
  vertical splitter over \<open>A{101}\<close> and the horizontal splitter \<open>[B{102}, C{103}]\<close> the slot
  of \<open>A\<close> goes to \<open>B\<close>, which gives the root \<open>[B{102, 101}, C{103}]\<close>.
\<close>

theorem closeSplitAtTabContent_spec:
  assumes w: "wellSplit (rootInfoNode s)" and d: "distinct (getAllTabWidgets (rootInfoNode s))"
    and f: "findPathToTabContent (rootInfoNode s) c = Some (q @ [i], g, r)"
    and at: "nodeAt q (rootInfoNode s) = Some (SplitterInfo ori ks)"
  shows "\<exists>j. j = (if Suc i = length ks then i - 1 else i)
     \<and> Suc j < length ks \<and> ks ! i = TabWidgetInfo g
     \<and> closeSplitAtTabContent s c =
         Inr ((), s\<lparr>rootInfoNode :=
            updAt q (\<lambda>_. if length ks = 2 then merged (ks ! j) (ks ! Suc j)
                          else SplitterInfo ori (take j ks @ [merged (ks ! j) (ks ! Suc j)] @ drop (j + 2) ks))
              (rootInfoNode s)\<rparr>)"
proof -
  define j where "j = (if Suc i = length ks then i - 1 else i)"
  from closeSplit_unfold[OF w d f at j_def] have sj: "Suc j < length ks" and gi: "ks ! i = TabWidgetInfo g"
    and all: "list_all wellSplit ks"
    by simp_all
  from closeSplit_result[OF w d f at j_def] obtain m where
    m: "mergePair (ks ! j) (ks ! Suc j) = Some m"
    and run: "closeSplitAtTabContent s c =
         Inr ((), s\<lparr>rootInfoNode :=
            updAt q (\<lambda>_. collapsed ori (take j ks @ [m] @ drop (j + 2) ks)) (rootInfoNode s)\<rparr>)"
    by blast
  have "wellSplit (ks ! j)" and "wellSplit (ks ! Suc j)" using all sj by (simp_all add: list_all_length)
  then have mm: "m = merged (ks ! j) (ks ! Suc j)" using m by (rule mergePair_merged)
  have "length (take j ks @ [m] @ drop (j + 2) ks) = length ks - 1" using sj by simp
  then have "collapsed ori (take j ks @ [m] @ drop (j + 2) ks)
     = (if length ks = 2 then m else SplitterInfo ori (take j ks @ [m] @ drop (j + 2) ks))"
    using sj by (auto simp: collapsed_def)
  then show ?thesis using run mm sj gi j_def by simp
qed

theorem closeSplitAtTabContent_spec_witness:
  "wellSplit (rootInfoNode twoGroups) \<and> distinct (getAllTabWidgets (rootInfoNode twoGroups))
   \<and> findPathToTabContent (rootInfoNode twoGroups) 101
       = Some ([] @ [0], newGroup 1 [\<lparr>ref = 0, tab = CallerTab 1, content = 101\<rparr>],
               Some \<lparr>ref = 0, tab = CallerTab 1, content = 101\<rparr>)
   \<and> closeSplitAtTabContent twoGroups 101 =
       Inr ((), twoGroups\<lparr>rootInfoNode := TabWidgetInfo (newGroup 1
          [\<lparr>ref = 0, tab = CallerTab 1, content = 101\<rparr>, \<lparr>ref = 1, tab = CallerTab 2, content = 102\<rparr>])\<rparr>)
   \<and> wellSplit (rootInfoNode nestedLayout) \<and> distinct (getAllTabWidgets (rootInfoNode nestedLayout))
   \<and> findPathToTabContent (rootInfoNode nestedLayout) 101
       = Some ([] @ [0], newGroup 1 [\<lparr>ref = 0, tab = CallerTab 1, content = 101\<rparr>],
               Some \<lparr>ref = 0, tab = CallerTab 1, content = 101\<rparr>)
   \<and> closeSplitAtTabContent nestedLayout 101 =
       Inr ((), nestedLayout\<lparr>rootInfoNode := SplitterInfo HORIZONTAL
          [TabWidgetInfo (newGroup 2 [\<lparr>ref = 1, tab = CallerTab 2, content = 102\<rparr>,
                                     \<lparr>ref = 0, tab = CallerTab 1, content = 101\<rparr>]),
           TabWidgetInfo (newGroup 3 [\<lparr>ref = 2, tab = CallerTab 3, content = 103\<rparr>])]\<rparr>)"
  using closeSplitAtTabContent_spec[of twoGroups 101 "[]" 0
      "newGroup 1 [\<lparr>ref = 0, tab = CallerTab 1, content = 101\<rparr>]"
      "Some \<lparr>ref = 0, tab = CallerTab 1, content = 101\<rparr>" VERTICAL
      "[TabWidgetInfo (newGroup 1 [\<lparr>ref = 0, tab = CallerTab 1, content = 101\<rparr>]),
        TabWidgetInfo (newGroup 2 [\<lparr>ref = 1, tab = CallerTab 2, content = 102\<rparr>])]"]
    closeSplitAtTabContent_spec[of nestedLayout 101 "[]" 0
      "newGroup 1 [\<lparr>ref = 0, tab = CallerTab 1, content = 101\<rparr>]"
      "Some \<lparr>ref = 0, tab = CallerTab 1, content = 101\<rparr>" VERTICAL
      "[TabWidgetInfo (newGroup 1 [\<lparr>ref = 0, tab = CallerTab 1, content = 101\<rparr>]),
        SplitterInfo HORIZONTAL
        [TabWidgetInfo (newGroup 2 [\<lparr>ref = 1, tab = CallerTab 2, content = 102\<rparr>]),
         TabWidgetInfo (newGroup 3 [\<lparr>ref = 2, tab = CallerTab 3, content = 103\<rparr>])]]"]
  by (simp add: twoGroups_root nestedLayout_root) (simp add: newGroup_def)

text \<open>
  C4, as amended: let \<open>g\<close> be a group of a tree that satisfies the invariant, split after
  \<open>g\<close>, call \<open>update\<close>, and close the split at a content element that the search finds in
  the new group (the placeholder content that \<open>update\<close> gave it, when no earlier group holds
  the same element; \<open>constant_factory_example\<close> has a factory for which an earlier group
  does). The call succeeds. If the new group was inserted before a group of the
  same splitter, it is the left partner of the merge: the tree is the tree before the split
  with the tab widget of that right neighbour replaced by the new tab widget. In every other
  case, a new splitter over \<open>g\<close> and the new group, the new group as last child, or a
  splitter as right neighbour, the tree has exactly the groups, slot sequences and
  arrangement of the tree before the split. In all cases the arrangement and the slot
  sequences are those before the split.
\<close>

theorem split_then_close_layout:
  assumes inv: "layoutInv s"
    and leaf: "nodeAt p (rootInfoNode s) = Some (TabWidgetInfo g)"
    and s2: "s2 = after (perform (snd (splitAfterTabWidget s (tabWidget g) axis)) Update)"
    and found: "findPathToTabContent (rootInfoNode s2) c = Some (pN, new, r)"
    and isNew: "tabWidget new = tabWidgetIdCounter s + 1"
  shows "\<exists>s3. closeSplitAtTabContent s2 c = Inr ((), s3)
     \<and> layoutOf (rootInfoNode s3) =
         (case rightGroup (rootInfoNode s) p axis of
            None \<Rightarrow> layoutOf (rootInfoNode s)
          | Some w' \<Rightarrow> map_Layout (\<lambda>w. if w = w' then tabWidgetIdCounter s + 1 else w)
                         (layoutOf (rootInfoNode s)))
     \<and> arrangementOf (rootInfoNode s3) = arrangementOf (rootInfoNode s)"
proof -
  let ?n = "newGroup (tabWidgetIdCounter s + 1) []"
  let ?s1 = "snd (splitAfterTabWidget s (tabWidget g) axis)"
  let ?L = "case rightGroup (rootInfoNode s) p axis of
            None \<Rightarrow> layoutOf (rootInfoNode s)
          | Some w' \<Rightarrow> map_Layout (\<lambda>w. if w = w' then tabWidgetIdCounter s + 1 else w)
                         (layoutOf (rootInfoNode s))"
  have w: "wellSplit (rootInfoNode s)" and d: "distinct (getAllTabWidgets (rootInfoNode s))"
    using inv by (simp_all add: layoutInv_def namesOk_def)
  have inv1: "layoutInv ?s1" using splitAfterTabWidget_inv[OF inv] by simp
  have s2': "s2 = updateInfoNodes ?s1" using s2 by (simp add: update_after)
  have inv2: "layoutInv s2" using update_inv[OF inv1] s2' by simp
  have w2: "wellSplit (rootInfoNode s2)" and d2: "distinct (getAllTabWidgets (rootInfoNode s2))"
    using inv2 by (simp_all add: layoutInv_def namesOk_def)
  have lay: "layoutOf (rootInfoNode s2) = layoutOf (rootInfoNode ?s1)"
    using update_keeps(1)[of ?s1] s2' by simp
  have e: "children ?n = []" and isNew': "tabWidget new = tabWidget ?n"
    and tn: "tabWidget ?n = tabWidgetIdCounter s + 1"
    using isNew by (simp_all add: newGroup_def)
  have main: "\<exists>s3. closeSplitAtTabContent s2 c = Inr ((), s3) \<and> layoutOf (rootInfoNode s3) = ?L"
  proof (cases "p = []")
    case True
    then have root: "rootInfoNode s = TabWidgetInfo g" using leaf by simp
    have "rootInfoNode ?s1 = SplitterInfo axis [TabWidgetInfo g, TabWidgetInfo ?n]"
      using splitAfterTabWidget_root[OF root, of axis] by simp
    then have lay': "layoutOf (rootInfoNode s2)
        = layoutOf (updAt p (\<lambda>_. SplitterInfo axis [TabWidgetInfo g, TabWidgetInfo ?n]) (rootInfoNode s))"
      using lay True by simp
    have "rightGroup (rootInfoNode s) p axis = None" using True by (simp add: rightGroup_def)
    then show ?thesis using close_new_splitter[OF w2 d2 lay' leaf e found isNew'] by simp
  next
    case False
    from nodeAt_parent[OF leaf False] obtain ori ks where
      at: "nodeAt (butlast p) (rootInfoNode s) = Some (SplitterInfo ori ks)"
      and i: "last p < length ks" and gi: "ks ! last p = TabWidgetInfo g" by blast
    have p: "butlast p @ [last p] = p" using False by simp
    have two: "2 \<le> length ks" using wellSplit_nodeAt[OF w at] by simp
    note sp = splitAfterTabWidget_child[OF d at i gi, of axis]
    show ?thesis
    proof (cases "ori = axis")
      case True
      have "rootInfoNode ?s1 = updAt (butlast p)
          (\<lambda>_. SplitterInfo ori (take (Suc (last p)) ks @ [TabWidgetInfo ?n] @ drop (Suc (last p)) ks))
          (rootInfoNode s)"
        using sp True by (simp add: setKids_def)
      then have lay': "layoutOf (rootInfoNode s2) = layoutOf (updAt (butlast p)
          (\<lambda>_. SplitterInfo ori (take (Suc (last p)) ks @ [TabWidgetInfo ?n] @ drop (Suc (last p)) ks))
          (rootInfoNode s))"
        using lay by simp
      have rg: "rightGroup (rootInfoNode s) p axis
          = (if Suc (last p) < length ks
             then (case ks ! Suc (last p) of TabWidgetInfo r \<Rightarrow> Some (tabWidget r)
                                           | SplitterInfo ori' ks' \<Rightarrow> None)
             else None)"
        using False at True by (simp add: rightGroup_def)
      from close_same_axis[OF w2 d2 lay' at i two e found isNew'] obtain s3 where
        cl: "closeSplitAtTabContent s2 c = Inr ((), s3)"
        and l3: "layoutOf (rootInfoNode s3) = layoutOf (updAt (butlast p) (\<lambda>_. SplitterInfo ori
           (if Suc (last p) < length ks
            then ks[Suc (last p) := retag (tabWidget ?n) (ks ! Suc (last p))] else ks)) (rootInfoNode s))"
        by blast
      have "layoutOf (rootInfoNode s3) = ?L"
        unfolding l3 rg tn by (rule same_axis_target[OF d at])
      then show ?thesis using cl by blast
    next
      case False
      have "rootInfoNode ?s1 = updAt (butlast p)
          (setKids ori (ks[last p := SplitterInfo axis [TabWidgetInfo g, TabWidgetInfo ?n]]))
          (rootInfoNode s)"
        using sp False by simp
      also have "\<dots> = updAt p (\<lambda>_. SplitterInfo axis [TabWidgetInfo g, TabWidgetInfo ?n]) (rootInfoNode s)"
        using updAt_child[OF at i] p by simp
      finally have lay': "layoutOf (rootInfoNode s2)
        = layoutOf (updAt p (\<lambda>_. SplitterInfo axis [TabWidgetInfo g, TabWidgetInfo ?n]) (rootInfoNode s))"
        using lay by simp
      have "rightGroup (rootInfoNode s) p axis = None" using at False by (simp add: rightGroup_def)
      then show ?thesis using close_new_splitter[OF w2 d2 lay' leaf e found isNew'] by simp
    qed
  qed
  then obtain s3 where cl: "closeSplitAtTabContent s2 c = Inr ((), s3)"
    and l3: "layoutOf (rootInfoNode s3) = ?L" by blast
  have "arrangementOf (rootInfoNode s3) = arrangementOf (rootInfoNode s)"
    unfolding arrangementOf_def l3
    by (simp add: Layout.map_comp comp_def split: option.splits)
  then show ?thesis using cl l3 by blast
qed

theorem split_then_close_layout_witness:
  "layoutInv roundTripStart
   \<and> nodeAt [0] (rootInfoNode roundTripStart) = Some (TabWidgetInfo (newGroup 1 []))
   \<and> findPathToTabContent (rootInfoNode roundTripSplit) 1001
       = Some ([1], \<lparr>children = [], tabWidget = 3, emptyTab = Some (CreatedTab 2),
                     emptyTabContent = Some 1001\<rparr>, None)
   \<and> rightGroup (rootInfoNode roundTripStart) [0] VERTICAL = Some 2
   \<and> (\<exists>s3. closeSplitAtTabContent roundTripSplit 1001 = Inr ((), s3)
         \<and> layoutOf (rootInfoNode s3)
             = Split VERTICAL [Group 1 [], Group 3 [\<lparr>ref = 0, tab = CallerTab 1, content = 100\<rparr>]]
         \<and> arrangementOf (rootInfoNode s3) = arrangementOf (rootInfoNode roundTripStart))"
  using split_then_close_layout[of roundTripStart "[0]" "newGroup 1 []" roundTripSplit VERTICAL
      1001 "[1]" "\<lparr>children = [], tabWidget = 3, emptyTab = Some (CreatedTab 2),
                     emptyTabContent = Some 1001\<rparr>" None]
    roundTripStart_inv roundTripSplit_found roundTripStart_rightGroup
  by (simp add: roundTripStart_root roundTripSplit_def newGroup_def)

text \<open>
  C4 as stated fails for the tab groups: the new group is merged with its right neighbour
  when it has one, and of two merged groups the left one survives. After splitting after
  group 1 in \<open>[1{}, 2{100}]\<close> and closing the split at the content of the new group 3, the
  tree is \<open>[1{}, 3{100}]\<close>: group 3 holds the slot and group 2 is gone.
\<close>

theorem split_then_close_counterexample:
  "fst (splitAfterTabWidget roundTripStart 1 VERTICAL) = Some 3
   \<and> fst (getEmptyContentByTabWidget roundTripSplit 3) = Some 1001
   \<and> layoutOf (rootInfoNode roundTripStart)
       = Split VERTICAL [Group 1 [], Group 2 [\<lparr>ref = 0, tab = CallerTab 1, content = 100\<rparr>]]
   \<and> returnedLayout (closeSplitAtTabContent roundTripSplit 1001)
       = Some (Split VERTICAL [Group 1 [], Group 3 [\<lparr>ref = 0, tab = CallerTab 1, content = 100\<rparr>]])"
proof -
  obtain s3 where "closeSplitAtTabContent roundTripSplit 1001 = Inr ((), s3)"
    and "layoutOf (rootInfoNode s3)
             = Split VERTICAL [Group 1 [], Group 3 [\<lparr>ref = 0, tab = CallerTab 1, content = 100\<rparr>]]"
    using roundTripSplit_close by (cases "closeSplitAtTabContent roundTripSplit 1001") auto
  then show ?thesis using roundTripSplit_new
    by (simp add: roundTripStart_root newGroup_def returnedLayout_def)
qed

text \<open>
  C6, as amended: \<open>moveTabToTabWidget\<close> clamps the index from above only. For a tab of a
  slot and a target group with \<open>n\<close> slots the cut position is \<open>min(index, n)\<close> when the
  index is not negative, which is the index clamped to \<open>[0, n]\<close>, and \<open>max(n + index, 0)\<close>
  when it is negative. With different groups the slot leaves its source group and is
  inserted into the target at the cut position. Within one group the slot is taken out of
  both parts of the sequence cut at that position (a position of the sequence before the
  removal) and put between them: the other slots keep their order and no slot is gained or
  lost.
\<close>

theorem moveTabToTabWidget_position:
  assumes d: "distinct (map ref (allTabInfos (rootInfoNode s)))"
    and src: "findTabWidgetInfoByTab (rootInfoNode s) t = Some (sp, source, Some tabInfo)"
    and tgt: "findTabWidgetInfoByTabWidget (rootInfoNode s) w = Some (tp, target)"
  shows "\<exists>s' new.
     moveTabToTabWidget s t w i = Inr ((), s')
     \<and> nodeAt tp (rootInfoNode s') = Some (TabWidgetInfo (target\<lparr>children := new\<rparr>))
     \<and> (if sp = tp
         then new = remove1 tabInfo (take (moveIndex i (length (children target))) (children target))
                      @ [tabInfo]
                      @ remove1 tabInfo (drop (moveIndex i (length (children target))) (children target))
              \<and> remove1 tabInfo new = remove1 tabInfo (children target)
              \<and> mset new = mset (children target)
         else new = insertAt (moveIndex i (length (children target))) tabInfo (children target)
              \<and> nodeAt sp (rootInfoNode s')
                   = Some (TabWidgetInfo (source\<lparr>children := remove1 tabInfo (children source)\<rparr>)))
     \<and> (0 \<le> i \<longrightarrow> moveIndex i (length (children target)) = clampedIndex i (length (children target)))"
proof -
  note c = moveTab_common[OF d src tgt]
  let ?k = "moveIndex i (length (children target))"
  have clamp: "0 \<le> i \<longrightarrow> ?k = clampedIndex i (length (children target))"
    by (auto simp: moveIndex_def clampedIndex_def)
  show ?thesis
  proof (cases "sp = tp")
    case True
    then have st: "target = source" using c(1,2) by simp
    let ?new = "remove1 tabInfo (take ?k (children target)) @ [tabInfo]
                  @ remove1 tabInfo (drop ?k (children target))"
    have dx: "distinct (children source)" using c(4) by (simp add: distinct_map)
    have r: "remove1 tabInfo ?new = remove1 tabInfo (children target)"
      using remove1_reinsert[OF dx c(3)] st by simp
    have "mset ?new = mset (remove1 tabInfo ?new) + {#tabInfo#}" by simp
    also have "\<dots> = mset (children target)" using r c(3) st by simp
    finally have ms: "mset ?new = mset (children target)" .
    have run: "moveTabToTabWidget s t w i = Inr ((), s\<lparr>rootInfoNode :=
        updAt sp (setChildren source ?new) (rootInfoNode s)\<rparr>)"
      using moveTab_same[OF d src tgt[folded True], of i] st by simp
    have "nodeAt tp (updAt sp (setChildren source ?new) (rootInfoNode s))
        = Some (TabWidgetInfo (target\<lparr>children := ?new\<rparr>))"
      using nodeAt_updAt_same[OF c(1), of "setChildren source ?new"] True st
      by (simp add: setChildren_def)
    then show ?thesis using run r ms clamp True by auto
  next
    case False
    let ?new = "insertAt ?k tabInfo (children target)"
    let ?root1 = "updAt sp (setChildren source (remove1 tabInfo (children source))) (rootInfoNode s)"
    have run: "moveTabToTabWidget s t w i = Inr ((), s\<lparr>rootInfoNode :=
        updAt tp (setChildren target ?new) ?root1\<rparr>)"
      using moveTab_other[OF d src tgt False, of i] by (simp add: insertAt_def)
    have t1: "nodeAt tp ?root1 = Some (TabWidgetInfo target)"
      using nodeAt_updAt_other_leaf[OF c(2) c(1)] False by simp
    have a: "nodeAt tp (updAt tp (setChildren target ?new) ?root1)
        = Some (TabWidgetInfo (target\<lparr>children := ?new\<rparr>))"
      using nodeAt_updAt_same[OF t1, of "setChildren target ?new"] by (simp add: setChildren_def)
    have s1: "nodeAt sp ?root1 = Some (TabWidgetInfo (source\<lparr>children := remove1 tabInfo (children source)\<rparr>))"
      using nodeAt_updAt_same[OF c(1), of "setChildren source (remove1 tabInfo (children source))"]
      by (simp add: setChildren_def)
    have b: "nodeAt sp (updAt tp (setChildren target ?new) ?root1)
        = Some (TabWidgetInfo (source\<lparr>children := remove1 tabInfo (children source)\<rparr>))"
      using nodeAt_updAt_other_leaf[OF s1 t1 False] .
    show ?thesis using run a b clamp False by auto
  qed
qed


theorem moveTabToTabWidget_position_witness:
  "distinct (map ref (allTabInfos (rootInfoNode moveExample)))
   \<and> findTabWidgetInfoByTab (rootInfoNode moveExample) (CallerTab 10)
        = Some ([0], \<lparr>children = [\<lparr>ref = 0, tab = CallerTab 10, content = 100\<rparr>], tabWidget = 1,
                       emptyTab = None, emptyTabContent = None\<rparr>,
                Some \<lparr>ref = 0, tab = CallerTab 10, content = 100\<rparr>)
   \<and> (\<exists>s'. moveTabToTabWidget moveExample (CallerTab 10) 2 (-1) = Inr ((), s')
          \<and> nodeAt [1] (rootInfoNode s')
              = Some (TabWidgetInfo \<lparr>children = [\<lparr>ref = 1, tab = CallerTab 21, content = 201\<rparr>,
                                  \<lparr>ref = 2, tab = CallerTab 22, content = 202\<rparr>,
                                  \<lparr>ref = 0, tab = CallerTab 10, content = 100\<rparr>,
                                  \<lparr>ref = 3, tab = CallerTab 23, content = 203\<rparr>], tabWidget = 2,
                      emptyTab = None, emptyTabContent = None\<rparr>)
          \<and> nodeAt [0] (rootInfoNode s')
              = Some (TabWidgetInfo \<lparr>children = [], tabWidget = 1, emptyTab = None, emptyTabContent = None\<rparr>))"
  using moveTabToTabWidget_position[of moveExample "CallerTab 10" "[0]"
      "\<lparr>children = [\<lparr>ref = 0, tab = CallerTab 10, content = 100\<rparr>], tabWidget = 1,
                       emptyTab = None, emptyTabContent = None\<rparr>"
      "\<lparr>ref = 0, tab = CallerTab 10, content = 100\<rparr>" 2 "[1]"
      "\<lparr>children = [\<lparr>ref = 1, tab = CallerTab 21, content = 201\<rparr>,
                                  \<lparr>ref = 2, tab = CallerTab 22, content = 202\<rparr>,
                                  \<lparr>ref = 3, tab = CallerTab 23, content = 203\<rparr>], tabWidget = 2,
                      emptyTab = None, emptyTabContent = None\<rparr>" "-1"]
  by (simp add: moveExample_root moveIndex_def insertAt_def)

text \<open>
  C6 as stated fails for a negative index: with the target slots \<open>201, 202, 203\<close> and the
  index \<open>-1\<close> the moved slot lands before the last slot, not at the front.
\<close>

theorem moveTabToTabWidget_negative_index_counterexample:
  "contentsAfter moveExample [MoveTabToTabWidget (CallerTab 10) 2 (-1)] 2 = Some [201, 202, 100, 203]
   \<and> contentsAfter moveExample [MoveTabToTabWidget (CallerTab 10) 2 (-1)] 2
        \<noteq> Some (insertAt (clampedIndex (-1) (length [201, 202, 203 :: nat])) 100 [201, 202, 203])"
  by (simp add: contentsAfter_def moveTabToTabWidget_def moveExample_root Let_def slice_def sliceFrom_def
      relIndex_def setChildren_def getTabContentsByTabWidget_def insertAt_def clampedIndex_def)


text \<open>
  C7: \<open>moveTabToTabWidget\<close> should neither create nor lose a slot. For the tab of a slot
  it does not (\<open>moveTab_keeps\<close>). The source breaks the claim for the placeholder tab of an
  empty group, which is a tab present in the tree: the search returns the group with a null
  \<open>tabInfo\<close>, no test follows, and the null is written into the child array of the target.
  In the example the tree has one entry before the call, the slot of content 100 in group
  1, and two after it, of which the first is no slot.
\<close>

theorem moveTabToTabWidget_placeholder_stores_null:
  "length (allTabInfos (rootInfoNode exampleLayout)) = 1
   \<and> moveTabToTabWidget exampleLayout (CreatedTab 1) 1 0
       = Inl (NullStored 1 [None, Some \<lparr>ref = 0, tab = CallerTab 10, content = 100\<rparr>], exampleLayout)
   \<and> entriesAfter (moveTabToTabWidget exampleLayout (CreatedTab 1) 1 0) = 2"
  using moveTab_placeholder[OF exampleLayout_lookups(1) exampleLayout_lookups(2), of 0]
    exampleLayout_lookups(2,3)
  by (simp add: moveIndex_def entriesAfter_def)

text \<open>
  C8: for boxes with finite edges and a requesting group that has a box, each of the four
  directional queries returns what \<open>nearestInDirection\<close> describes: every box is turned
  by the direction's transform; the boxes whose turned left edge is strictly greater than
  the centre \<open>x\<close> of the requesting group's turned box, and whose turned vertical span
  satisfies \<open>top \<le> centre y < bottom\<close>, are kept; the answer is the group of the kept box
  with the least left edge, the first such box in traversal order, and null when no box is
  kept. The centre is \<open>(left + right) / 2\<close> as the source computes it, in doubles
  (\<open>rounded_centre_example\<close>). In the witness the groups 1 to 4 form a grid of two rows and
  two columns.
\<close>

theorem directional_query_spec:
  assumes fin: "\<forall>pos\<in>set rawPositions. finiteBox pos"
    and has: "w \<in> tabWidgetInfo ` set rawPositions"
  shows "getTabWidgetToLeft rawPositions w = Inr (nearestInDirection ToLeft rawPositions w)
     \<and> getTabWidgetToRight rawPositions w = Inr (nearestInDirection ToRight rawPositions w)
     \<and> getTabWidgetAbove rawPositions w = Inr (nearestInDirection Above rawPositions w)
     \<and> getTabWidgetBelow rawPositions w = Inr (nearestInDirection Below rawPositions w)"
  unfolding getTabWidgetToLeft_def getTabWidgetToRight_def getTabWidgetAbove_def getTabWidgetBelow_def
  using fin has by (intro conjI getTabWidgetInDirection_turned transform_turned) auto

theorem directional_query_spec_witness:
  "list_all finiteBox grid \<and> 1 \<in> tabWidgetInfo ` set grid \<and> 4 \<in> tabWidgetInfo ` set grid
   \<and> getTabWidgetToRight grid 1 = Inr (Some 2) \<and> getTabWidgetBelow grid 1 = Inr (Some 3)
   \<and> getTabWidgetToLeft grid 1 = Inr None \<and> getTabWidgetAbove grid 1 = Inr None
   \<and> getTabWidgetToLeft grid 4 = Inr (Some 3) \<and> getTabWidgetAbove grid 4 = Inr (Some 2)
   \<and> getTabWidgetToRight grid 4 = Inr None \<and> getTabWidgetBelow grid 4 = Inr None"
proof -
  have a: "1 \<in> tabWidgetInfo ` set grid" and b: "4 \<in> tabWidgetInfo ` set grid"
    by (simp_all add: grid_def box_def)
  show ?thesis
    using directional_query_spec[OF grid_finite a] directional_query_spec[OF grid_finite b]
      grid_finite a b grid_nearest
    by (simp add: list_all_iff)
qed

text \<open>
  C9, as amended: \<open>appendTab\<close> does not look for the content element in the tree, so
  uniqueness of content elements is kept by a sequence of calls on a new layout provided
  every \<open>appendTab\<close> of the sequence passes a content element that no slot holds at that
  moment. The sequences are those in which no \<open>moveTabToTabWidget\<close> names the placeholder
  tab of an empty group; such a call stores a null in a child array, and nothing is said
  here about a tree with a null. Every such sequence has a resulting layout, calls that
  throw included, and in it the content elements of the slots are pairwise distinct.
\<close>

theorem contents_unique:
  assumes "appendsFresh (newSplitLayout widgetIds tabIds) ops"
    and "noPlaceholderMove (newSplitLayout widgetIds tabIds) ops"
  shows "\<exists>s. runOps (newSplitLayout widgetIds tabIds) ops = Some s
     \<and> distinct (getAllTabContents (rootInfoNode s))"
proof -
  from runOps_no_null[OF assms(2)] obtain s where
    s: "runOps (newSplitLayout widgetIds tabIds) ops = Some s" by blast
  have "layoutInv (newSplitLayout widgetIds tabIds)" by (rule newSplitLayout_inv)
  moreover have "distinct (getAllTabContents (rootInfoNode (newSplitLayout widgetIds tabIds)))"
    by (simp add: newSplitLayout_def)
  ultimately have "distinct (getAllTabContents (rootInfoNode s))"
    using assms(1) s by (rule runOps_distinct)
  then show ?thesis using s by blast
qed


theorem contents_unique_witness:
  "appendsFresh (newSplitLayout 0 0) moveOps \<and> noPlaceholderMove (newSplitLayout 0 0) moveOps
   \<and> (\<exists>s. runOps (newSplitLayout 0 0) moveOps = Some s
          \<and> getAllTabContents (rootInfoNode s) = [102, 101]
          \<and> distinct (getAllTabContents (rootInfoNode s)))"
  using contents_unique[OF moveOps_ok(1) moveOps_ok(2)] moveOps_ok by auto

text \<open>
  C9 as stated fails: appending the same content element twice gives two slots with it.
\<close>

theorem appendTab_duplicate_counterexample:
  "\<not> distinct (getAllTabContents (rootInfoNode
        (appendTab (appendTab (newSplitLayout 0 0) 1 (CallerTab 1) 100) 1 (CallerTab 2) 100)))"
  by (simp add: appendTab_def newSplitLayout_def setChildren_def)

text \<open>
  C10: for a group of the tree, \<open>getTabContentsByTabWidget\<close> returns the contents of its
  slots in order when it has slots; when it has none, it returns the placeholder content as a
  one-element list if the placeholder has been materialised, and the empty list otherwise.
\<close>

theorem getTabContentsByTabWidget_spec:
  assumes "distinct (getAllTabWidgets (rootInfoNode s))"
    and "info \<in> set (leaves (rootInfoNode s))"
  shows "getTabContentsByTabWidget s (tabWidget info) =
           (Some (if children info \<noteq> [] then map content (children info)
                  else (case emptyTabContent info of Some e \<Rightarrow> [e] | None \<Rightarrow> [])), s)"
proof -
  from assms(2) obtain p where "nodeAt p (rootInfoNode s) = Some (TabWidgetInfo info)"
    using leaves_nodeAt by blast
  then have "findTabWidgetInfoByTabWidget (rootInfoNode s) (tabWidget info) = Some (p, info)"
    using assms(1) by (rule findTabWidgetInfoByTabWidget_at[rotated])
  then show ?thesis by (simp add: getTabContentsByTabWidget_def split: option.splits)
qed


theorem getTabContentsByTabWidget_spec_witness:
  "distinct (getAllTabWidgets (rootInfoNode exampleLayout))
   \<and> \<lparr>children = [], tabWidget = 2, emptyTab = Some (CreatedTab 1), emptyTabContent = Some 1000\<rparr>
        \<in> set (leaves (rootInfoNode exampleLayout))
   \<and> getTabContentsByTabWidget exampleLayout 2 = (Some [1000], exampleLayout)"
  using getTabContentsByTabWidget_spec[of exampleLayout
      "\<lparr>children = [], tabWidget = 2, emptyTab = Some (CreatedTab 1), emptyTabContent = Some 1000\<rparr>"]
  by (simp add: exampleLayout_root)


end
